(* ===== verification/Prelude.thy ===== *)
theory Prelude
  imports Main "HOL-Library.Word" "HOL-Library.Char_ord" "HOL-Library.List_Lexorder"
begin

text \<open>
  Shared vocabulary of the development: machine integer types, the C++ containers the sources
  use and the lemmas about them that every component relies on.

  \<^item> \<^emph>\<open>Ordered maps\<close> (\<open>std::map\<close>): association lists kept in increasing key order.
    Look-up is \<open>map_of\<close>; \<open>omap_put\<close> is \<open>m[k] = v\<close>; \<open>omap_del\<close> is \<open>m.erase(k)\<close>;
    a range-for loop visits the list from left to right, which is the iteration order of the
    C++ container. \<open>omap_ok\<close> is the container's own invariant.
  \<^item> \<^emph>\<open>Ordered sets\<close> (\<open>std::set\<close>): strictly increasing lists.
  \<^item> \<open>std::sort\<close> with a comparison function: insertion sort, with the facts a caller may
    use when the comparison is a strict weak order.
  \<^item> \<open>std::to_string\<close> on unsigned and signed numbers.
\<close>

unbundle bit_operations_syntax

type_synonym u8 = "8 word"
type_synonym u16 = "16 word"
type_synonym u32 = "32 word"
type_synonym u64 = "64 word"
type_synonym byte = "8 word"

named_theorems omap_simps
named_theorems codec_simps
named_theorems codec_intros
named_theorems enum_simps
named_theorems frame_rules

section \<open>Ordered maps\<close>

type_synonym ('k, 'v) omap = "('k \<times> 'v) list"

fun omap_put :: "'k::linorder \<Rightarrow> 'v \<Rightarrow> ('k, 'v) omap \<Rightarrow> ('k, 'v) omap" where
  "omap_put k v [] = [(k, v)]"
| "omap_put k v (e # m) =
     (if fst e < k then e # omap_put k v m
      else if fst e = k then (k, v) # m
      else (k, v) # e # m)"

definition omap_del :: "'k \<Rightarrow> ('k, 'v) omap \<Rightarrow> ('k, 'v) omap" where
  "omap_del k m = filter (\<lambda>e. fst e \<noteq> k) m"

definition omap_has :: "('k, 'v) omap \<Rightarrow> 'k \<Rightarrow> bool" where
  "omap_has m k = (map_of m k \<noteq> None)"

definition omap_ok :: "('k::linorder, 'v) omap \<Rightarrow> bool" where
  "omap_ok m = sorted_wrt (<) (map fst m)"

text \<open>\<open>m[k]\<close> on a map whose values have a default: the default is read when the key is absent.\<close>

definition omap_get_or :: "'v \<Rightarrow> ('k, 'v) omap \<Rightarrow> 'k \<Rightarrow> 'v" where
  "omap_get_or d m k = (case map_of m k of None \<Rightarrow> d | Some v \<Rightarrow> v)"

text \<open>A loop that overwrites the mapped value of every element in place.\<close>

definition omap_map :: "('v \<Rightarrow> 'w) \<Rightarrow> ('k, 'v) omap \<Rightarrow> ('k, 'w) omap" where
  "omap_map f m = map (\<lambda>e. (fst e, f (snd e))) m"

lemma map_of_put [omap_simps, simp]: "map_of (omap_put k v m) = (map_of m)(k \<mapsto> v)"
  by (induction m) (auto simp: fun_eq_iff)

lemma map_of_del [omap_simps, simp]: "map_of (omap_del k m) = (map_of m)(k := None)"
  by (induction m) (auto simp: omap_del_def fun_eq_iff)

lemma map_of_omap_map [omap_simps, simp]: "map_of (omap_map f m) k = map_option f (map_of m k)"
  by (induction m) (auto simp: omap_map_def)

lemma keys_omap_map [simp]: "map fst (omap_map f m) = map fst m"
  by (simp add: omap_map_def)

lemma set_keys_put [simp]: "fst ` set (omap_put k v m) = insert k (fst ` set m)"
  by (induction m) auto

lemma set_keys_del [simp]: "fst ` set (omap_del k m) = fst ` set m - {k}"
  by (auto simp: omap_del_def)

lemma omap_has_put [simp]: "omap_has (omap_put k v m) k' = (k' = k \<or> omap_has m k')"
  by (simp add: omap_has_def)

lemma omap_has_del [simp]: "omap_has (omap_del k m) k' = (k' \<noteq> k \<and> omap_has m k')"
  by (simp add: omap_has_def)

lemma omap_has_map [simp]: "omap_has (omap_map f m) k = omap_has m k"
  by (simp add: omap_has_def)

lemma omap_has_keys: "omap_has m k \<longleftrightarrow> k \<in> fst ` set m"
  by (simp add: omap_has_def map_of_eq_None_iff)

lemma omap_get_or_put [simp]: "omap_get_or d (omap_put k v m) k' = (if k' = k then v else omap_get_or d m k')"
  by (simp add: omap_get_or_def)

lemma omap_get_or_Nil [simp]: "omap_get_or d [] k = d"
  by (simp add: omap_get_or_def)

lemma omap_get_or_del [simp]: "omap_get_or d (omap_del k m) k' = (if k' = k then d else omap_get_or d m k')"
  by (simp add: omap_get_or_def)

lemma omap_get_or_absent: "\<not> omap_has m k \<Longrightarrow> omap_get_or d m k = d"
  by (simp add: omap_has_def omap_get_or_def)

lemma omap_ok_Nil [simp]: "omap_ok []"
  by (simp add: omap_ok_def)

lemma omap_ok_Cons: "omap_ok (e # m) \<longleftrightarrow> (\<forall>k \<in> fst ` set m. fst e < k) \<and> omap_ok m"
  by (simp add: omap_ok_def)

lemma omap_ok_put [simp]: "omap_ok m \<Longrightarrow> omap_ok (omap_put k v m)"
  by (induction m) (auto simp: omap_ok_Cons)

lemma omap_ok_del [simp]: "omap_ok m \<Longrightarrow> omap_ok (omap_del k m)"
  by (induction m) (auto simp: omap_ok_Cons omap_del_def)

lemma omap_ok_map [simp]: "omap_ok (omap_map f m) = omap_ok m"
  by (simp add: omap_ok_def)

lemma omap_ok_distinct: "omap_ok m \<Longrightarrow> distinct (map fst m)"
  by (simp add: omap_ok_def strict_sorted_iff)

lemma omap_in_set: "omap_ok m \<Longrightarrow> (k, v) \<in> set m \<longleftrightarrow> map_of m k = Some v"
  by (simp add: omap_ok_distinct)

lemma omap_del_fresh: "\<not> omap_has m k \<Longrightarrow> omap_del k m = m"
  by (induction m) (auto simp: omap_del_def omap_has_keys)

text \<open>The entries of a map with one key taken out, and that key put back.\<close>

lemma set_omap_put: "omap_ok m \<Longrightarrow> set (omap_put k v m) = insert (k, v) (set (omap_del k m))"
proof (induction m)
  case Nil
  then show ?case by (simp add: omap_del_def)
next
  case (Cons e m)
  have "k \<le> fst e \<Longrightarrow> omap_del k m = m"
    using Cons.prems by (auto simp: omap_ok_Cons omap_del_def intro!: filter_True)
  then show ?case
    using Cons by (cases "fst e = k") (auto simp: omap_ok_Cons omap_del_def)
qed

text \<open>
  Two maps in key order with the same look-ups are the same list: iteration order is determined
  by the contents.
\<close>

lemma omap_as_keys: "distinct (map fst m) \<Longrightarrow> map (\<lambda>k. (k, the (map_of m k))) (map fst m) = m"
  by (auto intro!: map_idI simp: map_of_is_SomeI)

lemma omap_eqI:
  assumes "omap_ok m" "omap_ok m'" "\<And>k. map_of m k = map_of m' k"
  shows "m = m'"
proof -
  have "k \<in> fst ` set m \<longleftrightarrow> k \<in> fst ` set m'" for k
    using assms(3) [of k] map_of_eq_None_iff [of m k] map_of_eq_None_iff [of m' k] by auto
  then have "map fst m = map fst m'"
    using assms(1,2) unfolding omap_ok_def by (intro strict_sorted_equal) auto
  then show ?thesis
    using omap_as_keys [of m] omap_as_keys [of m'] assms by (simp add: omap_ok_distinct)
qed

text \<open>A map read back entry by entry, in its own order, is the same map.\<close>

definition omap_of_entries :: "('k::linorder \<times> 'v) list \<Rightarrow> ('k, 'v) omap" where
  "omap_of_entries kvs = foldl (\<lambda>m kv. omap_put (fst kv) (snd kv) m) [] kvs"

lemma foldl_omap_put_ok: "omap_ok a \<Longrightarrow> omap_ok (foldl (\<lambda>m kv. omap_put (fst kv) (snd kv) m) a kvs)"
  by (induction kvs arbitrary: a) auto

lemma map_of_foldl_omap_put:
  "distinct (map fst kvs) \<Longrightarrow> map_of (foldl (\<lambda>m kv. omap_put (fst kv) (snd kv) m) a kvs) = map_of a ++ map_of kvs"
  by (induction kvs arbitrary: a) (auto simp: map_add_upd_left dom_map_of_conv_image_fst)

lemma omap_of_entries_id:
  assumes "omap_ok m"
  shows "omap_of_entries m = m"
proof (rule omap_eqI)
  show "omap_ok (omap_of_entries m)" unfolding omap_of_entries_def by (rule foldl_omap_put_ok) simp
  show "map_of (omap_of_entries m) k = map_of m k" for k
    using omap_ok_distinct [OF assms] by (simp add: omap_of_entries_def map_of_foldl_omap_put)
qed (rule assms)

text \<open>
  The contract of an ordered map, as its clients use it. Client lemmas are proved once from it;
  the association lists above provide it.
\<close>

locale ordered_map =
  fixes empty :: "'m"
    and get :: "'m \<Rightarrow> 'k::linorder \<Rightarrow> 'v option"
    and put :: "'k \<Rightarrow> 'v \<Rightarrow> 'm \<Rightarrow> 'm"
    and del :: "'k \<Rightarrow> 'm \<Rightarrow> 'm"
    and keys :: "'m \<Rightarrow> 'k list"
    and ok :: "'m \<Rightarrow> bool"
  assumes get_empty: "get empty k = None"
    and get_put: "get (put k v m) k' = (if k' = k then Some v else get m k')"
    and get_del: "get (del k m) k' = (if k' = k then None else get m k')"
    and keys_get: "k \<in> set (keys m) \<longleftrightarrow> get m k \<noteq> None"
    and ok_empty: "ok empty"
    and ok_put: "ok m \<Longrightarrow> ok (put k v m)"
    and ok_del: "ok m \<Longrightarrow> ok (del k m)"
    and ok_keys: "ok m \<Longrightarrow> sorted_wrt (<) (keys m)"
    and ext: "ok m \<Longrightarrow> ok m' \<Longrightarrow> (\<And>k. get m k = get m' k) \<Longrightarrow> m = m'"
begin

lemma keys_strictly_sorted: "ok m \<Longrightarrow> distinct (keys m) \<and> sorted (keys m)"
  using ok_keys by (simp add: strict_sorted_iff)

lemma put_same: "ok m \<Longrightarrow> get m k = Some v \<Longrightarrow> put k v m = m"
  by (intro ext) (auto simp: get_put ok_put)

lemma put_twice: "ok m \<Longrightarrow> put k w (put k v m) = put k w m"
  by (intro ext) (auto simp: get_put ok_put)

lemma put_commute: "ok m \<Longrightarrow> k \<noteq> k' \<Longrightarrow> put k v (put k' v' m) = put k' v' (put k v m)"
  by (intro ext) (auto simp: get_put ok_put)

lemma del_put: "ok m \<Longrightarrow> get m k = None \<Longrightarrow> del k (put k v m) = m"
  by (intro ext) (auto simp: get_put get_del ok_put ok_del)

lemma keys_put: "ok m \<Longrightarrow> set (keys (put k v m)) = insert k (set (keys m))"
  by (auto simp: keys_get get_put split: if_splits)

end

interpretation om: ordered_map "[]" map_of omap_put omap_del "map fst" omap_ok
proof unfold_locales
  show "\<And>k m. (k \<in> set (map fst m)) = (map_of m k \<noteq> None)"
    by (simp add: map_of_eq_None_iff)
  show "\<And>m. omap_ok m \<Longrightarrow> sorted_wrt (<) (map fst m)"
    by (simp add: omap_ok_def)
qed (auto intro: omap_eqI)

section \<open>Ordered sets\<close>

fun oset_insert :: "'a::linorder \<Rightarrow> 'a list \<Rightarrow> 'a list" where
  "oset_insert x [] = [x]"
| "oset_insert x (y # ys) =
     (if y < x then y # oset_insert x ys else if y = x then y # ys else x # y # ys)"

definition oset_del :: "'a \<Rightarrow> 'a list \<Rightarrow> 'a list" where
  "oset_del x xs = filter (\<lambda>y. y \<noteq> x) xs"

lemma set_oset_insert [simp]: "set (oset_insert x xs) = insert x (set xs)"
  by (induction xs) auto

lemma set_oset_del [simp]: "set (oset_del x xs) = set xs - {x}"
  by (auto simp: oset_del_def)

lemma oset_insert_sorted [simp]: "sorted_wrt (<) xs \<Longrightarrow> sorted_wrt (<) (oset_insert x xs)"
  by (induction xs) auto

lemma oset_del_sorted [simp]: "sorted_wrt (<) xs \<Longrightarrow> sorted_wrt (<) (oset_del x xs)"
  by (simp add: oset_del_def sorted_wrt_filter)

lemma oset_insert_not_Nil [simp]: "oset_insert x xs \<noteq> []"
  by (cases xs) auto

section \<open>Sorting with a comparison function\<close>

fun sort_insert :: "('a \<Rightarrow> 'a \<Rightarrow> bool) \<Rightarrow> 'a \<Rightarrow> 'a list \<Rightarrow> 'a list" where
  "sort_insert lt x [] = [x]"
| "sort_insert lt x (y # ys) = (if lt y x then y # sort_insert lt x ys else x # y # ys)"

definition std_sort :: "('a \<Rightarrow> 'a \<Rightarrow> bool) \<Rightarrow> 'a list \<Rightarrow> 'a list" where
  "std_sort lt xs = foldr (sort_insert lt) xs []"

lemma std_sort_Nil [simp]: "std_sort lt [] = []"
  by (simp add: std_sort_def)

lemma std_sort_Cons [simp]: "std_sort lt (x # xs) = sort_insert lt x (std_sort lt xs)"
  by (simp add: std_sort_def)

lemma set_sort_insert [simp]: "set (sort_insert lt x xs) = insert x (set xs)"
  by (induction xs) auto

lemma set_std_sort [simp]: "set (std_sort lt xs) = set xs"
  by (induction xs) auto

lemma sort_insert_not_Nil [simp]: "sort_insert lt x xs \<noteq> []"
  by (cases xs) auto

lemma length_sort_insert [simp]: "length (sort_insert lt x xs) = Suc (length xs)"
  by (induction xs) auto

lemma length_std_sort [simp]: "length (std_sort lt xs) = length xs"
  by (induction xs) auto

lemma distinct_sort_insert [simp]: "distinct (sort_insert lt x xs) = (x \<notin> set xs \<and> distinct xs)"
  by (induction xs) auto

lemma distinct_std_sort [simp]: "distinct (std_sort lt xs) = distinct xs"
  by (induction xs) auto

text \<open>
  What \<open>std::sort\<close> asks of its comparison: a strict weak order on the elements to be sorted.
  The carrier is explicit, because a comparison of floating point scores is one only in the
  absence of NaN.
\<close>

locale comparison =
  fixes lt :: "'a \<Rightarrow> 'a \<Rightarrow> bool" and carrier :: "'a \<Rightarrow> bool"
  assumes irrefl: "carrier a \<Longrightarrow> \<not> lt a a"
    and trans: "carrier a \<Longrightarrow> carrier b \<Longrightarrow> carrier c \<Longrightarrow> lt a b \<Longrightarrow> lt b c \<Longrightarrow> lt a c"
    and weak: "carrier a \<Longrightarrow> carrier b \<Longrightarrow> carrier c \<Longrightarrow> lt a c \<Longrightarrow> lt a b \<or> lt b c"
begin

lemma asym: "carrier a \<Longrightarrow> carrier b \<Longrightarrow> lt a b \<Longrightarrow> \<not> lt b a"
  using irrefl trans by blast

lemma sort_insert_sorted:
  "carrier x \<Longrightarrow> (\<And>y. y \<in> set ys \<Longrightarrow> carrier y) \<Longrightarrow>
   sorted_wrt (\<lambda>a b. \<not> lt b a) ys \<Longrightarrow> sorted_wrt (\<lambda>a b. \<not> lt b a) (sort_insert lt x ys)"
proof (induction ys)
  case Nil
  then show ?case by simp
next
  case (Cons y ys)
  have "\<not> lt y x \<Longrightarrow> z \<in> set ys \<Longrightarrow> \<not> lt z x" for z
    using Cons.prems weak [of z y x] by auto
  moreover have "lt y x \<Longrightarrow> \<not> lt x y"
    using Cons.prems asym by auto
  ultimately show ?case using Cons by auto
qed

lemma std_sort_sorted:
  "(\<And>y. y \<in> set ys \<Longrightarrow> carrier y) \<Longrightarrow> sorted_wrt (\<lambda>a b. \<not> lt b a) (std_sort lt ys)"
  by (induction ys) (auto intro!: sort_insert_sorted)

lemma std_sort_first_least:
  assumes "\<And>y. y \<in> set ys \<Longrightarrow> carrier y" and "z \<in> set ys"
  shows "hd (std_sort lt ys) \<in> set ys \<and> \<not> lt z (hd (std_sort lt ys))"
proof -
  obtain a as where eq: "std_sort lt ys = a # as"
    using assms(2) by (cases "std_sort lt ys") (metis set_std_sort empty_iff list.set(1), simp)
  have "sorted_wrt (\<lambda>a b. \<not> lt b a) (a # as)"
    using std_sort_sorted assms(1) eq by metis
  moreover have "set ys = set (a # as)" by (metis eq set_std_sort)
  ultimately show ?thesis using assms eq irrefl by auto
qed

end

section \<open>Decimal rendering\<close>

fun nat_to_string :: "nat \<Rightarrow> string" where
  "nat_to_string n =
     (if n < 10 then [char_of (48 + n)]
      else nat_to_string (n div 10) @ [char_of (48 + n mod 10)])"

declare nat_to_string.simps [simp del]

definition int_to_string :: "int \<Rightarrow> string" where
  "int_to_string i = (if i < 0 then CHR ''-'' # nat_to_string (nat (- i)) else nat_to_string (nat i))"

definition u64_to_string :: "'a::len word \<Rightarrow> string" where
  "u64_to_string w = nat_to_string (unat w)"

text \<open>Reading the digits back, used to show that two numbers never print alike.\<close>

definition digits_value :: "string \<Rightarrow> nat" where
  "digits_value s = foldl (\<lambda>a c. 10 * a + (of_char c - 48)) 0 s"

lemma digits_value_nat_to_string: "digits_value (nat_to_string n) = n"
proof (induction n rule: nat_to_string.induct)
  case (1 n)
  have "n < 10 \<Longrightarrow> of_char (char_of (48 + n) :: char) = (48 + n :: nat)"
    by (simp add: of_char_of)
  moreover have "of_char (char_of (48 + n mod 10) :: char) = (48 + n mod 10 :: nat)"
    by (simp add: of_char_of)
  ultimately show ?case
    using 1 by (simp add: digits_value_def nat_to_string.simps [of n])
qed

lemma nat_to_string_inject: "nat_to_string m = nat_to_string n \<longleftrightarrow> m = n"
  by (metis digits_value_nat_to_string)

section \<open>Runs of a state machine\<close>

text \<open>
  A component driven by a sequence of commands: an invariant kept by each step is kept by every
  run.
\<close>

locale command_machine =
  fixes step :: "'c \<Rightarrow> 's \<Rightarrow> 's" and inv :: "'s \<Rightarrow> bool"
  assumes step_inv: "inv s \<Longrightarrow> inv (step c s)"
begin

lemma run_inv: "inv s \<Longrightarrow> inv (fold step cs s)"
  by (induction cs arbitrary: s) (auto intro: step_inv)

end

end
