(* ===== verification/Status.thy ===== *)
theory Status
  imports Prelude
begin

text \<open>
  Error codes and results (\<open>core/status.h\<close>, \<open>core/status.cpp\<close>). \<open>Result<T>\<close> is the sum
  \<open>Error + 'a\<close>: \<open>Inl\<close> carries the error, \<open>Inr\<close> the value; \<open>Result<void>\<close> is \<open>Error + unit\<close>.
\<close>

datatype ErrorCode =
    E_Ok
  | E_InvalidArgument
  | E_OutOfBounds
  | E_MalformedFrame
  | E_ProtocolVersionMismatch
  | E_Timeout
  | E_NetworkError
  | E_ConnectionClosed
  | E_NotConnected
  | E_IllegalTransition
  | E_TaskNotFound
  | E_WorkloadNotFound
  | E_DependencyCycle
  | E_SelfDependency
  | E_MissingDependency
  | E_DependencyFailed
  | E_DependencyCancelled
  | E_NodeNotFound
  | E_NodeOffline
  | E_NodeDraining
  | E_StaleSession
  | E_StaleEpoch
  | E_StaleAttempt
  | E_NoCapacity
  | E_ReservationConflict
  | E_ReservationNotFound
  | E_ExecutorUnavailable
  | E_CapabilityMismatch
  | E_NoSchedulableNode
  | E_PersistenceError
  | E_CorruptionDetected
  | E_IoError
  | E_CudaError
  | E_Unsupported
  | E_Internal
  | E_Cancelled
  | E_DeadlineExceeded
  | E_AlreadyExists
  | E_InvalidState
  | E_DuplicateRequest
  | E_ShuttingDown
  | E_LaunchError
  | E_ProcessError
  | E_IdempotentReplay

fun error_code_value :: "ErrorCode \<Rightarrow> u32" where
  "error_code_value E_Ok = 0"
| "error_code_value E_InvalidArgument = 1"
| "error_code_value E_OutOfBounds = 2"
| "error_code_value E_MalformedFrame = 3"
| "error_code_value E_ProtocolVersionMismatch = 4"
| "error_code_value E_Timeout = 5"
| "error_code_value E_NetworkError = 6"
| "error_code_value E_ConnectionClosed = 7"
| "error_code_value E_NotConnected = 8"
| "error_code_value E_IllegalTransition = 9"
| "error_code_value E_TaskNotFound = 10"
| "error_code_value E_WorkloadNotFound = 11"
| "error_code_value E_DependencyCycle = 12"
| "error_code_value E_SelfDependency = 13"
| "error_code_value E_MissingDependency = 14"
| "error_code_value E_DependencyFailed = 15"
| "error_code_value E_DependencyCancelled = 16"
| "error_code_value E_NodeNotFound = 17"
| "error_code_value E_NodeOffline = 18"
| "error_code_value E_NodeDraining = 19"
| "error_code_value E_StaleSession = 20"
| "error_code_value E_StaleEpoch = 21"
| "error_code_value E_StaleAttempt = 22"
| "error_code_value E_NoCapacity = 23"
| "error_code_value E_ReservationConflict = 24"
| "error_code_value E_ReservationNotFound = 25"
| "error_code_value E_ExecutorUnavailable = 26"
| "error_code_value E_CapabilityMismatch = 27"
| "error_code_value E_NoSchedulableNode = 28"
| "error_code_value E_PersistenceError = 29"
| "error_code_value E_CorruptionDetected = 30"
| "error_code_value E_IoError = 31"
| "error_code_value E_CudaError = 32"
| "error_code_value E_Unsupported = 33"
| "error_code_value E_Internal = 34"
| "error_code_value E_Cancelled = 35"
| "error_code_value E_DeadlineExceeded = 36"
| "error_code_value E_AlreadyExists = 37"
| "error_code_value E_InvalidState = 38"
| "error_code_value E_DuplicateRequest = 39"
| "error_code_value E_ShuttingDown = 40"
| "error_code_value E_LaunchError = 41"
| "error_code_value E_ProcessError = 42"
| "error_code_value E_IdempotentReplay = 43"

fun error_code_name :: "ErrorCode \<Rightarrow> string" where
  "error_code_name E_Ok = ''ok''"
| "error_code_name E_InvalidArgument = ''invalid_argument''"
| "error_code_name E_OutOfBounds = ''out_of_bounds''"
| "error_code_name E_MalformedFrame = ''malformed_frame''"
| "error_code_name E_ProtocolVersionMismatch = ''protocol_version_mismatch''"
| "error_code_name E_Timeout = ''timeout''"
| "error_code_name E_NetworkError = ''network_error''"
| "error_code_name E_ConnectionClosed = ''connection_closed''"
| "error_code_name E_NotConnected = ''not_connected''"
| "error_code_name E_IllegalTransition = ''illegal_transition''"
| "error_code_name E_TaskNotFound = ''task_not_found''"
| "error_code_name E_WorkloadNotFound = ''workload_not_found''"
| "error_code_name E_DependencyCycle = ''dep_cycle''"
| "error_code_name E_SelfDependency = ''self_dependency''"
| "error_code_name E_MissingDependency = ''missing_dependency''"
| "error_code_name E_DependencyFailed = ''dependency_failed''"
| "error_code_name E_DependencyCancelled = ''dependency_cancelled''"
| "error_code_name E_NodeNotFound = ''node_not_found''"
| "error_code_name E_NodeOffline = ''node_offline''"
| "error_code_name E_NodeDraining = ''node_draining''"
| "error_code_name E_StaleSession = ''stale_session''"
| "error_code_name E_StaleEpoch = ''stale_epoch''"
| "error_code_name E_StaleAttempt = ''stale_attempt''"
| "error_code_name E_NoCapacity = ''no_capacity''"
| "error_code_name E_ReservationConflict = ''reservation_conflict''"
| "error_code_name E_ReservationNotFound = ''reservation_not_found''"
| "error_code_name E_ExecutorUnavailable = ''executor_unavailable''"
| "error_code_name E_CapabilityMismatch = ''capability_mismatch''"
| "error_code_name E_NoSchedulableNode = ''no_schedulable_node''"
| "error_code_name E_PersistenceError = ''persistence_error''"
| "error_code_name E_CorruptionDetected = ''corruption_detected''"
| "error_code_name E_IoError = ''io_error''"
| "error_code_name E_CudaError = ''cuda_error''"
| "error_code_name E_Unsupported = ''unsupported''"
| "error_code_name E_Internal = ''internal''"
| "error_code_name E_Cancelled = ''cancelled''"
| "error_code_name E_DeadlineExceeded = ''deadline_exceeded''"
| "error_code_name E_AlreadyExists = ''already_exists''"
| "error_code_name E_InvalidState = ''invalid_state''"
| "error_code_name E_DuplicateRequest = ''duplicate_request''"
| "error_code_name E_ShuttingDown = ''shutting_down''"
| "error_code_name E_LaunchError = ''launch_error''"
| "error_code_name E_ProcessError = ''process_error''"
| "error_code_name E_IdempotentReplay = ''idempotent_replay''"

fun error_code_message :: "ErrorCode \<Rightarrow> string" where
  "error_code_message E_Ok = ''no error''"
| "error_code_message E_InvalidArgument = ''invalid argument''"
| "error_code_message E_OutOfBounds = ''value out of bounds''"
| "error_code_message E_MalformedFrame = ''malformed network frame''"
| "error_code_message E_ProtocolVersionMismatch = ''protocol version mismatch''"
| "error_code_message E_Timeout = ''operation timed out''"
| "error_code_message E_NetworkError = ''network error''"
| "error_code_message E_ConnectionClosed = ''connection closed''"
| "error_code_message E_NotConnected = ''not connected''"
| "error_code_message E_IllegalTransition = ''illegal lifecycle transition''"
| "error_code_message E_TaskNotFound = ''task not found''"
| "error_code_message E_WorkloadNotFound = ''workload not found''"
| "error_code_message E_DependencyCycle = ''dependency cycle detected''"
| "error_code_message E_SelfDependency = ''task depends on itself''"
| "error_code_message E_MissingDependency = ''missing dependency''"
| "error_code_message E_DependencyFailed = ''dependency failed''"
| "error_code_message E_DependencyCancelled = ''dependency cancelled''"
| "error_code_message E_NodeNotFound = ''node not found''"
| "error_code_message E_NodeOffline = ''node is offline''"
| "error_code_message E_NodeDraining = ''node is draining''"
| "error_code_message E_StaleSession = ''stale node session''"
| "error_code_message E_StaleEpoch = ''stale coordinator epoch''"
| "error_code_message E_StaleAttempt = ''stale attempt token''"
| "error_code_message E_NoCapacity = ''no capacity available''"
| "error_code_message E_ReservationConflict = ''reservation conflict''"
| "error_code_message E_ReservationNotFound = ''reservation not found''"
| "error_code_message E_ExecutorUnavailable = ''executor unavailable''"
| "error_code_message E_CapabilityMismatch = ''capability mismatch''"
| "error_code_message E_NoSchedulableNode = ''no schedulable node''"
| "error_code_message E_PersistenceError = ''persistence error''"
| "error_code_message E_CorruptionDetected = ''state corruption detected''"
| "error_code_message E_IoError = ''io error''"
| "error_code_message E_CudaError = ''cuda error''"
| "error_code_message E_Unsupported = ''unsupported operation''"
| "error_code_message E_Internal = ''internal error''"
| "error_code_message E_Cancelled = ''operation cancelled''"
| "error_code_message E_DeadlineExceeded = ''deadline exceeded''"
| "error_code_message E_AlreadyExists = ''already exists''"
| "error_code_message E_InvalidState = ''invalid state''"
| "error_code_message E_DuplicateRequest = ''duplicate request''"
| "error_code_message E_ShuttingDown = ''runtime is shutting down''"
| "error_code_message E_LaunchError = ''process launch error''"
| "error_code_message E_ProcessError = ''child process error''"
| "error_code_message E_IdempotentReplay = ''idempotent replay of request''"

record Error =
  err_code :: ErrorCode
  err_message :: string

type_synonym 'a result = "Error + 'a"

definition make_error :: "ErrorCode \<Rightarrow> string \<Rightarrow> Error" where
  "make_error c m = \<lparr>err_code = c, err_message = m\<rparr>"

definition error_success :: Error where
  "error_success = \<lparr>err_code = E_Ok, err_message = []\<rparr>"

definition error_ok :: "Error \<Rightarrow> bool" where
  "error_ok e = (err_code e = E_Ok)"

definition error_to_string :: "Error \<Rightarrow> string" where
  "error_to_string e = error_code_name (err_code e) @ '': '' @ err_message e"

definition fail_with :: "ErrorCode \<Rightarrow> string \<Rightarrow> 'a result" where
  "fail_with c m = Inl (make_error c m)"

fun result_ok :: "'a result \<Rightarrow> bool" where
  "result_ok (Inl _) = False"
| "result_ok (Inr _) = True"

lemma make_error_simps [simp]:
  "err_code (make_error c m) = c" "err_message (make_error c m) = m"
  "make_error c m = make_error c' m' \<longleftrightarrow> c = c' \<and> m = m'"
  by (simp_all add: make_error_def)

lemma fail_with_simps [simp]:
  "fail_with c m \<noteq> Inr v" "Inr v \<noteq> fail_with c m" "\<not> result_ok (fail_with c m)"
  "fail_with c m = Inl e \<longleftrightarrow> e = make_error c m"
  "Inl e = fail_with c m \<longleftrightarrow> e = make_error c m"
  "fail_with c m = fail_with c' m' \<longleftrightarrow> c = c' \<and> m = m'"
  by (auto simp: fail_with_def)

lemma result_ok_iff: "result_ok r \<longleftrightarrow> (\<exists>v. r = Inr v)"
  by (cases r) auto

text \<open>
  The numeric values of the error codes are a numbering: they are read back by
  \<open>error_code_of\<close>, so distinct codes never share a value.
\<close>

definition all_error_codes :: "ErrorCode list" where
  "all_error_codes = [E_Ok, E_InvalidArgument, E_OutOfBounds, E_MalformedFrame, E_ProtocolVersionMismatch, E_Timeout, E_NetworkError, E_ConnectionClosed, E_NotConnected, E_IllegalTransition, E_TaskNotFound, E_WorkloadNotFound, E_DependencyCycle, E_SelfDependency, E_MissingDependency, E_DependencyFailed, E_DependencyCancelled, E_NodeNotFound, E_NodeOffline, E_NodeDraining, E_StaleSession, E_StaleEpoch, E_StaleAttempt, E_NoCapacity, E_ReservationConflict, E_ReservationNotFound, E_ExecutorUnavailable, E_CapabilityMismatch, E_NoSchedulableNode, E_PersistenceError, E_CorruptionDetected, E_IoError, E_CudaError, E_Unsupported, E_Internal, E_Cancelled, E_DeadlineExceeded, E_AlreadyExists, E_InvalidState, E_DuplicateRequest, E_ShuttingDown, E_LaunchError, E_ProcessError, E_IdempotentReplay]"

lemma all_error_codes_complete: "c \<in> set all_error_codes"
  by (cases c) (simp_all add: all_error_codes_def)

lemma error_codes_numbered: "map error_code_value all_error_codes = map of_nat [0..<44]"
  by (simp add: all_error_codes_def upt_rec)

lemma error_code_names_distinct: "distinct (map error_code_name all_error_codes)"
  by (simp add: all_error_codes_def)

lemma error_code_name_inject: "error_code_name a = error_code_name b \<longleftrightarrow> a = b"
  using error_code_names_distinct all_error_codes_complete [of a] all_error_codes_complete [of b]
  by (metis distinct_map inj_on_eq_iff)

end
