(* ===== verification/Identifiers.thy ===== *)
theory Identifiers
  imports Status
begin

text \<open>
  128-bit identifiers (\<open>core/identifiers.h\<close>, \<open>core/identifiers.cpp\<close>) and the deterministic
  generator behind their fallback (\<open>core/random.h\<close>): order, hexadecimal and byte forms, and
  generation. The operating system's entropy call is an argument of \<open>id_random\<close>.
\<close>

datatype Id128 = Id128 (id_hi: u64) (id_lo: u64)

instantiation Id128 :: linorder
begin

definition less_Id128 :: "Id128 \<Rightarrow> Id128 \<Rightarrow> bool" where
  "less_Id128 a b = (if id_hi a \<noteq> id_hi b then id_hi a < id_hi b else id_lo a < id_lo b)"

definition less_eq_Id128 :: "Id128 \<Rightarrow> Id128 \<Rightarrow> bool" where
  "less_eq_Id128 a b = (a = b \<or> a < b)"

instance
proof
  fix x y z :: Id128
  show "x < y \<longleftrightarrow> x \<le> y \<and> \<not> y \<le> x"
    by (auto simp: less_Id128_def less_eq_Id128_def split: if_splits)
  show "x \<le> x" by (simp add: less_eq_Id128_def)
  show "x \<le> y \<Longrightarrow> y \<le> z \<Longrightarrow> x \<le> z"
    by (auto simp: less_Id128_def less_eq_Id128_def split: if_splits)
  show "x \<le> y \<Longrightarrow> y \<le> x \<Longrightarrow> x = y"
    by (auto simp: less_Id128_def less_eq_Id128_def split: if_splits)
  show "x \<le> y \<or> y \<le> x"
    by (cases x; cases y) (auto simp: less_Id128_def less_eq_Id128_def)
qed

end

type_synonym WorkloadId = Id128
type_synonym ComputeTaskId = Id128
type_synonym ExecutionAttemptId = Id128
type_synonym ReservationId = Id128
type_synonym NodeId = Id128
type_synonym NodeSessionId = Id128
type_synonym CoordinatorEpoch = u64
type_synonym SessionEpoch = u64

definition id_zero :: Id128 where
  "id_zero = Id128 0 0"

definition id_is_zero :: "Id128 \<Rightarrow> bool" where
  "id_is_zero i = (id_hi i = 0 \<and> id_lo i = 0)"

lemma id_is_zero_iff: "id_is_zero i \<longleftrightarrow> i = id_zero"
  by (cases i) (simp add: id_is_zero_def id_zero_def)

section \<open>Bytes\<close>

definition id_to_bytes :: "Id128 \<Rightarrow> byte list" where
  "id_to_bytes d =
     map (\<lambda>i. ucast (drop_bit (56 - i * 8) (id_hi d) AND 0xFF)) [0..<8] @
     map (\<lambda>i. ucast (drop_bit (56 - i * 8) (id_lo d) AND 0xFF)) [0..<8]"

definition be_fold :: "byte list \<Rightarrow> 'a::len word" where
  "be_fold bs = foldl (\<lambda>v b. push_bit 8 v OR ucast b) 0 bs"

definition id_from_bytes :: "byte list \<Rightarrow> Id128" where
  "id_from_bytes bs = Id128 (be_fold (take 8 bs)) (be_fold (take 8 (drop 8 bs)))"

text \<open>The big-endian bytes of a word, least significant last.\<close>

primrec be_bytes :: "nat \<Rightarrow> 'a::len word \<Rightarrow> byte list" where
  "be_bytes 0 v = []"
| "be_bytes (Suc n) v = be_bytes n (drop_bit 8 v) @ [ucast v]"

lemma length_be_bytes [simp]: "length (be_bytes n v) = n"
  by (induction n arbitrary: v) auto

lemma be_fold_snoc: "be_fold (bs @ [b]) = push_bit 8 (be_fold bs) OR ucast b"
  by (simp add: be_fold_def)

lemma be_fold_bytes: "be_fold (be_bytes n v) = take_bit (8 * n) v"
proof (induction n arbitrary: v)
  case 0
  then show ?case by (simp add: be_fold_def)
next
  case (Suc n)
  have "push_bit 8 (take_bit (8 * n) (drop_bit 8 v)) OR ucast (ucast v :: byte) = take_bit (8 + 8 * n) v"
    by (rule bit_word_eqI) (auto simp: bit_simps not_le)
  then show ?case by (simp add: be_fold_snoc Suc)
qed

lemma ucast_and_mask8 [simp]: "(ucast (w AND 0xFF) :: byte) = ucast (w :: 'a::len word)"
proof -
  have m: "(0xFF :: 'a word) = mask 8" by (simp add: mask_eq_exp_minus_1)
  show ?thesis unfolding m by (rule bit_word_eqI) (auto simp: bit_simps dest: bit_imp_le_length)
qed

lemma be_bytes_eq_map:
  "be_bytes n v = map (\<lambda>i. ucast (drop_bit (8 * (n - 1 - i)) v)) [0..<n]"
proof (induction n arbitrary: v)
  case 0
  then show ?case by simp
next
  case (Suc n)
  have "i < n \<Longrightarrow> 8 * (n - Suc i) + 8 = 8 * (n - i)" for i by simp
  then show ?case by (simp add: Suc drop_bit_drop_bit)
qed

lemma id_to_bytes_alt: "id_to_bytes d = be_bytes 8 (id_hi d) @ be_bytes 8 (id_lo d)"
  by (simp add: id_to_bytes_def be_bytes_eq_map upt_rec)

lemma length_id_to_bytes [simp]: "length (id_to_bytes d) = 16"
  by (simp add: id_to_bytes_def)

lemma id_from_to_bytes [simp]: "id_from_bytes (id_to_bytes d) = d"
  by (cases d) (simp add: id_from_bytes_def id_to_bytes_alt be_fold_bytes take_bit_word_eq_self)

section \<open>Hexadecimal\<close>

definition hex_digit :: "nat \<Rightarrow> char" where
  "hex_digit n = (if n < 10 then char_of (48 + n) else char_of (87 + n))"

text \<open>The conversion \<open>%016llx\<close>.\<close>

definition hex16 :: "u64 \<Rightarrow> string" where
  "hex16 w = map (\<lambda>i. hex_digit (unat (drop_bit (60 - 4 * i) w AND 15))) [0..<16]"

definition id_to_hex :: "Id128 \<Rightarrow> string" where
  "id_to_hex d = hex16 (id_hi d) @ hex16 (id_lo d)"

definition nib :: "char \<Rightarrow> int" where
  "nib c = (let n = of_char c :: nat in
     if 48 \<le> n \<and> n \<le> 57 then int n - 48
     else if 97 \<le> n \<and> n \<le> 102 then int n - 97 + 10
     else if 65 \<le> n \<and> n \<le> 70 then int n - 65 + 10
     else -1)"

fun id_from_hex_loop :: "string \<Rightarrow> nat list \<Rightarrow> u64 \<Rightarrow> u64 \<Rightarrow> Id128 result" where
  "id_from_hex_loop hex [] hi lo = Inr (Id128 hi lo)"
| "id_from_hex_loop hex (i # is) hi lo =
     (let a = nib (hex ! i); b = nib (hex ! (i + 16)) in
      if a < 0 \<or> b < 0 then fail_with E_InvalidArgument ''invalid hex character in id''
      else id_from_hex_loop hex is (push_bit 4 hi OR word_of_int a) (push_bit 4 lo OR word_of_int b))"

definition id_from_hex :: "string \<Rightarrow> Id128 result" where
  "id_from_hex hex =
     (if length hex \<noteq> 32 then fail_with E_InvalidArgument ''id must be 32 hex characters''
      else id_from_hex_loop hex [0..<16] 0 0)"

lemma length_hex16 [simp]: "length (hex16 w) = 16"
  by (simp add: hex16_def)

lemma nib_hex_digit: "n < 16 \<Longrightarrow> nib (hex_digit n) = int n"
  by (auto simp: nib_def hex_digit_def of_char_of Let_def)

text \<open>The value of the first \<open>n\<close> nibbles of a word, most significant first.\<close>

lemma nibble_step:
  assumes "i < 16"
  shows "push_bit 4 (drop_bit (64 - 4 * i) (w :: u64)) OR (drop_bit (60 - 4 * i) w AND 15)
         = drop_bit (60 - 4 * i) w"
proof -
  have m: "(15 :: u64) = mask 4" by (simp add: mask_eq_exp_minus_1)
  show ?thesis unfolding m
  proof (rule bit_word_eqI)
    fix n assume "n < LENGTH(64)"
    have "4 \<le> n \<Longrightarrow> 64 - 4 * i + (n - 4) = 60 - 4 * i + n" using assms by arith
    then show "bit (push_bit 4 (drop_bit (64 - 4 * i) w) OR drop_bit (60 - 4 * i) w AND mask 4) n
      \<longleftrightarrow> bit (drop_bit (60 - 4 * i) w) n"
      using \<open>n < LENGTH(64)\<close> by (cases "n < 4") (auto simp: bit_simps not_less)
  qed
qed

lemma id_from_hex_loop_to_hex:
  assumes "i + n = 16"
  shows "id_from_hex_loop (hex16 h @ hex16 l) [i..<16]
           (drop_bit (64 - 4 * i) h) (drop_bit (64 - 4 * i) l) = Inr (Id128 h l)"
  using assms
proof (induction n arbitrary: i)
  case 0
  then show ?case by simp
next
  case (Suc n)
  have i: "i < 16" using Suc.prems by simp
  have val: "unat (drop_bit (60 - 4 * i) w AND 15) < 16" for w :: u64
    using word_and_le1 [of "drop_bit (60 - 4 * i) w" 15] by (simp add: word_le_nat_alt)
  have digit: "nib ((hex16 h @ hex16 l) ! i) = int (unat (drop_bit (60 - 4 * i) h AND 15))"
    "nib ((hex16 h @ hex16 l) ! (i + 16)) = int (unat (drop_bit (60 - 4 * i) l AND 15))"
    using i val by (simp_all add: nth_append hex16_def nib_hex_digit)
  have "[i..<16] = i # [Suc i..<16]" using i by (simp add: upt_conv_Cons)
  moreover have "64 - 4 * Suc i = 60 - 4 * i" by simp
  ultimately show ?case
    using Suc.IH [of "Suc i"] Suc.prems digit
    by (simp add: Let_def nibble_step [OF i])
qed

lemma id_from_to_hex: "id_from_hex (id_to_hex d) = Inr d"
proof (cases d)
  case (Id128 h l)
  have "drop_bit 64 w = 0" for w :: u64 by (rule bit_word_eqI) (simp add: bit_simps)
  then show ?thesis
    using id_from_hex_loop_to_hex [of 0 16 h l] Id128 by (simp add: id_from_hex_def id_to_hex_def)
qed

section \<open>Generation\<close>

text \<open>SplitMix64: the state of \<open>SeededRng\<close> is one word; drawing returns the value and the new state.\<close>

definition rng_next_u64 :: "u64 \<Rightarrow> u64 \<times> u64" where
  "rng_next_u64 st =
     (let st' = st + 0x9E3779B97F4A7C15;
          z = (st' XOR drop_bit 30 st') * 0xBF58476D1CE4E5B9;
          z = (z XOR drop_bit 27 z) * 0x94D049BB133111EB
      in (z XOR drop_bit 31 z, st'))"

definition rng_next_u64_bounded :: "u64 \<Rightarrow> u64 \<Rightarrow> u64 \<times> u64" where
  "rng_next_u64_bounded bound st =
     (if bound = 0 then (0, st) else case rng_next_u64 st of (v, st') \<Rightarrow> (v mod bound, st'))"

definition rng_next_u32 :: "u64 \<Rightarrow> u32 \<times> u64" where
  "rng_next_u32 st = (case rng_next_u64 st of (v, st') \<Rightarrow> (ucast v, st'))"

definition rng_next_bool :: "u64 \<Rightarrow> bool \<times> u64" where
  "rng_next_bool st = (case rng_next_u64 st of (v, st') \<Rightarrow> (v AND 1 \<noteq> 0, st'))"

text \<open>
  The inputs of \<open>fallback_random\<close>: two clock readings, the process id, the hash of the thread id
  and the address of the sequence counter, each as the 64-bit value the code computes; \<open>seq\<close> is
  the counter before \<open>fetch_add\<close>.
\<close>

record entropy =
  ent_wall :: u64
  ent_steady :: u64
  ent_pid :: u64
  ent_thread :: u64
  ent_address :: u64

definition fallback_random :: "entropy \<Rightarrow> u64 \<Rightarrow> Id128 \<times> u64" where
  "fallback_random e seq =
     (let serial = seq + 1;
          seed = ent_wall e XOR push_bit 1 (ent_steady e) XOR push_bit 32 (ent_pid e)
                 XOR push_bit 7 (ent_thread e) XOR ent_address e XOR serial;
          (h, st) = rng_next_u64 seed;
          (l, st') = rng_next_u64 st;
          i = Id128 h l
      in (if id_is_zero i then Id128 (ent_pid e) serial else i, seq + 1))"

definition id_random :: "(u64 \<times> u64) option \<Rightarrow> entropy \<Rightarrow> u64 \<Rightarrow> Id128 \<times> u64" where
  "id_random words e seq =
     (case words of
        Some (h, l) \<Rightarrow> if \<not> id_is_zero (Id128 h l) then (Id128 h l, seq) else fallback_random e seq
      | None \<Rightarrow> fallback_random e seq)"

lemma fallback_random_nonzero:
  "seq + 1 \<noteq> 0 \<or> ent_pid e \<noteq> 0 \<Longrightarrow> \<not> id_is_zero (fst (fallback_random e seq))"
  by (auto simp: fallback_random_def Let_def id_is_zero_def split: prod.splits)

lemma rng_next_u64_bounded_less: "bound \<noteq> 0 \<Longrightarrow> fst (rng_next_u64_bounded bound st) < bound"
  by (auto simp: rng_next_u64_bounded_def word_gt_0 split: prod.splits
      intro: word_mod_less_divisor)

section \<open>Properties\<close>

text \<open>
  An identifier survives both of its textual and binary forms: \<open>from_hex\<close> accepts what
  \<open>to_hex\<close> prints, 32 characters long, and gives the same identifier back, and so do
  \<open>to_bytes\<close> and \<open>from_bytes\<close>.
\<close>

theorem id_forms_roundtrip:
  "id_from_hex (id_to_hex d) = Inr d \<and> length (id_to_hex d) = 32 \<and> id_from_bytes (id_to_bytes d) = d"
  by (simp add: id_from_to_hex) (simp add: id_to_hex_def)

text \<open>
  C40: \<open>Id128::random\<close> never returns the zero identifier, whatever the operating system answers,
  as long as the process id is not zero or the fallback counter has not wrapped around.
\<close>

theorem id_random_nonzero:
  assumes "seq + 1 \<noteq> 0 \<or> ent_pid e \<noteq> 0"
  shows "\<not> id_is_zero (fst (id_random words e seq))"
  using fallback_random_nonzero [OF assms] by (auto simp: id_random_def split: option.splits prod.splits)

theorem id_random_nonzero_witness:
  "\<not> id_is_zero (fst (id_random (Some (0, 0))
      \<lparr>ent_wall = 0, ent_steady = 0, ent_pid = 0, ent_thread = 0, ent_address = 0\<rparr> 7))"
  by (rule id_random_nonzero) simp

end
