(* ===== verification/Float64.thy ===== *)
theory Float64
  imports Prelude
begin

text \<open>
  The type \<open>double\<close>: IEEE 754 binary64 held as its 64 bits, with the operations the scheduler and
  the codecs use. A finite value is an integer multiple of \<open>2 ^ -1074\<close>, so every operation is the
  exact integer or rational result rounded to nearest, ties to even (the default rounding mode).
  An operation that yields a NaN yields the default quiet NaN.
\<close>

section \<open>Representation\<close>

datatype double = Double (double_bits: u64)

definition f64_sign :: "double \<Rightarrow> bool" where
  "f64_sign d = (2 ^ 63 \<le> unat (double_bits d))"

definition f64_expo :: "double \<Rightarrow> nat" where
  "f64_expo d = unat (double_bits d) div 2 ^ 52 mod 2048"

definition f64_frac :: "double \<Rightarrow> nat" where
  "f64_frac d = unat (double_bits d) mod 2 ^ 52"

definition f64_is_nan :: "double \<Rightarrow> bool" where
  "f64_is_nan d = (f64_expo d = 2047 \<and> f64_frac d \<noteq> 0)"

definition f64_is_inf :: "double \<Rightarrow> bool" where
  "f64_is_inf d = (f64_expo d = 2047 \<and> f64_frac d = 0)"

text \<open>The magnitude in units of \<open>2 ^ -1074\<close>; an infinity reads as the first power of two out of range.\<close>

definition f64_mag :: "double \<Rightarrow> nat" where
  "f64_mag d = (if f64_expo d = 0 then f64_frac d else (2 ^ 52 + f64_frac d) * 2 ^ (f64_expo d - 1))"

definition f64_units :: "double \<Rightarrow> int" where
  "f64_units d = (if f64_sign d then - int (f64_mag d) else int (f64_mag d))"

fun bitlen :: "nat \<Rightarrow> nat" where
  "bitlen n = (if n = 0 then 0 else Suc (bitlen (n div 2)))"

declare bitlen.simps [simp del]

definition f64_shift :: "nat \<Rightarrow> nat" where
  "f64_shift m = bitlen m - 53"

definition f64_nan :: double where
  "f64_nan = Double 0x7FF8000000000000"

definition f64_inf :: "bool \<Rightarrow> double" where
  "f64_inf neg = (if neg then Double 0xFFF0000000000000 else Double 0x7FF0000000000000)"

text \<open>The first magnitude out of range, \<open>2 ^ 1024\<close>, and the value 1, in units.\<close>

definition f64_top :: nat where
  "f64_top = 2 ^ 2098"

definition f64_unity :: nat where
  "f64_unity = 2 ^ 1074"

definition f64_pack :: "bool \<Rightarrow> nat \<Rightarrow> double" where
  "f64_pack neg m =
     (if f64_top \<le> m then f64_inf neg
      else Double (of_nat ((if neg then 2 ^ 63 else 0) + f64_shift m * 2 ^ 52 + m div 2 ^ f64_shift m)))"

section \<open>Rounding\<close>

definition rne :: "nat \<Rightarrow> nat \<Rightarrow> nat" where
  "rne n g = (let q = n div g; r = n mod g in
     if g < 2 * r \<or> (2 * r = g \<and> odd q) then q + 1 else q)"

definition round_units :: "nat \<Rightarrow> nat \<Rightarrow> nat" where
  "round_units num den = (let e = f64_shift (num div den) in rne num (den * 2 ^ e) * 2 ^ e)"

definition f64_round :: "bool \<Rightarrow> nat \<Rightarrow> nat \<Rightarrow> double" where
  "f64_round neg num den = f64_pack neg (round_units num den)"

text \<open>A decimal literal or an integer converted to \<open>double\<close>: the nearest value to \<open>num / den\<close>.\<close>

definition f64_lit :: "nat \<Rightarrow> nat \<Rightarrow> double" where
  "f64_lit num den = f64_round False (num * f64_unity) den"

definition f64_of_nat :: "nat \<Rightarrow> double" where
  "f64_of_nat n = f64_lit n 1"

section \<open>Operations\<close>

definition f64_neg :: "double \<Rightarrow> double" where
  "f64_neg d = Double (double_bits d XOR 0x8000000000000000)"

definition f64_eq :: "double \<Rightarrow> double \<Rightarrow> bool" where
  "f64_eq a b = (\<not> f64_is_nan a \<and> \<not> f64_is_nan b \<and> f64_units a = f64_units b)"

instantiation double :: "{plus, minus, times, inverse, zero, one, ord}"
begin

definition zero_double :: double where
  "zero_double = Double 0"

definition one_double :: double where
  "one_double = Double 0x3FF0000000000000"

definition plus_double :: "double \<Rightarrow> double \<Rightarrow> double" where
  "plus_double a b =
     (if f64_is_nan a \<or> f64_is_nan b then f64_nan
      else if f64_is_inf a then
        (if f64_is_inf b \<and> f64_sign a \<noteq> f64_sign b then f64_nan else a)
      else if f64_is_inf b then b
      else let s = f64_units a + f64_units b in
        if s = 0 then f64_pack (f64_sign a \<and> f64_sign b) 0
        else f64_round (s < 0) (nat \<bar>s\<bar>) 1)"

definition minus_double :: "double \<Rightarrow> double \<Rightarrow> double" where
  "minus_double a b = (if f64_is_nan b then f64_nan else a + f64_neg b)"

definition times_double :: "double \<Rightarrow> double \<Rightarrow> double" where
  "times_double a b =
     (let neg = (f64_sign a \<noteq> f64_sign b) in
      if f64_is_nan a \<or> f64_is_nan b then f64_nan
      else if f64_is_inf a \<or> f64_is_inf b then
        (if f64_mag a = 0 \<or> f64_mag b = 0 then f64_nan else f64_inf neg)
      else f64_round neg (f64_mag a * f64_mag b) f64_unity)"

definition divide_double :: "double \<Rightarrow> double \<Rightarrow> double" where
  "divide_double a b =
     (let neg = (f64_sign a \<noteq> f64_sign b) in
      if f64_is_nan a \<or> f64_is_nan b then f64_nan
      else if f64_is_inf a then (if f64_is_inf b then f64_nan else f64_inf neg)
      else if f64_is_inf b then f64_pack neg 0
      else if f64_mag b = 0 then (if f64_mag a = 0 then f64_nan else f64_inf neg)
      else f64_round neg (f64_mag a * f64_unity) (f64_mag b))"

definition inverse_double :: "double \<Rightarrow> double" where
  "inverse_double a = 1 div a"

definition less_double :: "double \<Rightarrow> double \<Rightarrow> bool" where
  "less_double a b = (\<not> f64_is_nan a \<and> \<not> f64_is_nan b \<and> f64_units a < f64_units b)"

definition less_eq_double :: "double \<Rightarrow> double \<Rightarrow> bool" where
  "less_eq_double a b = (\<not> f64_is_nan a \<and> \<not> f64_is_nan b \<and> f64_units a \<le> f64_units b)"

instance ..

end

text \<open>\<open>std::min(a, b)\<close> returns \<open>b\<close> only when it is less; \<open>std::max(a, b)\<close> returns \<open>b\<close> only when it is greater.\<close>

definition f64_min :: "double \<Rightarrow> double \<Rightarrow> double" where
  "f64_min a b = (if b < a then b else a)"

definition f64_max :: "double \<Rightarrow> double \<Rightarrow> double" where
  "f64_max a b = (if a < b then b else a)"

section \<open>Lengths and the grid\<close>

lemma bitlen_0 [simp]: "bitlen 0 = 0"
  by (simp add: bitlen.simps)

lemma bitlen_less: "n < 2 ^ bitlen n"
proof (induction n rule: bitlen.induct)
  case (1 n)
  show ?case
  proof (cases "n = 0")
    case False
    then have "n div 2 < 2 ^ bitlen (n div 2)" using 1 by simp
    then show ?thesis using False by (subst bitlen.simps) simp
  qed simp
qed

lemma bitlen_ge: "0 < n \<Longrightarrow> 2 ^ (bitlen n - 1) \<le> n"
proof (induction n rule: bitlen.induct)
  case (1 n)
  show ?case
  proof (cases "n div 2 = 0")
    case True
    then have "n = 1" using 1 by simp
    then show ?thesis by (simp add: bitlen.simps)
  next
    case False
    then have ih: "2 ^ (bitlen (n div 2) - 1) \<le> n div 2" using 1 by simp
    have "0 < bitlen (n div 2)" using False by (subst bitlen.simps) simp
    then have "(2 :: nat) ^ bitlen (n div 2) = 2 * 2 ^ (bitlen (n div 2) - 1)"
      by (metis power_Suc Suc_pred' One_nat_def)
    then show ?thesis using 1 ih by (subst bitlen.simps) simp
  qed
qed

lemma bitlen_le_iff: "bitlen n \<le> k \<longleftrightarrow> n < 2 ^ k"
proof
  assume "bitlen n \<le> k"
  then show "n < 2 ^ k" using bitlen_less [of n] by (meson less_le_trans one_le_numeral power_increasing)
next
  assume less: "n < 2 ^ k"
  show "bitlen n \<le> k"
  proof (rule ccontr)
    assume "\<not> bitlen n \<le> k"
    then have "k \<le> bitlen n - 1" "0 < n" by (auto intro: ccontr)
    then have "(2 :: nat) ^ k \<le> n" using bitlen_ge [of n]
      by (meson le_trans one_le_numeral power_increasing)
    then show False using less by simp
  qed
qed

lemma bitlen_unique: "2 ^ k \<le> n \<Longrightarrow> n < 2 ^ Suc k \<Longrightarrow> bitlen n = Suc k"
  using bitlen_le_iff [of n k] bitlen_le_iff [of n "Suc k"] by (simp add: not_less le_antisym)

lemma f64_shift_bounds:
  "m < 2 ^ (53 + f64_shift m)" "0 < f64_shift m \<Longrightarrow> 2 ^ (52 + f64_shift m) \<le> m"
proof -
  show "m < 2 ^ (53 + f64_shift m)"
    unfolding bitlen_le_iff [symmetric] by (simp add: f64_shift_def)
  assume pos: "0 < f64_shift m"
  then have "52 + f64_shift m = bitlen m - 1" "0 < m"
    by (auto simp: f64_shift_def intro: ccontr)
  then show "2 ^ (52 + f64_shift m) \<le> m" using bitlen_ge [of m] by simp
qed

lemma f64_shift_mono: "m \<le> n \<Longrightarrow> f64_shift m \<le> f64_shift n"
  using bitlen_le_iff [of m "bitlen n"] bitlen_less [of n] by (auto simp: f64_shift_def)

section \<open>Rounding is monotone and exact on the grid\<close>

lemma rne_bounds: "n div g \<le> rne n g" "rne n g \<le> n div g + 1"
  by (auto simp: rne_def Let_def)

lemma rne_mono:
  assumes "m \<le> n"
  shows "rne m g \<le> rne n g"
proof -
  have "m div g \<le> n div g" using assms by (rule div_le_mono)
  then consider "m div g < n div g" | "m div g = n div g" by linarith
  then show ?thesis
  proof cases
    case 1
    then show ?thesis using rne_bounds [of m g] rne_bounds [of n g] by linarith
  next
    case 2
    then have "m mod g \<le> n mod g"
      using assms by (metis add_le_cancel_left mult_div_mod_eq)
    then show ?thesis using 2 by (auto simp: rne_def Let_def)
  qed
qed

lemma rne_exact: "0 < g \<Longrightarrow> rne (q * g) g = q"
  by (simp add: rne_def)

lemma rne_range:
  assumes "0 < den" and e: "e = f64_shift (num div den)"
  shows "rne num (den * 2 ^ e) \<le> 2 ^ 53" "0 < e \<Longrightarrow> 2 ^ 52 \<le> rne num (den * 2 ^ e)"
proof -
  have q: "num div (den * 2 ^ e) = num div den div 2 ^ e" by (simp add: div_mult2_eq)
  have "num div den < 2 ^ 53 * 2 ^ e" using f64_shift_bounds(1) [of "num div den"] e by (simp add: power_add)
  then have "num div den div 2 ^ e < 2 ^ 53" by (simp add: less_mult_imp_div_less)
  then show "rne num (den * 2 ^ e) \<le> 2 ^ 53" using rne_bounds(2) [of num "den * 2 ^ e"] q by simp
  assume "0 < e"
  then have "2 ^ 52 * 2 ^ e \<le> num div den" using f64_shift_bounds(2) [of "num div den"] e by (simp add: power_add)
  then have "2 ^ 52 \<le> num div den div 2 ^ e" by (simp add: less_eq_div_iff_mult_less_eq)
  then show "2 ^ 52 \<le> rne num (den * 2 ^ e)" using rne_bounds(1) [of num "den * 2 ^ e"] q by simp
qed

lemma round_units_mono:
  assumes "m \<le> n" "0 < den"
  shows "round_units m den \<le> round_units n den"
proof -
  let ?a = "f64_shift (m div den)" and ?b = "f64_shift (n div den)"
  have "?a \<le> ?b" using assms(1) by (intro f64_shift_mono div_le_mono)
  then consider "?a = ?b" | "?a < ?b" by linarith
  then show ?thesis
  proof cases
    case 1
    then show ?thesis using rne_mono [OF assms(1)] by (simp add: round_units_def Let_def)
  next
    case 2
    have "round_units m den \<le> 2 ^ 53 * 2 ^ ?a"
      using rne_range(1) [OF assms(2) refl] by (simp add: round_units_def Let_def)
    also have "(2 :: nat) ^ 53 * 2 ^ ?a \<le> 2 ^ 52 * 2 ^ ?b"
      using 2 power_increasing [of "53 + ?a" "52 + ?b" "2 :: nat"] by (simp add: power_add)
    also have "2 ^ 52 * 2 ^ ?b \<le> round_units n den"
      using rne_range(2) [OF assms(2) refl] 2 by (simp add: round_units_def Let_def)
    finally show ?thesis .
  qed
qed

definition f64_representable :: "nat \<Rightarrow> bool" where
  "f64_representable m = (2 ^ f64_shift m dvd m)"

lemma round_units_exact:
  assumes "f64_representable m" "0 < den"
  shows "round_units (m * den) den = m"
proof -
  obtain q where q: "m = q * 2 ^ f64_shift m"
    using assms(1) by (auto simp: f64_representable_def dvd_def mult.commute)
  have "m * den = q * (den * 2 ^ f64_shift m)" by (subst q) (simp add: ac_simps)
  moreover have "rne (q * (den * 2 ^ f64_shift m)) (den * 2 ^ f64_shift m) = q"
    using assms(2) by (intro rne_exact) simp
  ultimately have "rne (m * den) (den * 2 ^ f64_shift m) = q" by (simp only:)
  then show ?thesis using assms(2) q by (simp add: round_units_def)
qed

lemma f64_shift_scaled:
  assumes "q < 2 ^ 53" "2 ^ 52 \<le> q"
  shows "f64_shift (q * 2 ^ e) = e"
proof -
  have "bitlen (q * 2 ^ e) = Suc (52 + e)"
    using assms by (intro bitlen_unique) (simp_all add: power_add)
  then show ?thesis by (simp add: f64_shift_def)
qed

lemma f64_shift_small: "m < 2 ^ 53 \<Longrightarrow> f64_shift m = 0"
  using bitlen_le_iff [of m 53] by (simp add: f64_shift_def)

lemma f64_representable_scaled:
  assumes "q \<le> 2 ^ 53" "0 < e \<Longrightarrow> 2 ^ 52 \<le> q"
  shows "f64_representable (q * 2 ^ e)"
proof (cases "q = 2 ^ 53")
  case True
  then have "q * 2 ^ e = 2 ^ 52 * 2 ^ Suc e" by simp
  then show ?thesis
    using f64_shift_scaled [of "2 ^ 52" "Suc e"] by (simp add: f64_representable_def)
next
  case False
  then have "q < 2 ^ 53" using assms(1) by linarith
  then show ?thesis using assms(2) f64_shift_scaled [of q e] f64_shift_small [of q]
    by (cases "e = 0") (auto simp: f64_representable_def)
qed

lemma round_units_representable: "0 < den \<Longrightarrow> f64_representable (round_units num den)"
  unfolding round_units_def Let_def
  by (intro f64_representable_scaled rne_range) auto

section \<open>Packing and unpacking\<close>

lemma f64_frac_less: "f64_frac d < 2 ^ 52"
  by (simp add: f64_frac_def)

lemma f64_expo_less: "f64_expo d < 2048"
  by (simp add: f64_expo_def)

lemma f64_mag_representable: "f64_representable (f64_mag d)"
proof (cases "f64_expo d = 0")
  case True
  then show ?thesis using f64_frac_less [of d] f64_shift_small [of "f64_frac d"]
    by (simp add: f64_mag_def f64_representable_def)
next
  case False
  have "2 ^ 52 + f64_frac d \<le> 2 ^ 53" using f64_frac_less [of d] by simp
  then show ?thesis using False
    by (simp add: f64_mag_def f64_representable_scaled del: power_numeral)
qed

lemma f64_mag_inf: "f64_is_inf d \<Longrightarrow> f64_mag d = f64_top"
  by (simp add: f64_is_inf_def f64_mag_def f64_top_def flip: power_add)

lemma f64_mag_finite:
  assumes "f64_expo d \<noteq> 2047"
  shows "f64_mag d < f64_top"
proof (cases "f64_expo d = 0")
  case True
  have "f64_frac d < 2 ^ 52" by (rule f64_frac_less)
  also have "(2 :: nat) ^ 52 \<le> f64_top" unfolding f64_top_def by (rule power_increasing) simp_all
  finally show ?thesis using True by (simp add: f64_mag_def)
next
  case False
  have "f64_expo d - 1 \<le> 2045" using assms f64_expo_less [of d] by linarith
  then have "(2 :: nat) ^ (f64_expo d - 1) \<le> 2 ^ 2045" by (intro power_increasing) simp_all
  moreover have "2 ^ 52 + f64_frac d < 2 ^ 53" using f64_frac_less [of d] by simp
  ultimately have "(2 ^ 52 + f64_frac d) * 2 ^ (f64_expo d - 1) < 2 ^ 53 * 2 ^ 2045"
    by (intro mult_less_le_imp_less) simp_all
  then show ?thesis using False by (simp add: f64_mag_def f64_top_def flip: power_add)
qed

lemma f64_fields:
  assumes "s \<le> 1" "e < 2048" "f < 2 ^ 52"
    and d: "d = Double (of_nat (s * 2 ^ 63 + e * 2 ^ 52 + f))"
  shows "f64_sign d \<longleftrightarrow> s = 1" "f64_expo d = e" "f64_frac d = f"
proof -
  let ?n = "s * 2 ^ 63 + e * 2 ^ 52 + f"
  have "e * 2 ^ 52 + f < 2 ^ 63" using assms(2,3) by simp
  moreover from this have "?n < 2 ^ LENGTH(64)" using assms(1) by simp
  ultimately have n: "unat (double_bits d) = ?n" unfolding d
    by (simp only: double.sel unat_of_nat mod_less)
  show "f64_sign d \<longleftrightarrow> s = 1"
    using \<open>e * 2 ^ 52 + f < 2 ^ 63\<close> assms(1) unfolding f64_sign_def n by (cases s) auto
  have "?n div 2 ^ 52 = s * 2048 + e" using assms(3) by simp
  then show "f64_expo d = e" using assms(2) unfolding f64_expo_def n by simp
  have "?n = (s * 2048 + e) * 2 ^ 52 + f" by simp
  then show "f64_frac d = f" using assms(3) unfolding f64_frac_def n by (simp only: mod_mult_self3 mod_less)
qed

lemma f64_inf_simps [simp]:
  "f64_sign (f64_inf neg) = neg" "f64_is_inf (f64_inf neg)" "\<not> f64_is_nan (f64_inf neg)"
  by (simp_all add: f64_inf_def f64_sign_def f64_is_inf_def f64_is_nan_def f64_expo_def f64_frac_def)

text \<open>The bits of a packed magnitude, as the three fields of the format.\<close>

lemma f64_pack_fields:
  assumes "m < f64_top"
  defines "e \<equiv> f64_shift m"
  obtains "m < 2 ^ 52" "f64_pack neg m = Double (of_nat (of_bool neg * 2 ^ 63 + 0 * 2 ^ 52 + m))"
  | f where "2 ^ 52 \<le> m" "f < 2 ^ 52" "e < 2046" "m div 2 ^ e = 2 ^ 52 + f"
      "f64_pack neg m = Double (of_nat (of_bool neg * 2 ^ 63 + (e + 1) * 2 ^ 52 + f))"
proof (cases "m < 2 ^ 52")
  case True
  then have "f64_shift m = 0" by (intro f64_shift_small) simp
  then have "f64_pack neg m = Double (of_nat (of_bool neg * 2 ^ 63 + 0 * 2 ^ 52 + m))"
    using assms by (simp add: f64_pack_def not_le)
  with True show thesis by (rule that(1))
next
  case False
  let ?k = "m div 2 ^ e"
  have "2 ^ 52 * 2 ^ e \<le> m" using False f64_shift_bounds(2) [of m] unfolding e_def
    by (cases "f64_shift m = 0") (simp_all add: power_add)
  then have k1: "2 ^ 52 \<le> ?k" by (simp add: less_eq_div_iff_mult_less_eq)
  have "m < 2 ^ 53 * 2 ^ e" using f64_shift_bounds(1) [of m] by (simp add: e_def power_add)
  then have k2: "?k < 2 ^ 53" by (simp add: less_mult_imp_div_less)
  have "bitlen m \<le> 2098" using assms(1) by (simp only: bitlen_le_iff f64_top_def)
  then have "e < 2046" by (simp add: e_def f64_shift_def)
  moreover have "f64_pack neg m = Double (of_nat (of_bool neg * 2 ^ 63 + (e + 1) * 2 ^ 52 + (?k - 2 ^ 52)))"
  proof -
    have "of_bool neg * 2 ^ 63 + (e + 1) * 2 ^ 52 + (?k - 2 ^ 52) =
      (if neg then 2 ^ 63 else 0) + e * 2 ^ 52 + ?k" using k1 by simp
    then show ?thesis using assms(1) unfolding f64_pack_def e_def
      by (simp only: not_le [symmetric] if_False)
  qed
  ultimately show thesis using that(2) [of "?k - 2 ^ 52"] k1 k2 False by simp
qed

lemma f64_pack_simps:
  assumes "m < f64_top" "f64_representable m"
  shows "f64_mag (f64_pack neg m) = m" "f64_sign (f64_pack neg m) = neg"
    "f64_expo (f64_pack neg m) < 2047"
proof -
  have "f64_mag (f64_pack neg m) = m \<and> f64_sign (f64_pack neg m) = neg \<and> f64_expo (f64_pack neg m) < 2047"
    using assms(1)
  proof (cases rule: f64_pack_fields [of m neg])
    case 1
    note f = f64_fields [OF _ _ 1(1,2)]
    show ?thesis using f by (simp add: f64_mag_def)
  next
    case (2 f)
    note fs = f64_fields [OF _ _ 2(2,5)]
    have "f64_expo (f64_pack neg m) = f64_shift m + 1" "f64_frac (f64_pack neg m) = f"
      "f64_sign (f64_pack neg m) = neg" using fs 2(3) by simp_all
    moreover have "(2 ^ 52 + f) * 2 ^ f64_shift m = m"
      using 2(4) assms(2) by (metis dvd_div_mult_self f64_representable_def)
    ultimately show ?thesis using 2(3) by (simp add: f64_mag_def)
  qed
  then show "f64_mag (f64_pack neg m) = m" "f64_sign (f64_pack neg m) = neg"
    "f64_expo (f64_pack neg m) < 2047" by simp_all
qed

lemma f64_pack_not_nan: "f64_representable m \<Longrightarrow> \<not> f64_is_nan (f64_pack neg m)"
proof (cases "m < f64_top")
  case True
  then show "f64_representable m \<Longrightarrow> \<not> f64_is_nan (f64_pack neg m)"
    using f64_pack_simps(3) [of m neg] by (simp add: f64_is_nan_def)
qed (simp add: f64_pack_def)

lemma f64_units_pack:
  assumes "f64_representable m"
  shows "f64_units (f64_pack neg m) = (if neg then - 1 else 1) * int (min m (f64_top))"
proof (cases "m < f64_top")
  case True
  then show ?thesis using f64_pack_simps [OF True assms, of neg] by (cases neg) (simp_all add: f64_units_def)
next
  case False
  then show ?thesis by (simp add: f64_pack_def f64_units_def f64_mag_inf)
qed

lemma f64_units_round:
  "0 < den \<Longrightarrow> f64_units (f64_round neg num den) = (if neg then - 1 else 1) * int (min (round_units num den) (f64_top))"
  by (simp only: f64_round_def f64_units_pack round_units_representable)

lemma f64_round_not_nan [simp]: "0 < den \<Longrightarrow> \<not> f64_is_nan (f64_round neg num den)"
  by (simp add: f64_round_def f64_pack_not_nan round_units_representable)

section \<open>Order and arithmetic of nonnegative values\<close>

lemma f64_less_irrefl [simp]: "\<not> a < (a :: double)"
  by (simp add: less_double_def)

lemma f64_less_trans: "a < b \<Longrightarrow> b < c \<Longrightarrow> a < (c :: double)"
  by (auto simp: less_double_def)

lemma f64_not_less_trans:
  fixes a b c :: double
  assumes "\<not> f64_is_nan a" "\<not> f64_is_nan b" "\<not> f64_is_nan c"
  shows "\<not> a < b \<Longrightarrow> \<not> b < c \<Longrightarrow> \<not> a < c"
  using assms by (auto simp: less_double_def)

definition f64_nonneg :: "double \<Rightarrow> bool" where
  "f64_nonneg d = (\<not> f64_is_nan d \<and> 0 \<le> f64_units d)"

lemma f64_units_0 [simp]: "f64_units 0 = 0"
  by (simp add: zero_double_def f64_units_def f64_mag_def f64_sign_def f64_expo_def f64_frac_def)

lemma f64_units_1: "f64_units 1 = int f64_unity"
  by (simp add: f64_unity_def one_double_def f64_units_def f64_mag_def f64_sign_def f64_expo_def f64_frac_def)

lemma f64_not_nan_0 [simp]: "\<not> f64_is_nan 0"
  by (simp add: zero_double_def f64_is_nan_def f64_expo_def)

lemma f64_not_nan_1 [simp]: "\<not> f64_is_nan 1"
  by (simp add: one_double_def f64_is_nan_def f64_expo_def)

lemma f64_nonneg_iff: "f64_nonneg d \<longleftrightarrow> 0 \<le> d"
  by (simp add: f64_nonneg_def less_eq_double_def)

lemma f64_representable_pow2: "f64_representable (2 ^ k)"
proof (cases "k < 53")
  case True
  then show ?thesis using f64_shift_small [of "2 ^ k"] power_strict_increasing [of k 53 "2 :: nat"]
    by (simp add: f64_representable_def)
next
  case False
  then have "(2 :: nat) ^ k = 2 ^ 52 * 2 ^ (k - 52)" unfolding power_add [symmetric] by simp
  then show ?thesis using f64_representable_scaled [of "2 ^ 52" "k - 52"] by simp
qed

lemma round_units_top: "0 < den \<Longrightarrow> round_units (f64_top * den) den = f64_top"
  unfolding f64_top_def by (rule round_units_exact [OF f64_representable_pow2])

lemma round_units_unity: "0 < den \<Longrightarrow> round_units (f64_unity * den) den = f64_unity"
  unfolding f64_unity_def by (rule round_units_exact [OF f64_representable_pow2])

lemma f64_unity_pos [simp]: "0 < f64_unity"
  by (simp add: f64_unity_def)

lemma f64_unity_less_top: "f64_unity < f64_top"
  unfolding f64_unity_def f64_top_def by (rule power_strict_increasing) simp_all

lemma round_units_pow2: "0 < den \<Longrightarrow> round_units (2 ^ k * den) den = 2 ^ k"
  by (rule round_units_exact [OF f64_representable_pow2])

lemma f64_units_abs: "nat \<bar>f64_units d\<bar> = f64_mag d"
  by (simp add: f64_units_def)

lemma f64_mag_le: "\<not> f64_is_nan d \<Longrightarrow> f64_mag d \<le> f64_top"
  using f64_mag_finite [of d] f64_mag_inf [of d]
  by (cases "f64_expo d = 2047") (auto simp: f64_is_nan_def f64_is_inf_def)

lemma f64_inf_iff_mag: "\<not> f64_is_nan d \<Longrightarrow> f64_is_inf d \<longleftrightarrow> f64_mag d = f64_top"
  using f64_mag_finite [of d] f64_mag_inf [of d]
  by (cases "f64_expo d = 2047") (auto simp: f64_is_nan_def f64_is_inf_def)

lemma round_units_overflow: "f64_top \<le> n \<Longrightarrow> f64_top \<le> round_units n 1"
  using round_units_mono [of f64_top n 1] round_units_top [of 1] by simp

text \<open>The sum of two nonnegative values, infinities included, is the rounded exact sum.\<close>

lemma f64_nonneg_inf: "f64_nonneg d \<Longrightarrow> f64_is_inf d \<Longrightarrow> f64_units d = int f64_top \<and> \<not> f64_sign d"
  using f64_mag_inf [of d] f64_unity_less_top
  by (auto simp: f64_nonneg_def f64_units_def split: if_splits)

lemma f64_nonneg_add:
  assumes "f64_nonneg a" "f64_nonneg b"
  shows "\<not> f64_is_nan (a + b) \<and>
    f64_units (a + b) = int (min (round_units (nat (f64_units a + f64_units b)) 1) (f64_top))"
proof -
  let ?s = "f64_units a + f64_units b"
  have ab: "\<not> f64_is_nan a" "\<not> f64_is_nan b" "0 \<le> f64_units a" "0 \<le> f64_units b"
    using assms by (auto simp: f64_nonneg_def)
  have big: "min (round_units (nat ?s) 1) (f64_top) = f64_top" if "int f64_top \<le> ?s"
    using that round_units_overflow [of "nat ?s"] by (simp add: min_def nat_le_iff le_nat_iff)
  consider "f64_is_inf a" | "\<not> f64_is_inf a" "f64_is_inf b" | "\<not> f64_is_inf a" "\<not> f64_is_inf b" "?s = 0"
    | "\<not> f64_is_inf a" "\<not> f64_is_inf b" "0 < ?s" using ab by fastforce
  then show ?thesis
  proof cases
    case 1
    then have "a + b = a" using ab f64_nonneg_inf [OF assms(1)] f64_nonneg_inf [OF assms(2)]
      by (auto simp: plus_double_def)
    then show ?thesis using 1 ab big f64_nonneg_inf [OF assms(1) 1] by simp
  next
    case 2
    then have "a + b = b" using ab by (simp add: plus_double_def)
    then show ?thesis using 2 ab big f64_nonneg_inf [OF assms(2) 2(2)] by simp
  next
    case 3
    have rep: "f64_representable 0" by (simp add: f64_representable_def)
    have "a + b = f64_pack (f64_sign a \<and> f64_sign b) 0" using 3 ab by (simp add: plus_double_def)
    moreover have "round_units 0 1 = 0" by (simp add: round_units_def rne_def)
    ultimately show ?thesis using f64_units_pack [OF rep] f64_pack_not_nan [OF rep] 3(3) by simp
  next
    case 4
    then have "a + b = f64_round False (nat ?s) 1" using ab by (simp add: plus_double_def Let_def)
    then show ?thesis by (simp only: f64_units_round f64_round_not_nan zero_less_one) simp
  qed
qed

lemma f64_nonneg_plus [simp]: "f64_nonneg a \<Longrightarrow> f64_nonneg b \<Longrightarrow> f64_nonneg (a + b)"
  using f64_nonneg_add [of a b] by (simp add: f64_nonneg_def)

lemma f64_add_mono:
  assumes "f64_nonneg a" "f64_nonneg b" "f64_nonneg c" "f64_nonneg d"
    "f64_units a \<le> f64_units b" "f64_units c \<le> f64_units d"
  shows "f64_units (a + c) \<le> f64_units (b + d)"
proof -
  have "nat (f64_units a + f64_units c) \<le> nat (f64_units b + f64_units d)" using assms by simp
  then have "round_units (nat (f64_units a + f64_units c)) 1 \<le> round_units (nat (f64_units b + f64_units d)) 1"
    by (rule round_units_mono) simp
  then show ?thesis using f64_nonneg_add assms(1-4) by (simp add: min_def)
qed

lemma f64_nonneg_0 [simp]: "f64_nonneg 0"
  by (simp add: f64_nonneg_def)

lemma f64_lit_nonneg [simp]: "0 < den \<Longrightarrow> f64_nonneg (f64_lit num den)"
  by (simp add: f64_nonneg_def f64_lit_def f64_units_round)

lemma f64_of_nat_nonneg [simp]: "f64_nonneg (f64_of_nat n)"
  by (simp add: f64_of_nat_def)

lemma f64_of_nat_le_pow2:
  assumes "n \<le> 2 ^ k"
  shows "f64_units (f64_of_nat n) \<le> 2 ^ (k + 1074)"
proof -
  have "n * f64_unity \<le> 2 ^ (k + 1074) * 1" using assms by (simp add: power_add f64_unity_def)
  then have "round_units (n * f64_unity) 1 \<le> 2 ^ (k + 1074)"
    using round_units_mono [of "n * f64_unity" "2 ^ (k + 1074) * 1" 1] round_units_pow2 [of 1 "k + 1074"]
    by simp
  then have "int (round_units (n * f64_unity) 1) \<le> 2 ^ (k + 1074)"
    by (metis of_nat_le_iff of_nat_numeral of_nat_power)
  then show ?thesis by (simp add: f64_of_nat_def f64_lit_def f64_units_round min_def)
qed

text \<open>A quotient of finite nonnegative values with a positive divisor is nonnegative, and at most 1
  when the dividend is at most the divisor.\<close>

lemma f64_div_nonneg:
  assumes "f64_nonneg a" "f64_nonneg b" "0 < f64_units b" "\<not> f64_is_inf b"
  shows "f64_nonneg (a / b)" "f64_units a \<le> f64_units b \<Longrightarrow> f64_units (a / b) \<le> f64_units 1"
proof -
  have b: "0 < f64_mag b" "\<not> f64_sign b" "\<not> f64_is_nan b" "f64_units b = int (f64_mag b)"
    using assms by (auto simp: f64_nonneg_def f64_units_def split: if_splits)
  have a: "\<not> f64_is_nan a" "f64_mag a = nat (f64_units a)" "f64_mag a = 0 \<or> \<not> f64_sign a"
    using assms(1) by (auto simp: f64_nonneg_def f64_units_def split: if_splits)
  have fin: "a / b = f64_round (f64_sign a) (f64_mag a * f64_unity) (f64_mag b)" if "\<not> f64_is_inf a"
    using that a b assms(4) by (simp add: divide_double_def)
  have zero: "round_units (0 * f64_unity) (f64_mag b) = 0" by (simp add: round_units_def rne_def)
  show "f64_nonneg (a / b)"
  proof (cases "f64_is_inf a")
    case True
    then have "\<not> f64_sign a" using f64_nonneg_inf assms(1) by blast
    then have "a / b = f64_inf False" using True a b assms(4) by (simp add: divide_double_def)
    then show ?thesis by (simp add: f64_nonneg_def f64_units_def)
  next
    case False
    show ?thesis using a(3) b(1) zero unfolding fin [OF False] f64_nonneg_def
      by (auto simp: f64_units_round)
  qed
  assume le: "f64_units a \<le> f64_units b"
  have "f64_mag a \<le> f64_mag b" using le a(2) b(4) by simp
  then have "round_units (f64_mag a * f64_unity) (f64_mag b) \<le> round_units (f64_unity * f64_mag b) (f64_mag b)"
    using b(1) by (intro round_units_mono) simp_all
  then have r: "round_units (f64_mag a * f64_unity) (f64_mag b) \<le> f64_unity"
    using round_units_unity [OF b(1)] by simp
  have "\<not> f64_is_inf a"
    using le f64_nonneg_inf [OF assms(1)] b f64_inf_iff_mag [OF b(3)] f64_mag_le [OF b(3)] assms(4) by auto
  then have "f64_units (a / b) \<le> int (round_units (f64_mag a * f64_unity) (f64_mag b))"
    by (simp add: fin f64_units_round b(1))
  then show "f64_units (a / b) \<le> f64_units 1" unfolding f64_units_1
    using r by linarith
qed

end
