(* ===== verification/Task.thy ===== *)
theory Task
  imports Identifiers Float64
begin

text \<open>
  Tasks, their lifecycle and their execution attempts (\<open>task/task.h\<close>, \<open>task/lifecycle.cpp\<close>,
  \<open>task/attempt.h\<close>). An enumeration with underlying type \<open>uint8_t\<close> is a datatype with the
  source's constructors and one more for the byte values no enumerator names, which the decoders
  can produce. The lifecycle is the function \<open>is_legal\<close> and the step relation it induces.
\<close>

section \<open>Task descriptors\<close>

datatype TaskClass = TC_Generic | TC_Inference | TC_Prefill | TC_Decode | TC_Embedding | TC_Retrieval | TC_AgentStep | TC_ToolExecution | TC_TensorKernel | TC_TrainingStep | TC_CheckpointTransform | TC_ApplicationDefined | TC_Other u8

fun task_class_to_u8 :: "TaskClass \<Rightarrow> u8" where
  "task_class_to_u8 TC_Generic = 0"
| "task_class_to_u8 TC_Inference = 1"
| "task_class_to_u8 TC_Prefill = 2"
| "task_class_to_u8 TC_Decode = 3"
| "task_class_to_u8 TC_Embedding = 4"
| "task_class_to_u8 TC_Retrieval = 5"
| "task_class_to_u8 TC_AgentStep = 6"
| "task_class_to_u8 TC_ToolExecution = 7"
| "task_class_to_u8 TC_TensorKernel = 8"
| "task_class_to_u8 TC_TrainingStep = 9"
| "task_class_to_u8 TC_CheckpointTransform = 10"
| "task_class_to_u8 TC_ApplicationDefined = 11"
| "task_class_to_u8 (TC_Other v) = v"

definition task_class_of_u8 :: "u8 \<Rightarrow> TaskClass" where
  "task_class_of_u8 v =
     (if v = 0 then TC_Generic else if v = 1 then TC_Inference else if v = 2 then TC_Prefill else if v = 3 then TC_Decode else 
      if v = 4 then TC_Embedding else if v = 5 then TC_Retrieval else if v = 6 then TC_AgentStep else if v = 7 then TC_ToolExecution else 
      if v = 8 then TC_TensorKernel else if v = 9 then TC_TrainingStep else if v = 10 then TC_CheckpointTransform else if v = 11 then TC_ApplicationDefined else 
      TC_Other v)"

fun task_class_name :: "TaskClass \<Rightarrow> string" where
  "task_class_name TC_Generic = ''Generic''"
| "task_class_name TC_Inference = ''Inference''"
| "task_class_name TC_Prefill = ''Prefill''"
| "task_class_name TC_Decode = ''Decode''"
| "task_class_name TC_Embedding = ''Embedding''"
| "task_class_name TC_Retrieval = ''Retrieval''"
| "task_class_name TC_AgentStep = ''AgentStep''"
| "task_class_name TC_ToolExecution = ''ToolExecution''"
| "task_class_name TC_TensorKernel = ''TensorKernel''"
| "task_class_name TC_TrainingStep = ''TrainingStep''"
| "task_class_name TC_CheckpointTransform = ''CheckpointTransform''"
| "task_class_name TC_ApplicationDefined = ''ApplicationDefined''"
| "task_class_name (TC_Other v) = ''Unknown''"

definition parse_task_class :: "string \<Rightarrow> TaskClass option" where
  "parse_task_class s = find (\<lambda>c. task_class_name c = s) (map (\<lambda>i. task_class_of_u8 (of_nat i)) [0..<12])"

datatype ExecutorType = ET_Cpu | ET_Cuda | ET_Any | ET_Other u8

fun executor_type_to_u8 :: "ExecutorType \<Rightarrow> u8" where
  "executor_type_to_u8 ET_Cpu = 0"
| "executor_type_to_u8 ET_Cuda = 1"
| "executor_type_to_u8 ET_Any = 2"
| "executor_type_to_u8 (ET_Other v) = v"

definition executor_type_of_u8 :: "u8 \<Rightarrow> ExecutorType" where
  "executor_type_of_u8 v =
     (if v = 0 then ET_Cpu else if v = 1 then ET_Cuda else if v = 2 then ET_Any else ET_Other v)"

fun executor_type_name :: "ExecutorType \<Rightarrow> string" where
  "executor_type_name ET_Cpu = ''cpu''"
| "executor_type_name ET_Cuda = ''cuda''"
| "executor_type_name ET_Any = ''any''"
| "executor_type_name (ET_Other v) = ''unknown''"

definition parse_executor_type :: "string \<Rightarrow> ExecutorType option" where
  "parse_executor_type s =
     (if s = ''cpu'' then Some ET_Cpu
      else if s = ''cuda'' then Some ET_Cuda
      else if s = ''any'' then Some ET_Any
      else None)"

datatype KernelType = KT_None | KT_HashInteger | KT_VectorTransform | KT_Checksum | KT_SyntheticLoop | KT_StateDependent | KT_TensorArithmetic | KT_Other u8

fun kernel_type_to_u8 :: "KernelType \<Rightarrow> u8" where
  "kernel_type_to_u8 KT_None = 0"
| "kernel_type_to_u8 KT_HashInteger = 1"
| "kernel_type_to_u8 KT_VectorTransform = 2"
| "kernel_type_to_u8 KT_Checksum = 3"
| "kernel_type_to_u8 KT_SyntheticLoop = 4"
| "kernel_type_to_u8 KT_StateDependent = 5"
| "kernel_type_to_u8 KT_TensorArithmetic = 6"
| "kernel_type_to_u8 (KT_Other v) = v"

definition kernel_type_of_u8 :: "u8 \<Rightarrow> KernelType" where
  "kernel_type_of_u8 v =
     (if v = 0 then KT_None else if v = 1 then KT_HashInteger else if v = 2 then KT_VectorTransform else if v = 3 then KT_Checksum else 
      if v = 4 then KT_SyntheticLoop else if v = 5 then KT_StateDependent else if v = 6 then KT_TensorArithmetic else KT_Other v)"

fun kernel_type_name :: "KernelType \<Rightarrow> string" where
  "kernel_type_name KT_None = ''none''"
| "kernel_type_name KT_HashInteger = ''hash_integer''"
| "kernel_type_name KT_VectorTransform = ''vector_transform''"
| "kernel_type_name KT_Checksum = ''checksum''"
| "kernel_type_name KT_SyntheticLoop = ''synthetic_loop''"
| "kernel_type_name KT_StateDependent = ''state_dependent''"
| "kernel_type_name KT_TensorArithmetic = ''tensor_arithmetic''"
| "kernel_type_name (KT_Other v) = ''unknown''"

definition parse_kernel_type :: "string \<Rightarrow> KernelType option" where
  "parse_kernel_type s = find (\<lambda>c. kernel_type_name c = s) (map (\<lambda>i. kernel_type_of_u8 (of_nat i)) [0..<7])"

datatype Priority = PR_Critical | PR_High | PR_Normal | PR_Low | PR_Background | PR_Other u8

fun priority_to_u8 :: "Priority \<Rightarrow> u8" where
  "priority_to_u8 PR_Critical = 0"
| "priority_to_u8 PR_High = 1"
| "priority_to_u8 PR_Normal = 2"
| "priority_to_u8 PR_Low = 3"
| "priority_to_u8 PR_Background = 4"
| "priority_to_u8 (PR_Other v) = v"

definition priority_of_u8 :: "u8 \<Rightarrow> Priority" where
  "priority_of_u8 v =
     (if v = 0 then PR_Critical else if v = 1 then PR_High else if v = 2 then PR_Normal else if v = 3 then PR_Low else 
      if v = 4 then PR_Background else PR_Other v)"

fun priority_name :: "Priority \<Rightarrow> string" where
  "priority_name PR_Critical = ''critical''"
| "priority_name PR_High = ''high''"
| "priority_name PR_Normal = ''normal''"
| "priority_name PR_Low = ''low''"
| "priority_name PR_Background = ''background''"
| "priority_name (PR_Other v) = ''unknown''"

definition parse_priority :: "string \<Rightarrow> Priority option" where
  "parse_priority s = find (\<lambda>c. priority_name c = s) (map (\<lambda>i. priority_of_u8 (of_nat i)) [0..<5])"

record RetryPolicy =
  rp_max_attempts :: u32
  rp_retry_on_node_loss :: bool
  rp_retry_on_executor_failure :: bool
  rp_retry_on_timeout :: bool
  rp_retry_backoff_ms :: u64

definition default_retry :: RetryPolicy where
  "default_retry =
     \<lparr>rp_max_attempts = 1, rp_retry_on_node_loss = True, rp_retry_on_executor_failure = True,
      rp_retry_on_timeout = False, rp_retry_backoff_ms = 100\<rparr>"

definition retry_valid :: "RetryPolicy \<Rightarrow> bool" where
  "retry_valid r = (1 \<le> rp_max_attempts r)"

record StateDependency =
  sd_state_id :: string
  sd_generation :: string
  sd_size_bytes :: u64
  sd_resident_nodes :: "NodeId list"
  sd_locality_quality :: double
  sd_transfer_estimate_seconds :: double
  sd_recompute_estimate_seconds :: double
  sd_provider_backed :: bool
  sd_compatibility :: string

record ComputeTask =
  t_id :: ComputeTaskId
  t_workload :: WorkloadId
  t_name :: string
  t_task_class :: TaskClass
  t_required_executor :: ExecutorType
  t_min_cc_major :: int
  t_min_cc_minor :: int
  t_required_cpu_slots :: u32
  t_required_gpu_slots :: u32
  t_scratch_memory_bytes :: u64
  t_dependencies :: "ComputeTaskId list"
  t_state_dependencies :: "StateDependency list"
  t_expected_input_bytes :: u64
  t_expected_output_bytes :: u64
  t_estimated_duration_seconds :: double
  t_has_deadline :: bool
  t_deadline_epoch_ms :: "64 word"
  t_priority :: Priority
  t_retry :: RetryPolicy
  t_preferred_nodes :: "NodeId list"
  t_forbidden_nodes :: "NodeId list"
  t_required_tags :: "string list"
  t_preferred_tags :: "string list"
  t_anti_affinity_group :: string
  t_same_node_as_task :: "ComputeTaskId option"
  t_different_node_from_task :: "ComputeTaskId option"
  t_expected_transfer_gb :: double
  t_expected_recompute_cost_seconds :: double
  t_cost_estimate :: double
  t_preemptible :: bool
  t_kernel :: KernelType
  t_kernel_param_n :: u64
  t_kernel_param_a :: u64
  t_kernel_param_b :: u64
  t_seed :: u64
  t_user_tags :: "(string, string) omap"
  t_payload :: "byte list"

definition default_task :: ComputeTask where
  "default_task =
     \<lparr>t_id = id_zero, t_workload = id_zero, t_name = [], t_task_class = TC_Generic,
      t_required_executor = ET_Any, t_min_cc_major = 0, t_min_cc_minor = 0,
      t_required_cpu_slots = 1, t_required_gpu_slots = 1, t_scratch_memory_bytes = 0,
      t_dependencies = [], t_state_dependencies = [], t_expected_input_bytes = 0,
      t_expected_output_bytes = 0, t_estimated_duration_seconds = f64_lit 1 10,
      t_has_deadline = False, t_deadline_epoch_ms = 0, t_priority = PR_Normal,
      t_retry = default_retry, t_preferred_nodes = [], t_forbidden_nodes = [],
      t_required_tags = [], t_preferred_tags = [], t_anti_affinity_group = [],
      t_same_node_as_task = None, t_different_node_from_task = None,
      t_expected_transfer_gb = 0, t_expected_recompute_cost_seconds = 0, t_cost_estimate = 0,
      t_preemptible = False, t_kernel = KT_None, t_kernel_param_n = 0, t_kernel_param_a = 0,
      t_kernel_param_b = 0, t_seed = 0, t_user_tags = [], t_payload = []\<rparr>"

record Workload =
  wl_id :: WorkloadId
  wl_name :: string
  wl_user_tags :: "(string, string) omap"

section \<open>Lifecycle\<close>

datatype TaskState = TS_Submitted | TS_Blocked | TS_Ready | TS_Planning | TS_Reserved | TS_Dispatching | TS_Running | TS_Succeeded | TS_Failed | TS_RetryPending | TS_Cancelled | TS_Lost | TS_Preempted | TS_Expired | TS_Other u8

fun task_state_to_u8 :: "TaskState \<Rightarrow> u8" where
  "task_state_to_u8 TS_Submitted = 0"
| "task_state_to_u8 TS_Blocked = 1"
| "task_state_to_u8 TS_Ready = 2"
| "task_state_to_u8 TS_Planning = 3"
| "task_state_to_u8 TS_Reserved = 4"
| "task_state_to_u8 TS_Dispatching = 5"
| "task_state_to_u8 TS_Running = 6"
| "task_state_to_u8 TS_Succeeded = 7"
| "task_state_to_u8 TS_Failed = 8"
| "task_state_to_u8 TS_RetryPending = 9"
| "task_state_to_u8 TS_Cancelled = 10"
| "task_state_to_u8 TS_Lost = 11"
| "task_state_to_u8 TS_Preempted = 12"
| "task_state_to_u8 TS_Expired = 13"
| "task_state_to_u8 (TS_Other v) = v"

definition task_state_of_u8 :: "u8 \<Rightarrow> TaskState" where
  "task_state_of_u8 v =
     (if v = 0 then TS_Submitted else if v = 1 then TS_Blocked else if v = 2 then TS_Ready else if v = 3 then TS_Planning else 
      if v = 4 then TS_Reserved else if v = 5 then TS_Dispatching else if v = 6 then TS_Running else if v = 7 then TS_Succeeded else 
      if v = 8 then TS_Failed else if v = 9 then TS_RetryPending else if v = 10 then TS_Cancelled else if v = 11 then TS_Lost else 
      if v = 12 then TS_Preempted else if v = 13 then TS_Expired else TS_Other v)"

fun task_state_name :: "TaskState \<Rightarrow> string" where
  "task_state_name TS_Submitted = ''Submitted''"
| "task_state_name TS_Blocked = ''Blocked''"
| "task_state_name TS_Ready = ''Ready''"
| "task_state_name TS_Planning = ''Planning''"
| "task_state_name TS_Reserved = ''Reserved''"
| "task_state_name TS_Dispatching = ''Dispatching''"
| "task_state_name TS_Running = ''Running''"
| "task_state_name TS_Succeeded = ''Succeeded''"
| "task_state_name TS_Failed = ''Failed''"
| "task_state_name TS_RetryPending = ''RetryPending''"
| "task_state_name TS_Cancelled = ''Cancelled''"
| "task_state_name TS_Lost = ''Lost''"
| "task_state_name TS_Preempted = ''Preempted''"
| "task_state_name TS_Expired = ''Expired''"
| "task_state_name (TS_Other v) = ''Unknown''"

definition parse_task_state :: "string \<Rightarrow> TaskState option" where
  "parse_task_state s = find (\<lambda>c. task_state_name c = s) (map (\<lambda>i. task_state_of_u8 (of_nat i)) [0..<14])"

definition is_terminal :: "TaskState \<Rightarrow> bool" where
  "is_terminal s = (s = TS_Succeeded \<or> s = TS_Failed \<or> s = TS_Cancelled \<or> s = TS_Lost \<or>
     s = TS_Preempted \<or> s = TS_Expired)"

definition is_active :: "TaskState \<Rightarrow> bool" where
  "is_active s = (s = TS_Planning \<or> s = TS_Reserved \<or> s = TS_Dispatching \<or> s = TS_Running)"

definition is_legal :: "TaskState \<Rightarrow> TaskState \<Rightarrow> bool" where
  "is_legal from next =
     (from = next \<or>
      (case from of
        TS_Submitted \<Rightarrow> next \<in> {TS_Blocked, TS_Ready, TS_Cancelled, TS_Expired}
      | TS_Blocked \<Rightarrow> next \<in> {TS_Ready, TS_Cancelled, TS_Expired}
      | TS_Ready \<Rightarrow> next \<in> {TS_Planning, TS_Cancelled, TS_Expired}
      | TS_Planning \<Rightarrow> next \<in> {TS_Reserved, TS_Ready, TS_Cancelled, TS_Lost, TS_Expired}
      | TS_Reserved \<Rightarrow> next \<in> {TS_Dispatching, TS_Ready, TS_Cancelled, TS_Lost, TS_Preempted, TS_Expired}
      | TS_Dispatching \<Rightarrow> next \<in> {TS_Running, TS_Ready, TS_Lost, TS_Cancelled, TS_Preempted, TS_Expired}
      | TS_Running \<Rightarrow> next \<in> {TS_Succeeded, TS_Failed, TS_Lost, TS_Preempted, TS_RetryPending, TS_Cancelled, TS_Expired}
      | TS_Failed \<Rightarrow> next \<in> {TS_RetryPending}
      | TS_Lost \<Rightarrow> next \<in> {TS_RetryPending, TS_Failed}
      | TS_Preempted \<Rightarrow> next \<in> {TS_RetryPending, TS_Ready, TS_Failed}
      | TS_RetryPending \<Rightarrow> next \<in> {TS_Ready, TS_Cancelled, TS_Expired}
      | _ \<Rightarrow> False))"

definition illegal_transition :: "TaskState \<Rightarrow> TaskState \<Rightarrow> Error" where
  "illegal_transition from next =
     make_error E_IllegalTransition
       (''illegal task transition '' @ task_state_name from @ '' -> '' @ task_state_name next)"

definition transition :: "TaskState \<Rightarrow> TaskState \<Rightarrow> TaskState result \<times> TaskState" where
  "transition s next =
     (if s = next then (Inr s, s)
      else if \<not> is_legal s next then (Inl (illegal_transition s next), s)
      else (Inr next, next))"

section \<open>Attempts\<close>

datatype AttemptState = AS_Dispatched | AS_Started | AS_Succeeded | AS_Failed | AS_Cancelled | AS_Lost | AS_Other u8

fun attempt_state_to_u8 :: "AttemptState \<Rightarrow> u8" where
  "attempt_state_to_u8 AS_Dispatched = 0"
| "attempt_state_to_u8 AS_Started = 1"
| "attempt_state_to_u8 AS_Succeeded = 2"
| "attempt_state_to_u8 AS_Failed = 3"
| "attempt_state_to_u8 AS_Cancelled = 4"
| "attempt_state_to_u8 AS_Lost = 5"
| "attempt_state_to_u8 (AS_Other v) = v"

definition attempt_state_of_u8 :: "u8 \<Rightarrow> AttemptState" where
  "attempt_state_of_u8 v =
     (if v = 0 then AS_Dispatched else if v = 1 then AS_Started else if v = 2 then AS_Succeeded else if v = 3 then AS_Failed else 
      if v = 4 then AS_Cancelled else if v = 5 then AS_Lost else AS_Other v)"

fun attempt_state_name :: "AttemptState \<Rightarrow> string" where
  "attempt_state_name AS_Dispatched = ''Dispatched''"
| "attempt_state_name AS_Started = ''Started''"
| "attempt_state_name AS_Succeeded = ''Succeeded''"
| "attempt_state_name AS_Failed = ''Failed''"
| "attempt_state_name AS_Cancelled = ''Cancelled''"
| "attempt_state_name AS_Lost = ''Lost''"
| "attempt_state_name (AS_Other v) = ''Unknown''"

datatype FailureKind = FK_None | FK_ExecutorFailed | FK_NodeLost | FK_Timeout | FK_Cancelled | FK_InvalidOutput | FK_CudaError | FK_Preempted | FK_Internal | FK_Other u8

fun failure_kind_to_u8 :: "FailureKind \<Rightarrow> u8" where
  "failure_kind_to_u8 FK_None = 0"
| "failure_kind_to_u8 FK_ExecutorFailed = 1"
| "failure_kind_to_u8 FK_NodeLost = 2"
| "failure_kind_to_u8 FK_Timeout = 3"
| "failure_kind_to_u8 FK_Cancelled = 4"
| "failure_kind_to_u8 FK_InvalidOutput = 5"
| "failure_kind_to_u8 FK_CudaError = 6"
| "failure_kind_to_u8 FK_Preempted = 7"
| "failure_kind_to_u8 FK_Internal = 8"
| "failure_kind_to_u8 (FK_Other v) = v"

definition failure_kind_of_u8 :: "u8 \<Rightarrow> FailureKind" where
  "failure_kind_of_u8 v =
     (if v = 0 then FK_None else if v = 1 then FK_ExecutorFailed else if v = 2 then FK_NodeLost else if v = 3 then FK_Timeout else 
      if v = 4 then FK_Cancelled else if v = 5 then FK_InvalidOutput else if v = 6 then FK_CudaError else if v = 7 then FK_Preempted else 
      if v = 8 then FK_Internal else FK_Other v)"

fun failure_kind_name :: "FailureKind \<Rightarrow> string" where
  "failure_kind_name FK_None = ''none''"
| "failure_kind_name FK_ExecutorFailed = ''executor_failed''"
| "failure_kind_name FK_NodeLost = ''node_lost''"
| "failure_kind_name FK_Timeout = ''timeout''"
| "failure_kind_name FK_Cancelled = ''cancelled''"
| "failure_kind_name FK_InvalidOutput = ''invalid_output''"
| "failure_kind_name FK_CudaError = ''cuda_error''"
| "failure_kind_name FK_Preempted = ''preempted''"
| "failure_kind_name FK_Internal = ''internal''"
| "failure_kind_name (FK_Other v) = ''unknown''"

record ExecutionAttempt =
  a_id :: ExecutionAttemptId
  a_task_id :: ComputeTaskId
  a_node_id :: NodeId
  a_node_session :: NodeSessionId
  a_coordinator_epoch :: CoordinatorEpoch
  a_reservation_id :: ReservationId
  a_executor :: ExecutorType
  a_attempt_number :: u32
  a_dispatched_at_ms :: "64 word"
  a_started_at_ms :: "64 word"
  a_completed_at_ms :: "64 word"
  a_state :: AttemptState
  a_failure_kind :: FailureKind
  a_failure_reason :: string
  a_output_size :: u64
  a_output_integrity :: string
  a_cpu_millis :: double
  a_bytes_transferred :: u64
  a_device :: string
  a_committed :: bool

definition default_attempt :: ExecutionAttempt where
  "default_attempt =
     \<lparr>a_id = id_zero, a_task_id = id_zero, a_node_id = id_zero, a_node_session = id_zero,
      a_coordinator_epoch = 0, a_reservation_id = id_zero, a_executor = ET_Cpu,
      a_attempt_number = 0, a_dispatched_at_ms = 0, a_started_at_ms = 0, a_completed_at_ms = 0,
      a_state = AS_Dispatched, a_failure_kind = FK_None, a_failure_reason = [],
      a_output_size = 0, a_output_integrity = [], a_cpu_millis = 0, a_bytes_transferred = 0,
      a_device = [], a_committed = False\<rparr>"

section \<open>Enumerations on the wire\<close>

fun task_class_ok :: "TaskClass \<Rightarrow> bool" where
  "task_class_ok (TC_Other v) = (12 \<le> unat v)"
| "task_class_ok _ = True"

lemma task_class_to_of_u8 [enum_simps]: "task_class_to_u8 (task_class_of_u8 v) = v"
  by (simp add: task_class_of_u8_def)

lemma task_class_of_to_u8 [enum_simps]: "task_class_ok c \<Longrightarrow> task_class_of_u8 (task_class_to_u8 c) = c"
  by (cases c) (auto simp: task_class_of_u8_def)

lemma task_class_name_roundtrip [enum_simps]:
  "\<forall>v. c \<noteq> TC_Other v \<Longrightarrow> parse_task_class (task_class_name c) = Some c"
  by (cases c) (simp_all add: parse_task_class_def task_class_of_u8_def upt_rec)

fun executor_type_ok :: "ExecutorType \<Rightarrow> bool" where
  "executor_type_ok (ET_Other v) = (3 \<le> unat v)"
| "executor_type_ok _ = True"

lemma executor_type_to_of_u8 [enum_simps]: "executor_type_to_u8 (executor_type_of_u8 v) = v"
  by (simp add: executor_type_of_u8_def)

lemma executor_type_of_to_u8 [enum_simps]: "executor_type_ok c \<Longrightarrow> executor_type_of_u8 (executor_type_to_u8 c) = c"
  by (cases c) (auto simp: executor_type_of_u8_def)

lemma executor_type_name_roundtrip [enum_simps]:
  "\<forall>v. c \<noteq> ET_Other v \<Longrightarrow> parse_executor_type (executor_type_name c) = Some c"
  by (cases c) (simp_all add: parse_executor_type_def)

fun kernel_type_ok :: "KernelType \<Rightarrow> bool" where
  "kernel_type_ok (KT_Other v) = (7 \<le> unat v)"
| "kernel_type_ok _ = True"

lemma kernel_type_to_of_u8 [enum_simps]: "kernel_type_to_u8 (kernel_type_of_u8 v) = v"
  by (simp add: kernel_type_of_u8_def)

lemma kernel_type_of_to_u8 [enum_simps]: "kernel_type_ok c \<Longrightarrow> kernel_type_of_u8 (kernel_type_to_u8 c) = c"
  by (cases c) (auto simp: kernel_type_of_u8_def)

lemma kernel_type_name_roundtrip [enum_simps]:
  "\<forall>v. c \<noteq> KT_Other v \<Longrightarrow> parse_kernel_type (kernel_type_name c) = Some c"
  by (cases c) (simp_all add: parse_kernel_type_def kernel_type_of_u8_def upt_rec)

fun priority_ok :: "Priority \<Rightarrow> bool" where
  "priority_ok (PR_Other v) = (5 \<le> unat v)"
| "priority_ok _ = True"

lemma priority_to_of_u8 [enum_simps]: "priority_to_u8 (priority_of_u8 v) = v"
  by (simp add: priority_of_u8_def)

lemma priority_of_to_u8 [enum_simps]: "priority_ok c \<Longrightarrow> priority_of_u8 (priority_to_u8 c) = c"
  by (cases c) (auto simp: priority_of_u8_def)

lemma priority_name_roundtrip [enum_simps]:
  "\<forall>v. c \<noteq> PR_Other v \<Longrightarrow> parse_priority (priority_name c) = Some c"
  by (cases c) (simp_all add: parse_priority_def priority_of_u8_def upt_rec)

fun task_state_ok :: "TaskState \<Rightarrow> bool" where
  "task_state_ok (TS_Other v) = (14 \<le> unat v)"
| "task_state_ok _ = True"

lemma task_state_to_of_u8 [enum_simps]: "task_state_to_u8 (task_state_of_u8 v) = v"
  by (simp add: task_state_of_u8_def)

lemma task_state_of_to_u8 [enum_simps]: "task_state_ok c \<Longrightarrow> task_state_of_u8 (task_state_to_u8 c) = c"
  by (cases c) (auto simp: task_state_of_u8_def)

lemma task_state_name_roundtrip [enum_simps]:
  "\<forall>v. c \<noteq> TS_Other v \<Longrightarrow> parse_task_state (task_state_name c) = Some c"
  by (cases c) (simp_all add: parse_task_state_def task_state_of_u8_def upt_rec)

fun attempt_state_ok :: "AttemptState \<Rightarrow> bool" where
  "attempt_state_ok (AS_Other v) = (6 \<le> unat v)"
| "attempt_state_ok _ = True"

lemma attempt_state_to_of_u8 [enum_simps]: "attempt_state_to_u8 (attempt_state_of_u8 v) = v"
  by (simp add: attempt_state_of_u8_def)

lemma attempt_state_of_to_u8 [enum_simps]: "attempt_state_ok c \<Longrightarrow> attempt_state_of_u8 (attempt_state_to_u8 c) = c"
  by (cases c) (auto simp: attempt_state_of_u8_def)

fun failure_kind_ok :: "FailureKind \<Rightarrow> bool" where
  "failure_kind_ok (FK_Other v) = (9 \<le> unat v)"
| "failure_kind_ok _ = True"

lemma failure_kind_to_of_u8 [enum_simps]: "failure_kind_to_u8 (failure_kind_of_u8 v) = v"
  by (simp add: failure_kind_of_u8_def)

lemma failure_kind_of_to_u8 [enum_simps]: "failure_kind_ok c \<Longrightarrow> failure_kind_of_u8 (failure_kind_to_u8 c) = c"
  by (cases c) (auto simp: failure_kind_of_u8_def)

section \<open>The lifecycle as a step relation\<close>

inductive lifecycle_step :: "TaskState \<Rightarrow> TaskState \<Rightarrow> bool" where
  lifecycle_stepI: "is_legal s t \<Longrightarrow> s \<noteq> t \<Longrightarrow> lifecycle_step s t"

inductive_cases lifecycle_stepE: "lifecycle_step s t"

lemma transition_iff:
  "transition s t = (Inr t, t) \<longleftrightarrow> s = t \<or> lifecycle_step s t"
  "fst (transition s t) = Inl e \<longleftrightarrow> \<not> is_legal s t \<and> e = illegal_transition s t"
  by (auto simp: transition_def is_legal_def intro: lifecycle_stepI elim: lifecycle_stepE)

text \<open>States no transition leaves.\<close>

definition absorbing :: "TaskState \<Rightarrow> bool" where
  "absorbing s = (s = TS_Succeeded \<or> s = TS_Cancelled \<or> s = TS_Expired \<or> (\<exists>v. s = TS_Other v))"

lemma is_legal_refl [simp]: "is_legal s s"
  by (simp add: is_legal_def)

lemma absorbing_iff: "absorbing s \<longleftrightarrow> (\<forall>t. is_legal s t \<longrightarrow> t = s)"
  by (cases s) (auto simp: absorbing_def is_legal_def)

lemma absorbing_no_step: "absorbing s \<Longrightarrow> \<not> lifecycle_step s t"
  using absorbing_iff [of s] by (auto elim: lifecycle_stepE)

lemma absorbing_reach: "lifecycle_step\<^sup>*\<^sup>* s t \<Longrightarrow> absorbing s \<Longrightarrow> t = s"
  by (erule converse_rtranclpE) (auto dest: absorbing_no_step)

text \<open>Only \<open>Running\<close> leads to \<open>Succeeded\<close>, and only \<open>Dispatching\<close> to \<open>Running\<close>.\<close>

lemma legal_into [enum_simps]:
  "is_legal s TS_Succeeded \<longleftrightarrow> s = TS_Succeeded \<or> s = TS_Running"
  "is_legal s TS_Running \<longleftrightarrow> s = TS_Running \<or> s = TS_Dispatching"
  "is_legal s TS_Dispatching \<longleftrightarrow> s = TS_Dispatching \<or> s = TS_Reserved"
  "is_legal s TS_Reserved \<longleftrightarrow> s = TS_Reserved \<or> s = TS_Planning"
  "is_legal s TS_Planning \<longleftrightarrow> s = TS_Planning \<or> s = TS_Ready"
  "is_legal s TS_Submitted \<longleftrightarrow> s = TS_Submitted"
  "is_legal s TS_Blocked \<longleftrightarrow> s = TS_Blocked \<or> s = TS_Submitted"
  by (cases s; simp add: is_legal_def)+

end
