(* ===== verification/Dag.thy ===== *)
theory Dag
  imports Task
begin

text \<open>
  The dependency graph of tasks (\<open>task/dag.h\<close>, \<open>task/dag.cpp\<close>). The four maps of \<open>TaskGraph\<close>
  are the fields of a record; the sets of neighbours are strictly increasing lists. The cycle
  search of \<open>validate_dependencies\<close> is the function \<open>dfs_deps\<close>, with the colour map it threads.
\<close>

section \<open>State and operations\<close>

record TaskGraph =
  g_tasks :: "(ComputeTaskId, ComputeTask) omap"
  g_states :: "(ComputeTaskId, TaskState) omap"
  g_deps :: "(ComputeTaskId, ComputeTaskId list) omap"
  g_dependents :: "(ComputeTaskId, ComputeTaskId list) omap"

definition graph_empty :: TaskGraph where
  "graph_empty = \<lparr>g_tasks = [], g_states = [], g_deps = [], g_dependents = []\<rparr>"

definition has_task :: "TaskGraph \<Rightarrow> ComputeTaskId \<Rightarrow> bool" where
  "has_task g i = omap_has (g_tasks g) i"

definition find_task :: "TaskGraph \<Rightarrow> ComputeTaskId \<Rightarrow> ComputeTask option" where
  "find_task g i = map_of (g_tasks g) i"

definition dependencies :: "TaskGraph \<Rightarrow> ComputeTaskId \<Rightarrow> ComputeTaskId list" where
  "dependencies g i = (case map_of (g_deps g) i of None \<Rightarrow> [] | Some s \<Rightarrow> s)"

definition dependents :: "TaskGraph \<Rightarrow> ComputeTaskId \<Rightarrow> ComputeTaskId list" where
  "dependents g i = (case map_of (g_dependents g) i of None \<Rightarrow> [] | Some s \<Rightarrow> s)"

definition graph_size :: "TaskGraph \<Rightarrow> nat" where
  "graph_size g = length (g_tasks g)"

text \<open>
  The loop of \<open>dfs\<close> over the remaining neighbours. Colours: 0 white, 1 grey, 2 black; an absent
  key is white. A neighbour \<open>d\<close> that is white is coloured grey, its own neighbours are
  searched, and it is coloured black when the search found no cycle.
\<close>

type_synonym colors = "(ComputeTaskId, nat) omap"

function dfs_deps ::
  "(ComputeTaskId, ComputeTaskId list) omap \<Rightarrow> colors \<Rightarrow> ComputeTaskId list \<Rightarrow> bool \<times> colors" where
  "dfs_deps deps col [] = (False, col)"
| "dfs_deps deps col (d # ds) =
     (if omap_get_or 0 col d = 1 then (True, col)
      else if omap_get_or 0 col d = 0 then
        (case dfs_deps deps (omap_put d 1 col) (omap_get_or [] deps d) of
           (True, col') \<Rightarrow> (True, col')
         | (False, col') \<Rightarrow> dfs_deps deps (omap_put d 2 col') ds)
      else dfs_deps deps col ds)"
  by pat_completeness auto

definition dfs_white :: "(ComputeTaskId, ComputeTaskId list) omap \<Rightarrow> colors \<Rightarrow> ComputeTaskId set" where
  "dfs_white deps col = {k \<in> fst ` set deps. omap_get_or 0 col k = 0}"

lemma dfs_deps_grows:
  "dfs_deps_dom (deps, col, ds) \<Longrightarrow>
   omap_get_or 0 col k \<noteq> 0 \<Longrightarrow> omap_get_or 0 (snd (dfs_deps deps col ds)) k \<noteq> 0"
  by (induction deps col ds arbitrary: k rule: dfs_deps.pinduct)
    (auto simp: dfs_deps.psimps split: prod.splits bool.splits)

termination dfs_deps
proof (relation "(\<lambda>(deps, col, ds). card (dfs_white deps col)) <*mlex*> measure (\<lambda>(deps, col, ds). length ds)")
  show "wf ((\<lambda>(deps, col, ds). card (dfs_white deps col)) <*mlex*> measure (\<lambda>(deps, col, ds). length ds))"
    by (intro wf_mlex wf_measure)
next
  fix deps :: "(ComputeTaskId, ComputeTaskId list) omap" and col :: colors and d and ds :: "ComputeTaskId list"
  assume white: "omap_get_or 0 col d = 0"
  have sub: "dfs_white deps (omap_put d 1 col) \<subseteq> dfs_white deps col"
    by (auto simp: dfs_white_def)
  show "((deps, omap_put d 1 col, omap_get_or [] deps d), (deps, col, d # ds))
    \<in> (\<lambda>(deps, col, ds). card (dfs_white deps col)) <*mlex*> measure (\<lambda>(deps, col, ds). length ds)"
  proof (cases "d \<in> fst ` set deps")
    case True
    then have "d \<in> dfs_white deps col" "d \<notin> dfs_white deps (omap_put d 1 col)"
      using white by (auto simp: dfs_white_def)
    then have "card (dfs_white deps (omap_put d 1 col)) < card (dfs_white deps col)"
      using sub by (intro psubset_card_mono) (auto simp: dfs_white_def)
    then show ?thesis by (intro mlex_less) simp
  next
    case False
    then have "omap_get_or [] deps d = []"
      using map_of_eq_None_iff [of deps d] by (simp add: omap_get_or_def)
    moreover have "card (dfs_white deps (omap_put d 1 col)) \<le> card (dfs_white deps col)"
      using sub by (intro card_mono) (auto simp: dfs_white_def)
    ultimately show ?thesis by (intro mlex_leq) simp_all
  qed
next
  fix deps :: "(ComputeTaskId, ComputeTaskId list) omap" and col y :: colors and d x and ds :: "ComputeTaskId list"
  assume dom: "dfs_deps_dom (deps, omap_put d 1 col, omap_get_or [] deps d)"
    and eq: "(x, y) = dfs_deps deps (omap_put d 1 col) (omap_get_or [] deps d)" "x = False"
  have "k \<noteq> d \<Longrightarrow> omap_get_or 0 y k = 0 \<Longrightarrow> omap_get_or 0 col k = 0" for k
    using dfs_deps_grows [OF dom, of k] eq(1) by (metis snd_conv omap_get_or_put)
  then have "dfs_white deps (omap_put d 2 y) \<subseteq> dfs_white deps col"
    by (auto simp: dfs_white_def split: if_splits)
  then have "card (dfs_white deps (omap_put d 2 y)) \<le> card (dfs_white deps col)"
    by (intro card_mono) (auto simp: dfs_white_def)
  then show "((deps, omap_put d 2 y, ds), (deps, col, d # ds))
    \<in> (\<lambda>(deps, col, ds). card (dfs_white deps col)) <*mlex*> measure (\<lambda>(deps, col, ds). length ds)"
    by (intro mlex_leq) simp_all
next
  fix deps :: "(ComputeTaskId, ComputeTaskId list) omap" and col :: colors and d and ds :: "ComputeTaskId list"
  show "((deps, col, ds), (deps, col, d # ds))
    \<in> (\<lambda>(deps, col, ds). card (dfs_white deps col)) <*mlex*> measure (\<lambda>(deps, col, ds). length ds)"
    by (intro mlex_leq) simp_all
qed

definition dfs :: "(ComputeTaskId, ComputeTaskId list) omap \<Rightarrow> ComputeTaskId \<Rightarrow> bool" where
  "dfs deps i = fst (dfs_deps deps (omap_put i 1 []) (omap_get_or [] deps i))"

definition validate_dependencies :: "TaskGraph \<Rightarrow> ComputeTaskId \<Rightarrow> unit result" where
  "validate_dependencies g i =
     (if \<not> omap_has (g_tasks g) i then fail_with E_TaskNotFound ''task not found in graph''
      else if dfs (g_deps g) i then fail_with E_DependencyCycle ''dependency cycle detected''
      else Inr ())"

definition add_edge :: "ComputeTaskId \<Rightarrow> ComputeTaskId \<Rightarrow> TaskGraph \<Rightarrow> TaskGraph" where
  "add_edge i d g = g\<lparr>
     g_deps := omap_put i (oset_insert d (omap_get_or [] (g_deps g) i)) (g_deps g),
     g_dependents := omap_put d (oset_insert i (omap_get_or [] (g_dependents g) d)) (g_dependents g)\<rparr>"

definition insert_task :: "ComputeTask \<Rightarrow> TaskGraph \<Rightarrow> TaskGraph" where
  "insert_task task g =
     fold (add_edge (t_id task)) (t_dependencies task)
       (g\<lparr>g_tasks := omap_put (t_id task) task (g_tasks g),
          g_states := omap_put (t_id task) TS_Submitted (g_states g),
          g_deps := omap_put (t_id task) (omap_get_or [] (g_deps g) (t_id task)) (g_deps g)\<rparr>)"

definition drop_dependent :: "ComputeTaskId \<Rightarrow> ComputeTaskId \<Rightarrow> TaskGraph \<Rightarrow> TaskGraph" where
  "drop_dependent i d g =
     g\<lparr>g_dependents := omap_put d (oset_del i (omap_get_or [] (g_dependents g) d)) (g_dependents g)\<rparr>"

definition erase_task :: "ComputeTaskId \<Rightarrow> TaskGraph \<Rightarrow> TaskGraph" where
  "erase_task i g = g\<lparr>
     g_deps := omap_del i (g_deps g), g_dependents := omap_del i (g_dependents g),
     g_states := omap_del i (g_states g), g_tasks := omap_del i (g_tasks g)\<rparr>"

definition add_task :: "ComputeTask \<Rightarrow> TaskGraph \<Rightarrow> unit result \<times> TaskGraph" where
  "add_task task g =
     (let i = t_id task in
      if omap_has (g_tasks g) i then (fail_with E_AlreadyExists ''task already present in graph'', g)
      else if i \<in> set (t_dependencies task) then (fail_with E_SelfDependency ''task depends on itself'', g)
      else
        let g1 = insert_task task g in
        case validate_dependencies g1 i of
          Inl e \<Rightarrow> (Inl e, erase_task i (fold (drop_dependent i) (t_dependencies task) g1))
        | Inr _ \<Rightarrow> (Inr (), g1))"

definition remove_task :: "ComputeTaskId \<Rightarrow> TaskGraph \<Rightarrow> unit result \<times> TaskGraph" where
  "remove_task i g =
     (if \<not> omap_has (g_tasks g) i then (fail_with E_TaskNotFound ''task not found'', g)
      else if omap_get_or [] (g_dependents g) i \<noteq> [] then (fail_with E_InvalidState ''task has dependents'', g)
      else (Inr (), erase_task i (fold (drop_dependent i) (omap_get_or [] (g_deps g) i) g)))"

definition dependencies_satisfied :: "TaskGraph \<Rightarrow> ComputeTaskId \<Rightarrow> bool" where
  "dependencies_satisfied g i =
     (case map_of (g_deps g) i of None \<Rightarrow> True
      | Some ds \<Rightarrow> list_all (\<lambda>d. map_of (g_states g) d = Some TS_Succeeded) ds)"

definition dependency_poisoned :: "TaskGraph \<Rightarrow> ComputeTaskId \<Rightarrow> bool" where
  "dependency_poisoned g i =
     (case map_of (g_deps g) i of None \<Rightarrow> False
      | Some ds \<Rightarrow> list_ex (\<lambda>d. case map_of (g_states g) d of None \<Rightarrow> False
          | Some s \<Rightarrow> s = TS_Failed \<or> s = TS_Lost \<or> s = TS_Cancelled \<or> s = TS_Expired) ds)"

definition task_ids :: "TaskGraph \<Rightarrow> ComputeTaskId list" where
  "task_ids g = map fst (g_tasks g)"

definition set_state :: "ComputeTaskId \<Rightarrow> TaskState \<Rightarrow> TaskGraph \<Rightarrow> unit result \<times> TaskGraph" where
  "set_state i s g =
     (case map_of (g_states g) i of
        None \<Rightarrow> (fail_with E_TaskNotFound ''task not found'', g)
      | Some cur \<Rightarrow>
          if \<not> is_legal cur s then (Inl (illegal_transition cur s), g)
          else (Inr (), g\<lparr>g_states := omap_put i s (g_states g)\<rparr>))"

definition restore_state :: "ComputeTaskId \<Rightarrow> TaskState \<Rightarrow> TaskGraph \<Rightarrow> TaskGraph" where
  "restore_state i s g =
     (case map_of (g_states g) i of None \<Rightarrow> g | Some _ \<Rightarrow> g\<lparr>g_states := omap_put i s (g_states g)\<rparr>)"

definition task_state :: "TaskGraph \<Rightarrow> ComputeTaskId \<Rightarrow> TaskState" where
  "task_state g i = (case map_of (g_states g) i of None \<Rightarrow> TS_Submitted | Some s \<Rightarrow> s)"

text \<open>
  \<open>topological_order\<close> in its three loops: counting, releasing the users of a finished task,
  and taking the least ready task. \<open>deps_.at(id)\<close> throws when the key is absent; that outcome
  is \<open>None\<close>.
\<close>

fun topo_init :: "(ComputeTaskId, ComputeTaskId list) omap \<Rightarrow> ComputeTaskId list \<Rightarrow>
    (ComputeTaskId, int) omap \<Rightarrow> (ComputeTaskId, ComputeTaskId list) omap \<Rightarrow>
    ((ComputeTaskId, int) omap \<times> (ComputeTaskId, ComputeTaskId list) omap) option" where
  "topo_init deps [] indegree out = Some (indegree, out)"
| "topo_init deps (i # is) indegree out =
     (case map_of deps i of
        None \<Rightarrow> None
      | Some ds \<Rightarrow> topo_init deps is (omap_put i (int (length ds)) indegree)
                    (fold (\<lambda>d out. omap_put d (omap_get_or [] out d @ [i]) out) ds out))"

fun topo_relax :: "ComputeTaskId list \<Rightarrow> (ComputeTaskId, int) omap \<Rightarrow> ComputeTaskId list \<Rightarrow>
    (ComputeTaskId, int) omap \<times> ComputeTaskId list" where
  "topo_relax [] indegree ready = (indegree, ready)"
| "topo_relax (n # ns) indegree ready =
     (let v = omap_get_or 0 indegree n - 1 in
      topo_relax ns (omap_put n v indegree) (if v = 0 then oset_insert n ready else ready))"

definition topo_pending :: "(ComputeTaskId, int) omap \<Rightarrow> nat" where
  "topo_pending indegree = card {k \<in> fst ` set indegree. 0 < omap_get_or 0 indegree k}"

function topo_loop :: "(ComputeTaskId, ComputeTaskId list) omap \<Rightarrow> (ComputeTaskId, int) omap \<Rightarrow>
    ComputeTaskId list \<Rightarrow> ComputeTaskId list \<Rightarrow> ComputeTaskId list" where
  "topo_loop out indegree [] order = order"
| "topo_loop out indegree (cur # ready) order =
     (case topo_relax (omap_get_or [] out cur) indegree ready of
        (indegree', ready') \<Rightarrow> topo_loop out indegree' ready' (order @ [cur]))"
  by pat_completeness auto

definition topological_order :: "TaskGraph \<Rightarrow> ComputeTaskId list result option" where
  "topological_order g =
     (case topo_init (g_deps g) (map fst (g_tasks g)) [] [] of
        None \<Rightarrow> None
      | Some (indegree, out) \<Rightarrow>
          let order = topo_loop out indegree (map fst (filter (\<lambda>e. snd e = 0) indegree)) [] in
          Some (if length order \<noteq> length (g_tasks g)
                then fail_with E_DependencyCycle ''cycle detected in task graph'' else Inr order))"

lemma length_oset_insert: "length (oset_insert x xs) \<le> Suc (length xs)"
  by (induction xs) auto

lemma topo_relax_decreases:
  "topo_relax ns indegree ready = (indegree', ready') \<Longrightarrow>
   topo_pending indegree' + length ready' \<le> topo_pending indegree + length ready"
proof (induction ns indegree ready rule: topo_relax.induct)
  case (2 n ns indegree ready)
  let ?v = "omap_get_or 0 indegree n - 1"
  let ?pos = "\<lambda>ind. {k \<in> fst ` set ind. 0 < omap_get_or 0 ind k}"
  have key: "omap_get_or 0 indegree n \<noteq> 0 \<longrightarrow> n \<in> fst ` set indegree"
    by (metis omap_get_or_absent omap_has_keys)
  then have sub: "?pos (omap_put n ?v indegree) \<subseteq> ?pos indegree" by (auto split: if_splits)
  have "topo_pending (omap_put n ?v indegree) \<le> topo_pending indegree"
    unfolding topo_pending_def by (rule card_mono [OF _ sub]) simp
  moreover have "topo_pending (omap_put n ?v indegree) < topo_pending indegree" if "?v = 0"
  proof -
    have "n \<in> ?pos indegree" "n \<notin> ?pos (omap_put n ?v indegree)"
      using that key by auto
    then show ?thesis unfolding topo_pending_def
      by (intro psubset_card_mono) (use sub in auto)
  qed
  ultimately show ?case
    using "2.IH" [OF refl] "2.prems" length_oset_insert [of n ready] by (auto simp: Let_def split: if_splits)
qed simp

termination topo_loop
proof (relation "measure (\<lambda>(out, indegree, ready, order). topo_pending indegree + length ready)", goal_cases)
  case (2 out indegree cur ready order x y)
  then show ?case using topo_relax_decreases [of "omap_get_or [] out cur" indegree ready x y] by simp
qed simp

section \<open>The cycle search\<close>

definition dep_edge :: "(ComputeTaskId, ComputeTaskId list) omap \<Rightarrow> ComputeTaskId \<Rightarrow> ComputeTaskId \<Rightarrow> bool" where
  "dep_edge deps a b = (b \<in> set (omap_get_or [] deps a))"

definition cyclic_from :: "(ComputeTaskId, ComputeTaskId list) omap \<Rightarrow> ComputeTaskId \<Rightarrow> bool" where
  "cyclic_from deps i = (\<exists>c. (dep_edge deps)\<^sup>*\<^sup>* i c \<and> (dep_edge deps)\<^sup>+\<^sup>+ c c)"

definition dfs_black :: "colors \<Rightarrow> ComputeTaskId \<Rightarrow> bool" where
  "dfs_black col k = (omap_get_or 0 col k \<noteq> 0 \<and> omap_get_or 0 col k \<noteq> 1)"

text \<open>Black nodes only lead to black nodes, and none of them is on a cycle.\<close>

definition dfs_inv :: "(ComputeTaskId, ComputeTaskId list) omap \<Rightarrow> colors \<Rightarrow> bool" where
  "dfs_inv deps col =
     (\<forall>b. dfs_black col b \<longrightarrow>
        (\<forall>s. dep_edge deps b s \<longrightarrow> dfs_black col s) \<and> \<not> (dep_edge deps)\<^sup>+\<^sup>+ b b)"

text \<open>Induction over a search that finds no cycle.\<close>

lemma dfs_deps_induct_no_cycle [consumes 1, case_names Nil white black]:
  assumes "dfs_deps deps col ds = (False, col')"
    and "\<And>col. P col [] col"
    and "\<And>col d ds col1 col'. omap_get_or 0 col d = 0 \<Longrightarrow>
      dfs_deps deps (omap_put d 1 col) (omap_get_or [] deps d) = (False, col1) \<Longrightarrow>
      P (omap_put d 1 col) (omap_get_or [] deps d) col1 \<Longrightarrow>
      dfs_deps deps (omap_put d 2 col1) ds = (False, col') \<Longrightarrow> P (omap_put d 2 col1) ds col' \<Longrightarrow>
      P col (d # ds) col'"
    and "\<And>col d ds col'. omap_get_or 0 col d \<noteq> 0 \<Longrightarrow> omap_get_or 0 col d \<noteq> 1 \<Longrightarrow>
      dfs_deps deps col ds = (False, col') \<Longrightarrow> P col ds col' \<Longrightarrow> P col (d # ds) col'"
  shows "P col ds col'"
  using assms
proof (induction deps col ds arbitrary: col' rule: dfs_deps.induct)
  case (1 deps col)
  then show ?case by simp
next
  case (2 deps col d ds)
  note P = "2.prems"
  show ?case
  proof (cases "omap_get_or 0 col d = 0")
    case True
    obtain b col1 where r: "dfs_deps deps (omap_put d 1 col) (omap_get_or [] deps d) = (b, col1)"
      by (rule prod.exhaust)
    then have b: "\<not> b" "dfs_deps deps (omap_put d 2 col1) ds = (False, col')"
      using P(1) True by (auto split: bool.splits)
    have ne: "omap_get_or 0 col d \<noteq> 1" using True by simp
    have r': "dfs_deps deps (omap_put d 1 col) (omap_get_or [] deps d) = (False, col1)" using r b by simp
    show ?thesis
      by (rule P(3) [OF True r' "2.IH"(1) [OF ne True r' P(2,3,4)] b(2)
            "2.IH"(2) [OF ne True r' [symmetric] refl b(2) P(2,3,4)]])
  next
    case False
    then have "omap_get_or 0 col d \<noteq> 1" "dfs_deps deps col ds = (False, col')"
      using P(1) by (auto split: if_splits)
    then show ?thesis using False by (intro P(4) "2.IH"(3) [OF _ _ _ P(2,3,4)])
  qed
qed

lemma dfs_deps_stack:
  assumes "dfs_deps deps col ds = (False, col')"
  shows "omap_get_or 0 col k \<noteq> 0 \<Longrightarrow> omap_get_or 0 col' k = omap_get_or 0 col k"
    "omap_get_or 0 col' k = 1 \<Longrightarrow> omap_get_or 0 col k = 1"
proof -
  from assms have "(omap_get_or 0 col k \<noteq> 0 \<longrightarrow> omap_get_or 0 col' k = omap_get_or 0 col k) \<and>
    (omap_get_or 0 col' k = 1 \<longrightarrow> omap_get_or 0 col k = 1)"
  proof (induction rule: dfs_deps_induct_no_cycle)
    case (white col d ds col1 col')
    show ?case
    proof (cases "k = d")
      case True
      then show ?thesis using white.hyps(1) white.IH(2) by simp
    next
      case False
      then show ?thesis using white.IH unfolding omap_get_or_put by metis
    qed
  next
    case (black col d ds col')
    show ?case using black.IH .
  qed simp
  then show "omap_get_or 0 col k \<noteq> 0 \<Longrightarrow> omap_get_or 0 col' k = omap_get_or 0 col k"
    "omap_get_or 0 col' k = 1 \<Longrightarrow> omap_get_or 0 col k = 1" by blast+
qed

lemma dfs_deps_all_black:
  "dfs_deps deps col ds = (False, col') \<Longrightarrow> d \<in> set ds \<Longrightarrow> dfs_black col' d"
proof (induction rule: dfs_deps_induct_no_cycle)
  case (white col e ds col1 col')
  then show ?case using dfs_deps_stack(1) [OF white.hyps(3), of e] by (auto simp: dfs_black_def)
next
  case (black col e ds col')
  then show ?case using dfs_deps_stack(1) [OF black.hyps(3), of e] by (auto simp: dfs_black_def)
qed simp

lemma dfs_deps_inv:
  "dfs_deps deps col ds = (False, col') \<Longrightarrow> dfs_inv deps col \<Longrightarrow> dfs_inv deps col'"
proof (induction rule: dfs_deps_induct_no_cycle)
  case (white col d ds col1 col')
  have "dfs_black (omap_put d 1 col) b \<longleftrightarrow> dfs_black col b" for b
    using white(1) by (auto simp: dfs_black_def)
  then have "dfs_inv deps (omap_put d 1 col)" using white.prems by (simp add: dfs_inv_def)
  then have inv1: "dfs_inv deps col1" by (rule white.IH(1))
  have grey: "\<not> dfs_black col1 d"
    using dfs_deps_stack(1) [OF white.hyps(2), of d] by (simp add: dfs_black_def)
  have succ: "dep_edge deps d s \<Longrightarrow> dfs_black col1 s" for s
    using dfs_deps_all_black [OF white.hyps(2)] by (simp add: dep_edge_def)
  have closed: "(dep_edge deps)\<^sup>*\<^sup>* b x \<Longrightarrow> dfs_black col1 b \<Longrightarrow> dfs_black col1 x" for b x
    by (induction rule: rtranclp_induct) (use inv1 in \<open>auto simp: dfs_inv_def\<close>)
  then have "\<not> (dep_edge deps)\<^sup>+\<^sup>+ d d" using succ grey by (blast dest: tranclpD)
  moreover have "dfs_black (omap_put d 2 col1) b \<longleftrightarrow> b = d \<or> dfs_black col1 b" for b
    by (auto simp: dfs_black_def)
  ultimately have "dfs_inv deps (omap_put d 2 col1)"
    using inv1 succ by (auto simp: dfs_inv_def)
  then show ?case by (rule white.IH(2))
qed auto

lemma dfs_deps_sound:
  "fst (dfs_deps deps col ds) \<Longrightarrow> (\<And>d. d \<in> set ds \<Longrightarrow> dep_edge deps cur d) \<Longrightarrow>
   (\<And>k. omap_get_or 0 col k = 1 \<Longrightarrow> (dep_edge deps)\<^sup>*\<^sup>* k cur) \<Longrightarrow> cyclic_from deps cur"
proof (induction deps col ds arbitrary: cur rule: dfs_deps.induct)
  case (2 deps col d ds)
  have edge: "dep_edge deps cur d" using "2.prems"(2) by simp
  consider "omap_get_or 0 col d = 1" | "omap_get_or 0 col d = 0" | "omap_get_or 0 col d \<noteq> 0" "omap_get_or 0 col d \<noteq> 1"
    by auto
  then show ?case
  proof cases
    case 1
    then have "(dep_edge deps)\<^sup>*\<^sup>* d cur" using "2.prems"(3) by blast
    then have "(dep_edge deps)\<^sup>+\<^sup>+ d d" using edge by (rule rtranclp_into_tranclp1)
    then show ?thesis using edge unfolding cyclic_from_def by blast
  next
    case white: 2
    obtain b col1 where r: "dfs_deps deps (omap_put d 1 col) (omap_get_or [] deps d) = (b, col1)"
      by (cases "dfs_deps deps (omap_put d 1 col) (omap_get_or [] deps d)") auto
    show ?thesis
    proof (cases b)
      case True
      have "cyclic_from deps d"
      proof (rule "2.IH"(1))
        show "\<And>k. omap_get_or 0 (omap_put d 1 col) k = 1 \<Longrightarrow> (dep_edge deps)\<^sup>*\<^sup>* k d"
          using "2.prems"(3) edge by (auto split: if_splits intro: rtranclp.rtrancl_into_rtrancl)
      qed (use white r True in \<open>auto simp: dep_edge_def\<close>)
      then show ?thesis using edge unfolding cyclic_from_def by (meson converse_rtranclp_into_rtranclp)
    next
      case False
      have "fst (dfs_deps deps (omap_put d 2 col1) ds)" using "2.prems"(1) white r False by simp
      moreover have "\<And>k. omap_get_or 0 (omap_put d 2 col1) k = 1 \<Longrightarrow> (dep_edge deps)\<^sup>*\<^sup>* k cur"
      proof -
        fix k assume "omap_get_or 0 (omap_put d 2 col1) k = 1"
        then have k: "k \<noteq> d" "omap_get_or 0 col1 k = 1" by (auto split: if_splits)
        have "dfs_deps deps (omap_put d 1 col) (omap_get_or [] deps d) = (False, col1)" using r False by simp
        from dfs_deps_stack(2) [OF this k(2)] k(1) show "(dep_edge deps)\<^sup>*\<^sup>* k cur"
          by (intro "2.prems"(3)) simp
      qed
      ultimately show ?thesis
        using "2.IH"(2) [of b col1 cur] white r False "2.prems"(2) by auto
    qed
  next
    case 3
    then show ?thesis using "2.IH"(3) "2.prems" by simp
  qed
qed simp

theorem dfs_iff: "dfs deps i \<longleftrightarrow> cyclic_from deps i"
proof
  assume "dfs deps i"
  then show "cyclic_from deps i" unfolding dfs_def
    by (rule dfs_deps_sound) (auto simp: dep_edge_def omap_get_or_def split: if_splits)
next
  assume cyc: "cyclic_from deps i"
  show "dfs deps i"
  proof (rule ccontr)
    assume "\<not> dfs deps i"
    then obtain col where col: "dfs_deps deps (omap_put i 1 []) (omap_get_or [] deps i) = (False, col)"
      unfolding dfs_def by (metis (full_types) prod.collapse)
    have inv: "dfs_inv deps col"
      by (rule dfs_deps_inv [OF col]) (simp add: dfs_inv_def dfs_black_def omap_get_or_def)
    have succ: "dep_edge deps i s \<Longrightarrow> dfs_black col s" for s
      using dfs_deps_all_black [OF col] by (simp add: dep_edge_def)
    have "(dep_edge deps)\<^sup>+\<^sup>+ i c \<Longrightarrow> dfs_black col c" for c
      by (induction rule: tranclp_induct) (use inv succ in \<open>auto simp: dfs_inv_def\<close>)
    moreover from cyc obtain c where "(dep_edge deps)\<^sup>*\<^sup>* i c" "(dep_edge deps)\<^sup>+\<^sup>+ c c"
      unfolding cyclic_from_def by blast
    ultimately show False
      using inv by (metis dfs_inv_def rtranclp_tranclp_tranclp)
  qed
qed

section \<open>The graph invariant\<close>

definition acyclic_deps :: "(ComputeTaskId, ComputeTaskId list) omap \<Rightarrow> bool" where
  "acyclic_deps deps = (\<forall>c. \<not> (dep_edge deps)\<^sup>+\<^sup>+ c c)"

definition graph_inv :: "TaskGraph \<Rightarrow> bool" where
  "graph_inv g =
     (omap_ok (g_tasks g) \<and> omap_ok (g_states g) \<and> omap_ok (g_deps g) \<and> omap_ok (g_dependents g) \<and>
      (\<forall>i. omap_has (g_states g) i = omap_has (g_tasks g) i) \<and>
      (\<forall>i. omap_has (g_deps g) i = omap_has (g_tasks g) i) \<and>
      (\<forall>i t. find_task g i = Some t \<longrightarrow> t_id t = i \<and> set (dependencies g i) = set (t_dependencies t)) \<and>
      (\<forall>i. sorted_wrt (<) (dependencies g i)) \<and> (\<forall>i. sorted_wrt (<) (dependents g i)) \<and>
      (\<forall>d u. u \<in> set (dependents g d) \<longrightarrow> d \<in> set (dependencies g u)) \<and>
      acyclic_deps (g_deps g))"

lemma dependencies_get_or: "dependencies g i = omap_get_or [] (g_deps g) i"
  by (simp add: dependencies_def omap_get_or_def)

lemma dependents_get_or: "dependents g i = omap_get_or [] (g_dependents g) i"
  by (simp add: dependents_def omap_get_or_def)

lemma dep_edge_dependencies: "dep_edge (g_deps g) a b \<longleftrightarrow> b \<in> set (dependencies g a)"
  by (simp add: dep_edge_def dependencies_get_or)

lemma graph_inv_fresh:
  assumes "graph_inv g" "\<not> has_task g i"
  shows "map_of (g_tasks g) i = None" "map_of (g_states g) i = None" "map_of (g_deps g) i = None"
    "dependencies g i = []" "i \<notin> set (dependents g d)"
proof -
  have "\<not> omap_has (g_tasks g) i" "\<not> omap_has (g_states g) i" "\<not> omap_has (g_deps g) i"
    using assms by (simp_all add: graph_inv_def has_task_def)
  then show "map_of (g_tasks g) i = None" "map_of (g_states g) i = None" "map_of (g_deps g) i = None"
    and deps: "dependencies g i = []"
    by (simp_all add: omap_has_def dependencies_def)
  show "i \<notin> set (dependents g d)" using assms(1) deps by (force simp: graph_inv_def)
qed

lemma add_edge_simps [simp]:
  "g_tasks (add_edge i d g) = g_tasks g" "g_states (add_edge i d g) = g_states g"
  "omap_ok (g_deps g) \<Longrightarrow> omap_ok (g_deps (add_edge i d g))"
  "omap_ok (g_dependents g) \<Longrightarrow> omap_ok (g_dependents (add_edge i d g))"
  "omap_has (g_deps (add_edge i d g)) k \<longleftrightarrow> k = i \<or> omap_has (g_deps g) k"
  "dependencies (add_edge i d g) k = (if k = i then oset_insert d (dependencies g i) else dependencies g k)"
  "dependents (add_edge i d g) k = (if k = d then oset_insert i (dependents g d) else dependents g k)"
  by (simp_all add: add_edge_def dependencies_get_or dependents_get_or)

lemma fold_add_edge:
  "g_tasks (fold (add_edge i) ds g) = g_tasks g"
  "g_states (fold (add_edge i) ds g) = g_states g"
  "omap_ok (g_deps g) \<Longrightarrow> omap_ok (g_deps (fold (add_edge i) ds g))"
  "omap_ok (g_dependents g) \<Longrightarrow> omap_ok (g_dependents (fold (add_edge i) ds g))"
  "omap_has (g_deps g) i \<Longrightarrow> omap_has (g_deps (fold (add_edge i) ds g)) k = omap_has (g_deps g) k"
  "set (dependencies (fold (add_edge i) ds g) k) = set (dependencies g k) \<union> (if k = i then set ds else {})"
  "set (dependents (fold (add_edge i) ds g) k) = set (dependents g k) \<union> (if k \<in> set ds then {i} else {})"
  "(\<And>k. sorted_wrt (<) (dependencies g k)) \<Longrightarrow> sorted_wrt (<) (dependencies (fold (add_edge i) ds g) k)"
  "(\<And>k. sorted_wrt (<) (dependents g k)) \<Longrightarrow> sorted_wrt (<) (dependents (fold (add_edge i) ds g) k)"
  by (induction ds arbitrary: g) auto

lemma insert_task_simps:
  assumes "graph_inv g" "\<not> has_task g (t_id task)"
  shows "g_tasks (insert_task task g) = omap_put (t_id task) task (g_tasks g)"
    "g_states (insert_task task g) = omap_put (t_id task) TS_Submitted (g_states g)"
    "omap_ok (g_deps (insert_task task g))" "omap_ok (g_dependents (insert_task task g))"
    "omap_has (g_deps (insert_task task g)) k \<longleftrightarrow> k = t_id task \<or> omap_has (g_deps g) k"
    "set (dependencies (insert_task task g) k) =
       (if k = t_id task then set (t_dependencies task) else set (dependencies g k))"
    "set (dependents (insert_task task g) k) =
       set (dependents g k) \<union> (if k \<in> set (t_dependencies task) then {t_id task} else {})"
    "sorted_wrt (<) (dependencies (insert_task task g) k)"
    "sorted_wrt (<) (dependents (insert_task task g) k)"
proof -
  let ?i = "t_id task"
  have "omap_get_or [] (g_deps g) ?i = []"
    using assms by (simp add: graph_inv_def has_task_def omap_get_or_absent)
  then have base: "insert_task task g = fold (add_edge ?i) (t_dependencies task)
    (g\<lparr>g_tasks := omap_put ?i task (g_tasks g), g_states := omap_put ?i TS_Submitted (g_states g),
       g_deps := omap_put ?i [] (g_deps g)\<rparr>)"
    by (simp add: insert_task_def)
  have old: "omap_get_or [] (g_deps g) ?i = []" by fact
  note inv = assms(1) [unfolded graph_inv_def]
  show "g_tasks (insert_task task g) = omap_put ?i task (g_tasks g)"
    "g_states (insert_task task g) = omap_put ?i TS_Submitted (g_states g)"
    "omap_ok (g_deps (insert_task task g))" "omap_ok (g_dependents (insert_task task g))"
    "omap_has (g_deps (insert_task task g)) k \<longleftrightarrow> k = ?i \<or> omap_has (g_deps g) k"
    using inv by (simp_all add: base fold_add_edge)
  show "set (dependencies (insert_task task g) k) =
       (if k = ?i then set (t_dependencies task) else set (dependencies g k))"
    "set (dependents (insert_task task g) k) =
       set (dependents g k) \<union> (if k \<in> set (t_dependencies task) then {?i} else {})"
    unfolding base by (simp_all add: fold_add_edge) (simp_all add: dependencies_get_or dependents_get_or)
  show "sorted_wrt (<) (dependencies (insert_task task g) k)"
    "sorted_wrt (<) (dependents (insert_task task g) k)"
    unfolding base using inv
    by (intro fold_add_edge; simp add: dependencies_get_or dependents_get_or)+
qed

text \<open>A cycle that a new node closes passes through that node.\<close>

lemma acyclic_insert:
  assumes "acyclic_deps deps" "\<not> cyclic_from deps' i"
    and edges: "\<And>a b. dep_edge deps' a b \<Longrightarrow> a \<noteq> i \<Longrightarrow> dep_edge deps a b"
  shows "acyclic_deps deps'"
proof -
  have step: "(dep_edge deps')\<^sup>+\<^sup>+ a b \<Longrightarrow>
      (dep_edge deps)\<^sup>+\<^sup>+ a b \<or> ((dep_edge deps')\<^sup>*\<^sup>* a i \<and> (dep_edge deps')\<^sup>+\<^sup>+ i b)" for a b
  proof (induction rule: tranclp_induct)
    case (base b)
    then show ?case using edges by (cases "a = i") auto
  next
    case (step b c)
    then show ?case
      using edges by (cases "b = i") (auto dest: tranclp_into_rtranclp intro: tranclp.trancl_into_trancl)
  qed
  have "\<not> (dep_edge deps')\<^sup>+\<^sup>+ c c" for c
    using step [of c c] assms(1,2) unfolding acyclic_deps_def cyclic_from_def
    by (meson tranclp_rtranclp_tranclp rtranclp.rtrancl_refl)
  then show ?thesis by (simp add: acyclic_deps_def)
qed

lemma insert_task_edges:
  assumes "graph_inv g" "\<not> has_task g (t_id task)"
  shows "dep_edge (g_deps (insert_task task g)) a b \<longleftrightarrow>
    (if a = t_id task then b \<in> set (t_dependencies task) else dep_edge (g_deps g) a b)"
  using insert_task_simps(6) [OF assms, of a] by (simp add: dep_edge_dependencies)

lemma insert_task_acyclic_iff:
  assumes "graph_inv g" "\<not> has_task g (t_id task)"
  shows "acyclic_deps (g_deps (insert_task task g)) \<longleftrightarrow> \<not> cyclic_from (g_deps (insert_task task g)) (t_id task)"
proof
  assume "\<not> cyclic_from (g_deps (insert_task task g)) (t_id task)"
  moreover have "acyclic_deps (g_deps g)" using assms(1) by (simp add: graph_inv_def)
  ultimately show "acyclic_deps (g_deps (insert_task task g))"
    using acyclic_insert [of "g_deps g" "g_deps (insert_task task g)" "t_id task"]
    by (simp add: insert_task_edges [OF assms])
next
  assume "acyclic_deps (g_deps (insert_task task g))"
  then show "\<not> cyclic_from (g_deps (insert_task task g)) (t_id task)"
    unfolding acyclic_deps_def cyclic_from_def by blast
qed

lemma validate_insert_task:
  assumes "graph_inv g" "\<not> has_task g (t_id task)"
  shows "validate_dependencies (insert_task task g) (t_id task) =
    (if acyclic_deps (g_deps (insert_task task g)) then Inr ()
     else fail_with E_DependencyCycle ''dependency cycle detected'')"
  using insert_task_simps(1) [OF assms]
  by (simp add: validate_dependencies_def dfs_iff insert_task_acyclic_iff [OF assms])

lemma insert_task_inv:
  assumes "graph_inv g" "\<not> has_task g (t_id task)" "acyclic_deps (g_deps (insert_task task g))"
  shows "graph_inv (insert_task task g)"
  unfolding graph_inv_def
proof (intro conjI allI impI)
  note ins = insert_task_simps [OF assms(1,2)]
  note inv = assms(1) [unfolded graph_inv_def]
  fix d u assume "u \<in> set (dependents (insert_task task g) d)"
  moreover have "u = t_id task \<Longrightarrow> u \<notin> set (dependents g d)"
    using graph_inv_fresh(5) [OF assms(1,2)] by simp
  ultimately show "d \<in> set (dependencies (insert_task task g) u)"
    using inv by (auto simp: ins split: if_splits)
next
  note ins = insert_task_simps [OF assms(1,2)]
  note inv = assms(1) [unfolded graph_inv_def]
  fix i t assume "find_task (insert_task task g) i = Some t"
  then show "t_id t = i" "set (dependencies (insert_task task g) i) = set (t_dependencies t)"
    using inv by (auto simp: ins find_task_def split: if_splits)
qed (use assms insert_task_simps [OF assms(1,2)] in \<open>auto simp: graph_inv_def\<close>)

section \<open>Rolling back a rejected insertion\<close>

lemma drop_dependent_simps [simp]:
  "g_tasks (drop_dependent i d g) = g_tasks g" "g_states (drop_dependent i d g) = g_states g"
  "g_deps (drop_dependent i d g) = g_deps g"
  "omap_ok (g_dependents g) \<Longrightarrow> omap_ok (g_dependents (drop_dependent i d g))"
  "dependents (drop_dependent i d g) k = (if k = d then oset_del i (dependents g d) else dependents g k)"
  by (simp_all add: drop_dependent_def dependents_get_or)

lemma fold_drop_dependent:
  "g_tasks (fold (drop_dependent i) ds g) = g_tasks g"
  "g_states (fold (drop_dependent i) ds g) = g_states g"
  "g_deps (fold (drop_dependent i) ds g) = g_deps g"
  "omap_ok (g_dependents g) \<Longrightarrow> omap_ok (g_dependents (fold (drop_dependent i) ds g))"
  "dependents (fold (drop_dependent i) ds g) k =
     (if k \<in> set ds then oset_del i (dependents g k) else dependents g k)"
  by (induction ds arbitrary: g) (auto simp: oset_del_def)

lemma erase_task_simps [simp]:
  "g_tasks (erase_task i g) = omap_del i (g_tasks g)" "g_states (erase_task i g) = omap_del i (g_states g)"
  "g_deps (erase_task i g) = omap_del i (g_deps g)"
  "g_dependents (erase_task i g) = omap_del i (g_dependents g)"
  "dependents (erase_task i g) k = (if k = i then [] else dependents g k)"
  "dependencies (erase_task i g) k = (if k = i then [] else dependencies g k)"
  by (simp_all add: erase_task_def dependents_get_or dependencies_get_or)

lemma sorted_wrt_less_set_eq: "sorted_wrt (<) xs \<Longrightarrow> sorted_wrt (<) ys \<Longrightarrow> set xs = set ys \<Longrightarrow> xs = (ys :: 'a::linorder list)"
  by (rule strict_sorted_equal)

text \<open>
  The rollback restores tasks, states and dependencies; of the dependents it forgets those that
  were recorded for the rejected task itself.
\<close>

lemma rollback_simps:
  assumes "graph_inv g" "\<not> has_task g (t_id task)"
  defines "g' \<equiv> erase_task (t_id task) (fold (drop_dependent (t_id task)) (t_dependencies task) (insert_task task g))"
  shows "g_tasks g' = g_tasks g" "g_states g' = g_states g" "g_deps g' = g_deps g"
    "dependents g' k = (if k = t_id task then [] else dependents g k)"
    "omap_ok (g_dependents g')"
proof -
  let ?i = "t_id task"
  note ins = insert_task_simps [OF assms(1,2)]
  note inv = assms(1) [unfolded graph_inv_def]
  note fresh = graph_inv_fresh [OF assms(1,2)]
  show "g_tasks g' = g_tasks g" "g_states g' = g_states g"
    using inv fresh by (simp_all add: g'_def fold_drop_dependent ins om.del_put)
  have "map_of (g_deps (insert_task task g)) k = map_of (g_deps g) k" if "k \<noteq> ?i" for k
  proof -
    have "dependencies (insert_task task g) k = dependencies g k"
      using that inv ins(6,8) by (intro sorted_wrt_less_set_eq) auto
    then show ?thesis using ins(5) [of k] that
      by (auto simp: dependencies_def omap_has_def split: option.splits)
  qed
  then show "g_deps g' = g_deps g"
    using fresh inv ins(3) by (intro omap_eqI) (auto simp: g'_def fold_drop_dependent)
  show "omap_ok (g_dependents g')" using ins(4) by (simp add: g'_def fold_drop_dependent)
  have "k \<noteq> ?i \<Longrightarrow> dependents g' k = dependents g k"
    using inv ins(7,9) [of k] fresh(5) [of k]
    by (intro sorted_wrt_less_set_eq) (auto simp: g'_def fold_drop_dependent)
  then show "dependents g' k = (if k = ?i then [] else dependents g k)"
    by (simp add: g'_def)
qed

section \<open>Topological order\<close>

lemma topo_push:
  "distinct ds \<Longrightarrow>
   omap_get_or [] (fold (\<lambda>d out. omap_put d (omap_get_or [] out d @ [i]) out) ds out) k =
   omap_get_or [] out k @ (if k \<in> set ds then [i] else [])"
  by (induction ds arbitrary: out) auto

lemma topo_init_spec:
  assumes "\<And>i. i \<in> set is \<Longrightarrow> omap_has deps i \<and> distinct (omap_get_or [] deps i)" "distinct is"
  shows "\<exists>ind' out'. topo_init deps is ind out = Some (ind', out') \<and>
    (\<forall>k. omap_get_or 0 ind' k =
       (if k \<in> set is then int (card (set (omap_get_or [] deps k))) else omap_get_or 0 ind k)) \<and>
    (\<forall>k. omap_get_or [] out' k = omap_get_or [] out k @ filter (\<lambda>i. k \<in> set (omap_get_or [] deps i)) is) \<and>
    fst ` set ind' = fst ` set ind \<union> set is \<and> (omap_ok ind \<longrightarrow> omap_ok ind')"
  using assms
proof (induction "is" arbitrary: ind out)
  case (Cons i "is")
  obtain ds where ds: "map_of deps i = Some ds" "distinct ds" "omap_get_or [] deps i = ds"
    using Cons.prems(1) [of i] by (auto simp: omap_has_def omap_get_or_def)
  let ?ind = "omap_put i (int (length ds)) ind"
  let ?out = "fold (\<lambda>d out. omap_put d (omap_get_or [] out d @ [i]) out) ds out"
  obtain ind' out' where r: "topo_init deps is ?ind ?out = Some (ind', out')"
    "\<forall>k. omap_get_or 0 ind' k =
       (if k \<in> set is then int (card (set (omap_get_or [] deps k))) else omap_get_or 0 ?ind k)"
    "\<forall>k. omap_get_or [] out' k = omap_get_or [] ?out k @ filter (\<lambda>i. k \<in> set (omap_get_or [] deps i)) is"
    "fst ` set ind' = fst ` set ?ind \<union> set is" "omap_ok ?ind \<longrightarrow> omap_ok ind'"
    using Cons.IH [of ?ind ?out] Cons.prems by auto
  show ?case
    by (rule exI [of _ ind'], rule exI [of _ out'])
      (use r ds Cons.prems(2) in \<open>auto simp: topo_push distinct_card\<close>)
qed simp

lemma topo_relax_spec:
  "distinct ns \<Longrightarrow> topo_relax ns ind ready = (ind', ready') \<Longrightarrow>
   omap_get_or 0 ind' k = omap_get_or 0 ind k - (if k \<in> set ns then 1 else 0) \<and>
   set ready' = set ready \<union> {n \<in> set ns. omap_get_or 0 ind n = 1} \<and>
   (sorted_wrt (<) ready \<longrightarrow> sorted_wrt (<) ready')"
  by (induction ns ind ready rule: topo_relax.induct) (fastforce simp: Let_def split: if_splits)+

text \<open>
  The loop invariant: the order lists tasks after their dependencies, each counter is the number
  of dependencies not yet listed, and the ready set is what may be listed next.
\<close>

definition topo_inv :: "ComputeTaskId set \<Rightarrow> (ComputeTaskId \<Rightarrow> ComputeTaskId set) \<Rightarrow>
    (ComputeTaskId, int) omap \<Rightarrow> ComputeTaskId list \<Rightarrow> ComputeTaskId list \<Rightarrow> bool" where
  "topo_inv ids D ind ready order =
     (distinct order \<and> set order \<subseteq> ids \<and> sorted_wrt (<) ready \<and>
      set ready = {i \<in> ids. i \<notin> set order \<and> D i \<subseteq> set order} \<and>
      (\<forall>i \<in> ids. omap_get_or 0 ind i = int (card (D i - set order))) \<and>
      (\<forall>k < length order. D (order ! k) \<subseteq> set (take k order)))"

lemma card_one_member: "x \<in> A \<Longrightarrow> card A = 1 \<longleftrightarrow> A = {x}"
  by (auto simp: card_1_singleton_iff)

lemma topo_step:
  assumes inv: "topo_inv ids D ind (cur # ready) order"
    and ns: "distinct ns" "set ns = {i \<in> ids. cur \<in> D i}"
    and fin: "\<And>i. finite (D i)" and irr: "\<And>i. i \<notin> D i"
    and r: "topo_relax ns ind ready = (ind', ready')"
  shows "topo_inv ids D ind' ready' (order @ [cur])"
proof -
  let ?O = "set order"
  have cur: "cur \<in> ids" "cur \<notin> ?O" "D cur \<subseteq> ?O" "cur \<notin> set ready"
    using inv by (auto simp: topo_inv_def)
  have listed: "D i \<subseteq> ?O" if "i \<in> ?O" for i
    using that inv by (auto simp: topo_inv_def in_set_conv_nth dest!: in_set_takeD)
  have rel: "omap_get_or 0 ind' k = omap_get_or 0 ind k - (if k \<in> set ns then 1 else 0)"
    "set ready' = set ready \<union> {n \<in> set ns. omap_get_or 0 ind n = 1}" "sorted_wrt (<) ready'" for k
    using topo_relax_spec [OF ns(1) r] inv by (auto simp: topo_inv_def)
  have diff: "D i - insert cur ?O = (D i - ?O) - {cur}" for i by auto
  have count: "omap_get_or 0 ind' i = int (card (D i - insert cur ?O))" if "i \<in> ids" for i
    using that inv rel(1) [of i] ns(2) cur(2) fin card_gt_0_iff [of "D i - ?O"]
    unfolding diff by (auto simp: topo_inv_def card_Diff_singleton_if)
  have one: "omap_get_or 0 ind n = 1 \<longleftrightarrow> D n \<subseteq> insert cur ?O" if "n \<in> ids" "cur \<in> D n" for n
  proof -
    have "omap_get_or 0 ind n = int (card (D n - ?O))" using inv that by (simp add: topo_inv_def)
    moreover have "cur \<in> D n - ?O" using that cur by simp
    moreover from this have "card (D n - ?O) = 1 \<longleftrightarrow> D n - ?O = {cur}"
      by (rule card_one_member)
    ultimately show ?thesis by auto
  qed
  have "set ready' = {i \<in> ids. i \<notin> insert cur ?O \<and> D i \<subseteq> insert cur ?O}"
  proof (intro set_eqI)
    fix i
    have "i \<in> set ready \<longleftrightarrow> i \<in> ids \<and> i \<notin> insert cur ?O \<and> D i \<subseteq> ?O"
      using inv cur(4) by (auto simp: topo_inv_def)
    then show "i \<in> set ready' \<longleftrightarrow> i \<in> {i \<in> ids. i \<notin> insert cur ?O \<and> D i \<subseteq> insert cur ?O}"
      using rel(2) ns(2) one [of i] listed [of i] cur irr [of i] by (cases "cur \<in> D i") auto
  qed
  moreover have "D ((order @ [cur]) ! k) \<subseteq> set (take k (order @ [cur]))" if "k < Suc (length order)" for k
    using that inv cur(3) by (cases "k = length order") (auto simp: topo_inv_def nth_append)
  ultimately show ?thesis
    using inv cur rel(3) count by (auto simp: topo_inv_def)
qed

lemma topo_loop_spec:
  assumes "topo_inv ids D ind ready order" "\<And>i. finite (D i)" "\<And>i. i \<notin> D i"
    and "\<And>c. distinct (omap_get_or [] out c) \<and> set (omap_get_or [] out c) = {i \<in> ids. c \<in> D i}"
  shows "\<exists>ind'. topo_inv ids D ind' [] (topo_loop out ind ready order)"
  using assms
proof (induction out ind ready order rule: topo_loop.induct)
  case (2 out ind cur ready order)
  obtain ind' ready' where r: "topo_relax (omap_get_or [] out cur) ind ready = (ind', ready')"
    by (rule prod.exhaust)
  have "topo_inv ids D ind' ready' (order @ [cur])"
    by (rule topo_step [OF "2.prems"(1) _ _ "2.prems"(2,3) r]) (use "2.prems"(4) in auto)
  then show ?case using "2.IH" [OF r [symmetric]] "2.prems" r by auto
qed auto

text \<open>Without a cycle and with every dependency present, the loop lists every task.\<close>

lemma topo_complete:
  assumes inv: "topo_inv ids D ind [] order" and "finite ids"
    and acyc: "\<And>c. \<not> (\<lambda>a b. b \<in> D a)\<^sup>+\<^sup>+ c c" and present: "\<And>i. i \<in> ids \<Longrightarrow> D i \<subseteq> ids"
  shows "set order = ids"
proof (rule ccontr)
  let ?E = "\<lambda>a b. b \<in> D a"
  define R where "R = ids - set order"
  assume "set order \<noteq> ids"
  then have "R \<noteq> {}" "finite R" using inv assms(2) by (auto simp: R_def topo_inv_def)
  have next_: "\<exists>d \<in> R. ?E i d" if "i \<in> R" for i
  proof -
    have "\<not> D i \<subseteq> set order" using that inv by (auto simp: R_def topo_inv_def)
    then show ?thesis using that present [of i] by (auto simp: R_def)
  qed
  have "acyclic {(d, i). i \<in> R \<and> d \<in> R \<and> d \<in> D i}"
  proof (rule acyclicI, intro allI notI)
    fix c assume "(c, c) \<in> {(d, i). i \<in> R \<and> d \<in> R \<and> d \<in> D i}\<^sup>+"
    moreover have "(a, b) \<in> {(d, i). i \<in> R \<and> d \<in> R \<and> d \<in> D i}\<^sup>+ \<Longrightarrow> ?E\<^sup>+\<^sup>+ b a" for a b
      by (induction rule: trancl_induct) (auto intro: tranclp_into_tranclp2)
    ultimately show False using acyc by blast
  qed
  moreover have "finite {(d, i). i \<in> R \<and> d \<in> R \<and> d \<in> D i}"
    by (rule finite_subset [of _ "R \<times> R"]) (use \<open>finite R\<close> in auto)
  ultimately have "wf {(d, i). i \<in> R \<and> d \<in> R \<and> d \<in> D i}" by (rule finite_acyclic_wf [rotated])
  then obtain z where "z \<in> R" "\<And>y. (y, z) \<in> {(d, i). i \<in> R \<and> d \<in> R \<and> d \<in> D i} \<Longrightarrow> y \<notin> R"
    using \<open>R \<noteq> {}\<close> by (meson wfE_min' ex_in_conv wf_eq_minimal)
  then show False using next_ by blast
qed

lemma topological_order_run:
  assumes "graph_inv g"
  defines "ids \<equiv> set (map fst (g_tasks g))" and "D \<equiv> \<lambda>i. set (dependencies g i)"
  shows "\<exists>order ind. topo_inv ids D ind [] order \<and> topological_order g =
    Some (if length order \<noteq> length (g_tasks g)
          then fail_with E_DependencyCycle ''cycle detected in task graph'' else Inr order)"
proof -
  note inv = assms(1) [unfolded graph_inv_def]
  have keys: "omap_has (g_deps g) i \<and> distinct (omap_get_or [] (g_deps g) i)"
    if "i \<in> set (map fst (g_tasks g))" for i
    using that inv by (auto simp: omap_has_keys dependencies_get_or strict_sorted_iff)
  have "distinct (map fst (g_tasks g))" using inv by (simp add: omap_ok_distinct)
  from topo_init_spec [OF keys this, where ind = "[]" and out = "[]"]
  obtain ind out where r: "topo_init (g_deps g) (map fst (g_tasks g)) [] [] = Some (ind, out)"
    and ind: "\<And>k. omap_get_or 0 ind k = (if k \<in> ids then int (card (D k)) else 0)"
    and out: "\<And>k. omap_get_or [] out k = filter (\<lambda>i. k \<in> D i) (map fst (g_tasks g))"
    and ok: "fst ` set ind = ids" "omap_ok ind"
    unfolding ids_def D_def dependencies_get_or by auto
  have outs: "distinct (omap_get_or [] out c) \<and> set (omap_get_or [] out c) = {i \<in> ids. c \<in> D i}" for c
    using out [of c] \<open>distinct (map fst (g_tasks g))\<close> by (simp add: ids_def)
  have fin: "finite (D i)" for i by (simp add: D_def)
  let ?ready = "map fst (filter (\<lambda>e. snd e = 0) ind)"
  have irr: "i \<notin> D i" for i
    using inv unfolding acyclic_deps_def D_def by (metis dep_edge_dependencies tranclp.r_into_trancl)
  have "sorted_wrt (<) ?ready"
    using ok(2) unfolding omap_ok_def by (simp add: sorted_wrt_map sorted_wrt_filter)
  moreover have "i \<in> set ?ready \<longleftrightarrow> i \<in> ids \<and> D i = {}" for i
  proof -
    have "i \<in> set ?ready \<longleftrightarrow> map_of ind i = Some 0"
      using omap_in_set [OF ok(2)] by (force simp: image_iff)
    also have "\<dots> \<longleftrightarrow> i \<in> ids \<and> omap_get_or 0 ind i = 0"
      unfolding ok(1) [symmetric] omap_has_keys [symmetric] omap_has_def omap_get_or_def
      by (auto split: option.splits)
    finally show ?thesis by (simp add: ind D_def)
  qed
  ultimately have "topo_inv ids D ind ?ready []" by (auto simp: topo_inv_def ind)
  then obtain ind' where "topo_inv ids D ind' [] (topo_loop out ind ?ready [])"
    using topo_loop_spec [OF _ fin irr outs] by blast
  then show ?thesis using r by (auto simp: topological_order_def Let_def)
qed

section \<open>Operations and the invariant\<close>

lemma graph_inv_empty: "graph_inv graph_empty"
proof -
  have "\<not> dep_edge [] a b" for a b by (simp add: dep_edge_def)
  then have "acyclic_deps []" unfolding acyclic_deps_def by (blast dest: tranclpD)
  then show ?thesis
    by (simp add: graph_inv_def graph_empty_def omap_has_def find_task_def dependencies_def dependents_def)
qed

lemma add_task_cases:
  assumes "graph_inv g"
  obtains "has_task g (t_id t)" "add_task t g = (fail_with E_AlreadyExists ''task already present in graph'', g)"
  | "\<not> has_task g (t_id t)" "t_id t \<in> set (t_dependencies t)"
    "add_task t g = (fail_with E_SelfDependency ''task depends on itself'', g)"
  | "\<not> has_task g (t_id t)" "t_id t \<notin> set (t_dependencies t)" "acyclic_deps (g_deps (insert_task t g))"
    "add_task t g = (Inr (), insert_task t g)"
  | "\<not> has_task g (t_id t)" "t_id t \<notin> set (t_dependencies t)" "\<not> acyclic_deps (g_deps (insert_task t g))"
    "add_task t g = (fail_with E_DependencyCycle ''dependency cycle detected'',
       erase_task (t_id t) (fold (drop_dependent (t_id t)) (t_dependencies t) (insert_task t g)))"
  using validate_insert_task [OF assms, of t]
  by (cases "has_task g (t_id t)"; cases "t_id t \<in> set (t_dependencies t)";
      cases "acyclic_deps (g_deps (insert_task t g))")
    (auto simp: add_task_def has_task_def Let_def fail_with_def)

lemma rollback_inv:
  assumes "graph_inv g" "\<not> has_task g (t_id t)"
  shows "graph_inv (erase_task (t_id t) (fold (drop_dependent (t_id t)) (t_dependencies t) (insert_task t g)))"
  using assms(1) rollback_simps [OF assms]
  by (simp add: graph_inv_def find_task_def dependencies_get_or split: if_splits)

lemma add_task_inv:
  assumes "graph_inv g"
  shows "graph_inv (snd (add_task t g))"
  by (rule add_task_cases [OF assms, of t]) (simp_all add: assms insert_task_inv rollback_inv)

lemma acyclic_deps_mono: "acyclic_deps deps \<Longrightarrow> (\<And>a b. dep_edge deps' a b \<Longrightarrow> dep_edge deps a b) \<Longrightarrow> acyclic_deps deps'"
proof -
  assume acyc: "acyclic_deps deps" and sub: "\<And>a b. dep_edge deps' a b \<Longrightarrow> dep_edge deps a b"
  have "(dep_edge deps')\<^sup>+\<^sup>+ a b \<Longrightarrow> (dep_edge deps)\<^sup>+\<^sup>+ a b" for a b
    by (induction rule: tranclp_induct) (auto intro: sub tranclp.intros)
  then show "acyclic_deps deps'" using acyc unfolding acyclic_deps_def by blast
qed

lemma remove_task_inv:
  assumes inv: "graph_inv g"
  shows "graph_inv (snd (remove_task i g))"
proof (cases "fst (remove_task i g) = Inr ()")
  case False
  then have "snd (remove_task i g) = g" by (auto simp: remove_task_def fail_with_def split: if_splits)
  then show ?thesis using inv by simp
next
  case True
  then have g': "snd (remove_task i g) = erase_task i (fold (drop_dependent i) (dependencies g i) g)"
    by (auto simp: remove_task_def dependencies_get_or fail_with_def split: if_splits)
  let ?g = "fold (drop_dependent i) (dependencies g i) g"
  note parts = inv [unfolded graph_inv_def]
  have deps: "dependencies ?g k = dependencies g k" for k by (simp add: dependencies_def fold_drop_dependent)
  have "acyclic_deps (omap_del i (g_deps g))"
    using parts by (auto intro: acyclic_deps_mono simp: dep_edge_def split: if_splits)
  moreover have "d \<in> set (dependencies (erase_task i ?g) u)" if "u \<in> set (dependents (erase_task i ?g) d)" for d u
  proof -
    have "u \<noteq> i" "u \<in> set (dependents g d)"
      using that parts by (auto simp: fold_drop_dependent split: if_splits)
    then show ?thesis using parts deps by simp
  qed
  moreover have "sorted_wrt (<) (dependents (erase_task i ?g) k)" for k
    using parts by (simp add: fold_drop_dependent)
  ultimately show ?thesis
    unfolding g' using parts deps
    by (simp add: graph_inv_def find_task_def fold_drop_dependent split: if_splits)
qed

lemma set_state_simps:
  "g_tasks (snd (set_state i s g)) = g_tasks g" "g_deps (snd (set_state i s g)) = g_deps g"
  "g_dependents (snd (set_state i s g)) = g_dependents g"
  "omap_has (g_states (snd (set_state i s g))) k = omap_has (g_states g) k"
  by (auto simp: set_state_def omap_has_def split: option.splits)

lemma set_state_inv: "graph_inv g \<Longrightarrow> graph_inv (snd (set_state i s g))"
  using set_state_simps [of i s g]
  by (auto simp: graph_inv_def find_task_def dependencies_def dependents_def set_state_def split: option.splits)

lemma restore_state_inv: "graph_inv g \<Longrightarrow> graph_inv (restore_state i s g)"
  by (auto simp: restore_state_def graph_inv_def find_task_def dependencies_def dependents_def omap_has_def
      split: option.splits)

section \<open>Properties\<close>

text \<open>
  C23: the cycle search of \<open>validate_dependencies\<close> terminates and is exact. For a task of the
  graph it succeeds if and only if no cycle of dependency edges can be reached from the task; a
  cycle is reported as \<open>DependencyCycle\<close> and nothing else is.
\<close>

theorem validate_dependencies_exact:
  assumes "has_task g i"
  shows "validate_dependencies g i =
    (if \<exists>c. (dep_edge (g_deps g))\<^sup>*\<^sup>* i c \<and> (dep_edge (g_deps g))\<^sup>+\<^sup>+ c c
     then fail_with E_DependencyCycle ''dependency cycle detected'' else Inr ())"
  using assms by (simp add: validate_dependencies_def has_task_def dfs_iff cyclic_from_def)

definition sample_task :: "u64 \<Rightarrow> u64 list \<Rightarrow> ComputeTask" where
  "sample_task n ds = default_task\<lparr>t_id := Id128 0 n, t_dependencies := map (Id128 0) ds\<rparr>"

lemma sample_task_simps [simp]:
  "t_id (sample_task n ds) = Id128 0 n" "t_dependencies (sample_task n ds) = map (Id128 0) ds"
  by (simp_all add: sample_task_def)

definition sample_graph :: TaskGraph where
  "sample_graph = snd (add_task (sample_task 2 [1]) (snd (add_task (sample_task 1 []) graph_empty)))"

lemma sample_graph_inv: "graph_inv sample_graph"
  by (simp add: sample_graph_def add_task_inv graph_inv_empty)

lemma sample_graph_eq:
  "sample_graph = \<lparr>g_tasks = [(Id128 0 1, sample_task 1 []), (Id128 0 2, sample_task 2 [1])],
     g_states = [(Id128 0 1, TS_Submitted), (Id128 0 2, TS_Submitted)],
     g_deps = [(Id128 0 1, []), (Id128 0 2, [Id128 0 1])], g_dependents = [(Id128 0 1, [Id128 0 2])]\<rparr>"
  by (simp add: sample_graph_def add_task_def insert_task_def add_edge_def graph_empty_def
      omap_has_def omap_get_or_def validate_dependencies_def dfs_def Let_def less_Id128_def)

theorem validate_dependencies_exact_witness:
  "has_task sample_graph (Id128 0 2) \<and> validate_dependencies sample_graph (Id128 0 2) = Inr () \<and>
   \<not> (\<exists>c. (dep_edge (g_deps sample_graph))\<^sup>*\<^sup>* (Id128 0 2) c \<and> (dep_edge (g_deps sample_graph))\<^sup>+\<^sup>+ c c)"
proof -
  have "has_task sample_graph (Id128 0 2)" by (simp add: sample_graph_eq has_task_def omap_has_def)
  moreover have "validate_dependencies sample_graph (Id128 0 2) = Inr ()"
    by (simp add: sample_graph_eq validate_dependencies_def dfs_def omap_has_def omap_get_or_def)
  ultimately show ?thesis using validate_dependencies_exact [of sample_graph "Id128 0 2"]
    by (simp split: if_splits)
qed

text \<open>
  C8: \<open>add_task\<close> keeps the graph a dependency graph. On a graph satisfying the invariant, a task
  is accepted exactly when its id is new, it does not depend on itself and the graph with it has
  no dependency cycle; accepted or not, the graph afterwards satisfies the invariant, and an
  accepted task is there with its dependencies, in state \<open>Submitted\<close>.
\<close>

theorem add_task_correct:
  assumes "graph_inv g"
  shows "graph_inv (snd (add_task t g)) \<and>
    (fst (add_task t g) = Inr () \<longleftrightarrow>
      \<not> has_task g (t_id t) \<and> t_id t \<notin> set (t_dependencies t) \<and> acyclic_deps (g_deps (insert_task t g))) \<and>
    (fst (add_task t g) = Inr () \<longrightarrow>
      find_task (snd (add_task t g)) (t_id t) = Some t \<and>
      task_state (snd (add_task t g)) (t_id t) = TS_Submitted \<and>
      set (dependencies (snd (add_task t g)) (t_id t)) = set (t_dependencies t))"
proof (rule add_task_cases [OF assms, of t])
  assume new: "\<not> has_task g (t_id t)" "t_id t \<notin> set (t_dependencies t)"
    "acyclic_deps (g_deps (insert_task t g))" and eq: "add_task t g = (Inr (), insert_task t g)"
  show ?thesis
    using insert_task_simps [OF assms new(1)] insert_task_inv [OF assms new(1,3)] new
    by (simp add: eq find_task_def task_state_def)
qed (use add_task_inv [OF assms, of t] in simp_all)

theorem add_task_correct_witness:
  "graph_inv sample_graph \<and> fst (add_task (sample_task 3 [1, 2]) sample_graph) = Inr () \<and>
   set (dependencies (snd (add_task (sample_task 3 [1, 2]) sample_graph)) (Id128 0 3)) = {Id128 0 1, Id128 0 2}"
proof -
  have ok: "fst (add_task (sample_task 3 [1, 2]) sample_graph) = Inr ()"
    by (simp add: sample_graph_eq add_task_def insert_task_def add_edge_def
        omap_has_def omap_get_or_def validate_dependencies_def dfs_def Let_def less_Id128_def)
  then show ?thesis
    using add_task_correct [OF sample_graph_inv, of "sample_task 3 [1, 2]"] sample_graph_inv
    by simp
qed

text \<open>
  A rejected \<open>add_task\<close> that reached the cycle check leaves tasks, states, dependencies and
  the dependents of every other task as they were, but the recorded dependents of the rejected id
  are erased with it.
\<close>

theorem add_task_rollback:
  assumes "graph_inv g" "\<not> has_task g (t_id t)" "t_id t \<notin> set (t_dependencies t)"
    "\<not> acyclic_deps (g_deps (insert_task t g))"
  defines "g' \<equiv> snd (add_task t g)"
  shows "fst (add_task t g) = fail_with E_DependencyCycle ''dependency cycle detected'' \<and>
    g_tasks g' = g_tasks g \<and> g_states g' = g_states g \<and> g_deps g' = g_deps g \<and>
    (\<forall>k. dependents g' k = (if k = t_id t then [] else dependents g k))"
  by (rule add_task_cases [OF assms(1), of t])
    (use assms(2-4) rollback_simps [OF assms(1,2)] in \<open>simp_all add: g'_def\<close>)

text \<open>The loss is visible: task 1 waits for task 2, which is then rejected once and added without
  dependencies; the graph has forgotten that task 1 depends on it and lets it be removed.\<close>

definition forward_graph :: TaskGraph where
  "forward_graph = snd (add_task (sample_task 1 [2]) graph_empty)"

lemma forward_graph_inv: "graph_inv forward_graph"
  by (simp add: forward_graph_def add_task_inv graph_inv_empty)

lemmas graph_eval = add_task_def insert_task_def add_edge_def graph_empty_def
  omap_has_def omap_get_or_def validate_dependencies_def dfs_def Let_def less_Id128_def
  has_task_def erase_task_def drop_dependent_def omap_del_def oset_del_def fail_with_def

theorem add_task_rollback_witness:
  "fst (add_task (sample_task 2 [1]) forward_graph) = fail_with E_DependencyCycle ''dependency cycle detected'' \<and>
   dependents forward_graph (Id128 0 2) = [Id128 0 1] \<and>
   dependents (snd (add_task (sample_task 2 [1]) forward_graph)) (Id128 0 2) = []"
proof -
  have fresh: "\<not> has_task forward_graph (t_id (sample_task 2 [1]))"
    "t_id (sample_task 2 [1]) \<notin> set (t_dependencies (sample_task 2 [1]))"
    by (simp_all add: forward_graph_def graph_eval)
  have "fst (add_task (sample_task 2 [1]) forward_graph) \<noteq> Inr ()"
    by (simp add: forward_graph_def graph_eval)
  then have "\<not> acyclic_deps (g_deps (insert_task (sample_task 2 [1]) forward_graph))"
    using validate_insert_task [OF forward_graph_inv fresh(1)] fresh
    by (auto simp: add_task_def has_task_def Let_def)
  from add_task_rollback [OF forward_graph_inv fresh this]
  show ?thesis by (simp add: forward_graph_def graph_eval dependents_def)
qed

text \<open>
  A task whose rejected first submission erased its dependents can be removed although another
  task of the graph depends on it: \<open>remove_task\<close> answers success and leaves a dependency on a
  task that no longer exists.
\<close>

theorem remove_task_despite_dependent:
  "let g1 = snd (add_task (sample_task 2 [1]) forward_graph);
       g2 = snd (add_task (sample_task 2 []) g1);
       r = remove_task (Id128 0 2) g2
   in fst r = Inr () \<and> Id128 0 2 \<in> set (dependencies g2 (Id128 0 1)) \<and>
      has_task (snd r) (Id128 0 1) \<and> Id128 0 2 \<in> set (dependencies (snd r) (Id128 0 1)) \<and>
      \<not> has_task (snd r) (Id128 0 2)"
proof -
  have fg: "forward_graph = \<lparr>g_tasks = [(Id128 0 1, sample_task 1 [2])], g_states = [(Id128 0 1, TS_Submitted)],
      g_deps = [(Id128 0 1, [Id128 0 2])], g_dependents = [(Id128 0 2, [Id128 0 1])]\<rparr>"
    by (simp add: forward_graph_def graph_eval)
  have g1: "snd (add_task (sample_task 2 [1]) forward_graph) =
    \<lparr>g_tasks = [(Id128 0 1, sample_task 1 [2])], g_states = [(Id128 0 1, TS_Submitted)],
      g_deps = [(Id128 0 1, [Id128 0 2])], g_dependents = [(Id128 0 1, [])]\<rparr>"
    by (simp add: fg graph_eval)
  show ?thesis unfolding g1 Let_def by (simp add: graph_eval remove_task_def dependencies_def)
qed

text \<open>
  C22: \<open>topological_order\<close> on a graph satisfying the invariant never throws. It returns an order
  exactly when every dependency is itself a task of the graph; the order then lists each task
  once, after all its dependencies. A missing dependency is reported as a dependency cycle.
\<close>

theorem topological_order_correct:
  assumes "graph_inv g"
  shows "if \<forall>i \<in> set (task_ids g). set (dependencies g i) \<subseteq> set (task_ids g)
    then \<exists>order. topological_order g = Some (Inr order) \<and> distinct order \<and> set order = set (task_ids g) \<and>
      (\<forall>k < length order. set (dependencies g (order ! k)) \<subseteq> set (take k order))
    else topological_order g = Some (fail_with E_DependencyCycle ''cycle detected in task graph'')"
proof -
  let ?ids = "set (map fst (g_tasks g))" and ?D = "\<lambda>i. set (dependencies g i)"
  obtain order ind where inv: "topo_inv ?ids ?D ind [] order"
    and eq: "topological_order g = Some (if length order \<noteq> length (g_tasks g)
      then fail_with E_DependencyCycle ''cycle detected in task graph'' else Inr order)"
    using topological_order_run [OF assms] by blast
  have ids: "?ids = set (task_ids g)" by (simp add: task_ids_def)
  have "distinct (map fst (g_tasks g))" using assms by (simp add: graph_inv_def omap_ok_distinct)
  then have len: "length (g_tasks g) = card ?ids" by (metis distinct_card length_map)
  have order: "distinct order" "set order \<subseteq> ?ids"
    "\<forall>k < length order. ?D (order ! k) \<subseteq> set (take k order)" using inv by (auto simp: topo_inv_def)
  have full: "length order = length (g_tasks g) \<longleftrightarrow> set order = ?ids"
    using order(1,2) len by (metis List.finite_set card_subset_eq distinct_card)
  have acyc: "\<not> (\<lambda>a b. b \<in> ?D a)\<^sup>+\<^sup>+ c c" for c
  proof -
    have "(\<lambda>a b. b \<in> ?D a) = dep_edge (g_deps g)" by (simp add: fun_eq_iff dep_edge_dependencies)
    then show ?thesis using assms by (simp only: graph_inv_def acyclic_deps_def simp_thms)
  qed
  show ?thesis
  proof (cases "\<forall>i \<in> set (task_ids g). ?D i \<subseteq> set (task_ids g)")
    case True
    then have "set order = ?ids" using inv acyc ids by (intro topo_complete [OF inv]) auto
    then show ?thesis using True order eq full ids by auto
  next
    case False
    then have "set order \<noteq> ?ids"
      using order(3) ids by (metis in_set_conv_nth in_set_takeD subset_iff)
    then show ?thesis using False eq full by auto
  qed
qed

theorem topological_order_correct_witness:
  "graph_inv sample_graph \<and> topological_order sample_graph = Some (Inr [Id128 0 1, Id128 0 2]) \<and>
   topological_order forward_graph = Some (fail_with E_DependencyCycle ''cycle detected in task graph'')"
proof -
  have "topological_order sample_graph = Some (Inr [Id128 0 1, Id128 0 2])"
    by (simp add: sample_graph_eq topological_order_def omap_get_or_def less_Id128_def Let_def)
  moreover have "topological_order forward_graph = Some (fail_with E_DependencyCycle ''cycle detected in task graph'')"
    using topological_order_correct [OF forward_graph_inv]
    by (simp add: forward_graph_def graph_eval task_ids_def dependencies_def)
  ultimately show ?thesis using sample_graph_inv by simp
qed



end
