(* ===== verification/Wire.thy ===== *)
theory Wire
  imports Float64 Identifiers
begin

text \<open>
  Binary writer and reader (\<open>protocol/wire.h\<close>, \<open>protocol/wire.cpp\<close>).

  \<^item> A \<open>put_\<close> operation of \<open>BinaryWriter\<close> is the list of bytes it appends; a sequence of puts is
    their concatenation.
  \<^item> A \<open>read_\<close> operation of \<open>BinaryReader\<close> maps the reader to \<open>None\<close> (the source returns false) or
    the value read, with the reader afterwards: a failed read may already have consumed a length.
  \<^item> A \<open>parser\<close> is the body of a \<open>deserialize\<close> function: \<open>need what rd\<close> is
    \<open>if (!rd) return r.fail(what)\<close>, \<open>pbind\<close> is statement sequence, \<open>ploop\<close> a counted loop.

  Every deserializer is built from these, so two properties are proved compositionally: it stays
  inside its buffer and its result does not depend on bytes behind the ones it consumed
  (\<open>bounded\<close>), and it reads back what the serializer wrote (\<open>parses\<close>). The locale \<open>codec\<close> states
  what a serializer/deserializer pair promises and what follows for its users.
\<close>

section \<open>Writer\<close>

definition put_u8 :: "u8 \<Rightarrow> byte list" where
  "put_u8 v = [v]"

definition put_u16 :: "u16 \<Rightarrow> byte list" where
  "put_u16 v = [ucast (drop_bit 8 v AND 0xFF), ucast (v AND 0xFF)]"

definition put_i16 :: "16 word \<Rightarrow> byte list" where
  "put_i16 v = put_u16 v"

definition put_u32 :: "u32 \<Rightarrow> byte list" where
  "put_u32 v = [ucast (drop_bit 24 v AND 0xFF), ucast (drop_bit 16 v AND 0xFF),
                ucast (drop_bit 8 v AND 0xFF), ucast (v AND 0xFF)]"

definition put_i32 :: "32 word \<Rightarrow> byte list" where
  "put_i32 v = put_u32 v"

definition put_u64 :: "u64 \<Rightarrow> byte list" where
  "put_u64 v = map (\<lambda>i. ucast (drop_bit (i * 8) v AND 0xFF)) (rev [0..<8])"

definition put_i64 :: "64 word \<Rightarrow> byte list" where
  "put_i64 v = put_u64 v"

definition put_f64 :: "double \<Rightarrow> byte list" where
  "put_f64 v = put_u64 (double_bits v)"

definition put_bool :: "bool \<Rightarrow> byte list" where
  "put_bool v = put_u8 (if v then 1 else 0)"

definition put_bytes :: "byte list \<Rightarrow> byte list" where
  "put_bytes bs = bs"

definition char_bytes :: "string \<Rightarrow> byte list" where
  "char_bytes s = map (\<lambda>c. of_nat (of_char c)) s"

definition put_string :: "string \<Rightarrow> byte list" where
  "put_string s = put_u32 (of_nat (length s)) @ put_bytes (char_bytes s)"

definition put_id :: "Id128 \<Rightarrow> byte list" where
  "put_id i = put_bytes (id_to_bytes i)"

section \<open>Reader\<close>

record BinaryReader =
  rd_data :: "byte list"
  rd_pos :: nat

type_synonym 'a rd = "BinaryReader \<Rightarrow> 'a option \<times> BinaryReader"

definition reader_of :: "byte list \<Rightarrow> BinaryReader" where
  "reader_of bs = \<lparr>rd_data = bs, rd_pos = 0\<rparr>"

definition rd_ok :: "BinaryReader \<Rightarrow> bool" where
  "rd_ok r = (rd_pos r \<le> length (rd_data r))"

definition remaining :: "BinaryReader \<Rightarrow> nat" where
  "remaining r = length (rd_data r) - rd_pos r"

text \<open>The bounds check every fixed-size read starts with, and the bytes it then looks at.\<close>

definition read_block :: "nat \<Rightarrow> (byte list \<Rightarrow> 'a) \<Rightarrow> 'a rd" where
  "read_block n f r =
     (if length (rd_data r) < rd_pos r + n then (None, r)
      else (Some (f (take n (drop (rd_pos r) (rd_data r)))), r\<lparr>rd_pos := rd_pos r + n\<rparr>))"

definition rd_map :: "('a \<Rightarrow> 'b) \<Rightarrow> 'a rd \<Rightarrow> 'b rd" where
  "rd_map f rd r = (case rd r of (v, r') \<Rightarrow> (map_option f v, r'))"

definition rd_then :: "'a rd \<Rightarrow> ('a \<Rightarrow> 'b rd) \<Rightarrow> 'b rd" where
  "rd_then rd f r = (case rd r of (None, r') \<Rightarrow> (None, r') | (Some v, r') \<Rightarrow> f v r')"

definition rd_if :: "('a \<Rightarrow> bool) \<Rightarrow> 'a rd \<Rightarrow> 'a rd" where
  "rd_if P rd = rd_then rd (\<lambda>v r. (if P v then Some v else None, r))"

definition read_u8 :: "u8 rd" where
  "read_u8 = read_block 1 (\<lambda>b. b ! 0)"

definition read_u16 :: "u16 rd" where
  "read_u16 = read_block 2 (\<lambda>b. push_bit 8 (ucast (b ! 0)) OR ucast (b ! 1))"

definition read_i16 :: "16 word rd" where
  "read_i16 = read_u16"

definition read_u32 :: "u32 rd" where
  "read_u32 = read_block 4 (\<lambda>b. push_bit 24 (ucast (b ! 0)) OR push_bit 16 (ucast (b ! 1)) OR
     push_bit 8 (ucast (b ! 2)) OR ucast (b ! 3))"

definition read_i32 :: "32 word rd" where
  "read_i32 = read_u32"

definition read_u64 :: "u64 rd" where
  "read_u64 = read_block 8 (\<lambda>b. foldl (\<lambda>v x. push_bit 8 v OR ucast x) 0 b)"

definition read_i64 :: "64 word rd" where
  "read_i64 = read_u64"

definition read_f64 :: "double rd" where
  "read_f64 = rd_map Double read_u64"

definition read_bool :: "bool rd" where
  "read_bool = rd_map (\<lambda>b. b \<noteq> 0) read_u8"

definition read_raw_bytes :: "u32 \<Rightarrow> byte list rd" where
  "read_raw_bytes n = read_block (unat n) (\<lambda>b. b)"

definition read_bytes :: "u32 \<Rightarrow> byte list rd" where
  "read_bytes max_len =
     rd_then read_u32 (\<lambda>n r. if max_len < n then (None, r) else read_block (unat n) (\<lambda>b. b) r)"

definition bytes_string :: "byte list \<Rightarrow> string" where
  "bytes_string bs = map (\<lambda>b. char_of (unat b)) bs"

definition read_string :: "u32 \<Rightarrow> string rd" where
  "read_string max_len =
     rd_then read_u32 (\<lambda>n r. if max_len < n then (None, r) else read_block (unat n) bytes_string r)"

definition read_id :: "Id128 rd" where
  "read_id = read_block 16 id_from_bytes"

definition rd_skip :: "nat \<Rightarrow> unit rd" where
  "rd_skip n = read_block n (\<lambda>_. ())"

definition rd_fail :: "string \<Rightarrow> BinaryReader \<Rightarrow> Error" where
  "rd_fail what r = make_error E_OutOfBounds
     (what @ '' (reader at '' @ nat_to_string (rd_pos r) @ ''/'' @ nat_to_string (length (rd_data r)) @ '')'')"

section \<open>Parsers\<close>

type_synonym 'a parser = "BinaryReader \<Rightarrow> 'a result \<times> BinaryReader"

definition need :: "string \<Rightarrow> 'a rd \<Rightarrow> 'a parser" where
  "need what rd r = (case rd r of (None, r') \<Rightarrow> (Inl (rd_fail what r'), r') | (Some v, r') \<Rightarrow> (Inr v, r'))"

definition preturn :: "'a \<Rightarrow> 'a parser" where
  "preturn x r = (Inr x, r)"

definition pfail :: "Error \<Rightarrow> 'a parser" where
  "pfail e r = (Inl e, r)"

definition pbind :: "'a parser \<Rightarrow> ('a \<Rightarrow> 'b parser) \<Rightarrow> 'b parser" where
  "pbind p f r = (case p r of (Inl e, r') \<Rightarrow> (Inl e, r') | (Inr v, r') \<Rightarrow> f v r')"

primrec ploop :: "nat \<Rightarrow> 'a parser \<Rightarrow> 'a list parser" where
  "ploop 0 p = preturn []"
| "ploop (Suc n) p = pbind p (\<lambda>x. pbind (ploop n p) (\<lambda>xs. preturn (x # xs)))"

text \<open>\<open>if (!r.read_a(x) || !r.read_b(y)) return r.fail(what)\<close>: one message for two reads.\<close>

definition read_both :: "'a rd \<Rightarrow> 'b rd \<Rightarrow> ('a \<times> 'b) rd" where
  "read_both ra rb = rd_then ra (\<lambda>a. rd_map (\<lambda>b. (a, b)) rb)"

text \<open>
  The idiom for sequences: a 32-bit count checked against a limit, then that many elements. The
  loop over a \<open>std::map\<close> writes key and value; reading assigns \<open>m[k] = v\<close> in the order read.
\<close>

definition kMaxString :: u32 where "kMaxString = push_bit 20 1"

definition kMaxList :: u32 where "kMaxList = push_bit 16 1"

definition put_list :: "('a \<Rightarrow> byte list) \<Rightarrow> 'a list \<Rightarrow> byte list" where
  "put_list enc xs = put_u32 (of_nat (length xs)) @ concat (map enc xs)"

definition get_list :: "string \<Rightarrow> 'a parser \<Rightarrow> 'a list parser" where
  "get_list what p = pbind (need what (rd_if (\<lambda>n. n \<le> kMaxList) read_u32)) (\<lambda>n. ploop (unat n) p)"

definition put_pair :: "string \<times> string \<Rightarrow> byte list" where
  "put_pair kv = put_string (fst kv) @ put_string (snd kv)"

definition put_map :: "(string, string) omap \<Rightarrow> byte list" where
  "put_map m = put_list put_pair m"

definition map_of_reads :: "(string \<times> string) list \<Rightarrow> (string, string) omap" where
  "map_of_reads kvs = foldl (\<lambda>m kv. omap_put (fst kv) (snd kv) m) [] kvs"

definition get_map :: "string \<Rightarrow> string \<Rightarrow> (string, string) omap parser" where
  "get_map what_count what =
     pbind (get_list what_count (need what (read_both (read_string kMaxString) (read_string kMaxString))))
       (\<lambda>kvs. preturn (map_of_reads kvs))"

definition put_blob :: "byte list \<Rightarrow> byte list" where
  "put_blob bs = put_u32 (of_nat (length bs)) @ put_bytes bs"

definition get_blob :: "string \<Rightarrow> string \<Rightarrow> byte list parser" where
  "get_blob what_count what =
     pbind (need what_count (rd_if (\<lambda>n. n \<le> kMaxString) read_u32)) (\<lambda>n. need what (read_raw_bytes n))"

section \<open>Staying inside the buffer\<close>

text \<open>
  A read or parser is bounded when, started inside its buffer, it leaves the buffer alone, moves the
  position forward and not past the end, and succeeds in the same way when more bytes follow.
\<close>

definition bounded_rd :: "'a rd \<Rightarrow> bool" where
  "bounded_rd rd \<longleftrightarrow> (\<forall>d i e res r'. i \<le> length d \<longrightarrow> rd \<lparr>rd_data = d, rd_pos = i\<rparr> = (res, r') \<longrightarrow>
     rd_data r' = d \<and> i \<le> rd_pos r' \<and> rd_pos r' \<le> length d \<and>
     (\<forall>x. res = Some x \<longrightarrow> rd \<lparr>rd_data = d @ e, rd_pos = i\<rparr> = (Some x, r'\<lparr>rd_data := d @ e\<rparr>)))"

definition bounded :: "'a parser \<Rightarrow> bool" where
  "bounded p \<longleftrightarrow> (\<forall>d i e res r'. i \<le> length d \<longrightarrow> p \<lparr>rd_data = d, rd_pos = i\<rparr> = (res, r') \<longrightarrow>
     rd_data r' = d \<and> i \<le> rd_pos r' \<and> rd_pos r' \<le> length d \<and>
     (\<forall>x. res = Inr x \<longrightarrow> p \<lparr>rd_data = d @ e, rd_pos = i\<rparr> = (Inr x, r'\<lparr>rd_data := d @ e\<rparr>)))"

named_theorems bounded_intros

lemma bounded_rd_block [bounded_intros]: "bounded_rd (read_block n f)"
  by (auto simp: bounded_rd_def read_block_def split: if_splits)

lemma bounded_rd_const [bounded_intros]: "bounded_rd (\<lambda>r. (v, r))"
  by (simp add: bounded_rd_def)

lemma bounded_rd_then [bounded_intros]:
  assumes p: "bounded_rd p" and f: "\<And>x. bounded_rd (f x)"
  shows "bounded_rd (rd_then p f)"
  unfolding bounded_rd_def
proof (intro allI impI)
  fix d i e res r'
  assume i: "i \<le> length d" and eq: "rd_then p f \<lparr>rd_data = d, rd_pos = i\<rparr> = (res, r')"
  obtain v r1 where p1: "p \<lparr>rd_data = d, rd_pos = i\<rparr> = (v, r1)" by fastforce
  have 1: "rd_data r1 = d" "i \<le> rd_pos r1" "rd_pos r1 \<le> length d"
    "\<And>x. v = Some x \<Longrightarrow> p \<lparr>rd_data = d @ e, rd_pos = i\<rparr> = (Some x, r1\<lparr>rd_data := d @ e\<rparr>)"
    using p i p1 unfolding bounded_rd_def by blast+
  show "rd_data r' = d \<and> i \<le> rd_pos r' \<and> rd_pos r' \<le> length d \<and>
     (\<forall>x. res = Some x \<longrightarrow> rd_then p f \<lparr>rd_data = d @ e, rd_pos = i\<rparr> = (Some x, r'\<lparr>rd_data := d @ e\<rparr>))"
  proof (cases v)
    case None
    then show ?thesis using eq p1 1 by (auto simp: rd_then_def)
  next
    case (Some x)
    have "\<lparr>rd_data = d, rd_pos = rd_pos r1\<rparr> = r1" using 1(1) by (cases r1) simp
    then have fx: "f x \<lparr>rd_data = d, rd_pos = rd_pos r1\<rparr> = (res, r')"
      using eq p1 Some by (simp add: rd_then_def)
    have r1: "r1\<lparr>rd_data := d @ e\<rparr> = \<lparr>rd_data = d @ e, rd_pos = rd_pos r1\<rparr>" by simp
    show ?thesis
      using f [of x, unfolded bounded_rd_def, rule_format, OF 1(3) fx, of e] 1 Some
      by (simp add: rd_then_def r1 del: BinaryReader.update_convs)
  qed
qed

lemma bounded_rd_map [bounded_intros]:
  assumes "bounded_rd p"
  shows "bounded_rd (rd_map f p)"
proof -
  have "rd_map f p = rd_then p (\<lambda>x r. (Some (f x), r))"
    by (auto simp: rd_map_def rd_then_def fun_eq_iff split: prod.splits option.splits)
  then show ?thesis using assms by (simp add: bounded_intros)
qed

lemma bounded_rd_cond: "bounded_rd p \<Longrightarrow> bounded_rd q \<Longrightarrow> bounded_rd (\<lambda>r. if c then p r else q r)"
  by (cases c) simp_all

lemma bounded_rd_if [bounded_intros]: "bounded_rd p \<Longrightarrow> bounded_rd (rd_if P p)"
  unfolding rd_if_def by (intro bounded_intros)

lemma bounded_reads [bounded_intros]:
  "bounded_rd read_u8" "bounded_rd read_u16" "bounded_rd read_i16" "bounded_rd read_u32" "bounded_rd read_i32"
  "bounded_rd read_u64" "bounded_rd read_i64" "bounded_rd read_f64" "bounded_rd read_bool"
  "bounded_rd (read_raw_bytes w)" "bounded_rd (read_bytes w)" "bounded_rd (read_string w)"
  "bounded_rd read_id" "bounded_rd (rd_skip n)"
  unfolding read_u8_def read_u16_def read_i16_def read_u32_def read_i32_def read_u64_def read_i64_def
    read_f64_def read_bool_def read_raw_bytes_def read_bytes_def read_string_def read_id_def rd_skip_def
  by (intro bounded_intros bounded_rd_cond)+

lemma bounded_read_both [bounded_intros]: "bounded_rd p \<Longrightarrow> bounded_rd q \<Longrightarrow> bounded_rd (read_both p q)"
  unfolding read_both_def by (intro bounded_intros)

lemma bounded_need [bounded_intros]: "bounded_rd p \<Longrightarrow> bounded (need what p)"
  unfolding bounded_rd_def bounded_def need_def
  by (clarsimp split: prod.splits option.splits)

lemma bounded_return [bounded_intros]: "bounded (preturn x)"
  by (simp add: bounded_def preturn_def)

lemma bounded_fail [bounded_intros]: "bounded (pfail x)"
  by (simp add: bounded_def pfail_def)

lemma bounded_bind [bounded_intros]:
  assumes p: "bounded p" and f: "\<And>x. bounded (f x)"
  shows "bounded (pbind p f)"
  unfolding bounded_def
proof (intro allI impI)
  fix d i e res r'
  assume i: "i \<le> length d" and eq: "pbind p f \<lparr>rd_data = d, rd_pos = i\<rparr> = (res, r')"
  obtain v r1 where p1: "p \<lparr>rd_data = d, rd_pos = i\<rparr> = (v, r1)" by fastforce
  have 1: "rd_data r1 = d" "i \<le> rd_pos r1" "rd_pos r1 \<le> length d"
    "\<And>x. v = Inr x \<Longrightarrow> p \<lparr>rd_data = d @ e, rd_pos = i\<rparr> = (Inr x, r1\<lparr>rd_data := d @ e\<rparr>)"
    using p i p1 unfolding bounded_def by blast+
  show "rd_data r' = d \<and> i \<le> rd_pos r' \<and> rd_pos r' \<le> length d \<and>
     (\<forall>x. res = Inr x \<longrightarrow> pbind p f \<lparr>rd_data = d @ e, rd_pos = i\<rparr> = (Inr x, r'\<lparr>rd_data := d @ e\<rparr>))"
  proof (cases v)
    case (Inl a)
    then show ?thesis using eq p1 1 by (auto simp: pbind_def)
  next
    case (Inr x)
    have "\<lparr>rd_data = d, rd_pos = rd_pos r1\<rparr> = r1" using 1(1) by (cases r1) simp
    then have fx: "f x \<lparr>rd_data = d, rd_pos = rd_pos r1\<rparr> = (res, r')"
      using eq p1 Inr by (simp add: pbind_def)
    have r1: "r1\<lparr>rd_data := d @ e\<rparr> = \<lparr>rd_data = d @ e, rd_pos = rd_pos r1\<rparr>" by simp
    show ?thesis
      using f [of x, unfolded bounded_def, rule_format, OF 1(3) fx, of e] 1 Inr
      by (simp add: pbind_def r1 del: BinaryReader.update_convs)
  qed
qed

lemma bounded_cond [bounded_intros]: "bounded p \<Longrightarrow> bounded q \<Longrightarrow> bounded (if c then p else q)"
  by simp

lemma bounded_ploop [bounded_intros]: "bounded p \<Longrightarrow> bounded (ploop n p)"
  by (induction n) (auto intro!: bounded_intros)

lemma bounded_get_list [bounded_intros]: "bounded p \<Longrightarrow> bounded (get_list what p)"
  unfolding get_list_def by (intro bounded_intros)

lemma bounded_get_map [bounded_intros]: "bounded (get_map what what')"
  unfolding get_map_def by (intro bounded_intros)

lemma bounded_get_blob [bounded_intros]: "bounded (get_blob what what')"
  unfolding get_blob_def by (intro bounded_intros)

section \<open>Reading back what was written\<close>

definition reads :: "'a rd \<Rightarrow> byte list \<Rightarrow> 'a \<Rightarrow> bool" where
  "reads rd bs x \<longleftrightarrow> (\<forall>pre rest. rd \<lparr>rd_data = pre @ bs @ rest, rd_pos = length pre\<rparr> =
     (Some x, \<lparr>rd_data = pre @ bs @ rest, rd_pos = length pre + length bs\<rparr>))"

definition parses :: "'a parser \<Rightarrow> byte list \<Rightarrow> 'a \<Rightarrow> bool" where
  "parses p bs x \<longleftrightarrow> (\<forall>pre rest. p \<lparr>rd_data = pre @ bs @ rest, rd_pos = length pre\<rparr> =
     (Inr x, \<lparr>rd_data = pre @ bs @ rest, rd_pos = length pre + length bs\<rparr>))"

lemma reads_block: "length bs = n \<Longrightarrow> f bs = x \<Longrightarrow> reads (read_block n f) bs x"
  by (auto simp: reads_def read_block_def)

lemma reads_then:
  assumes "reads p bs x" "reads (f x) cs y"
  shows "reads (rd_then p f) (bs @ cs) y"
  unfolding reads_def
proof (intro allI)
  fix pre rest
  have "p \<lparr>rd_data = pre @ bs @ cs @ rest, rd_pos = length pre\<rparr> =
      (Some x, \<lparr>rd_data = pre @ bs @ cs @ rest, rd_pos = length pre + length bs\<rparr>)"
    using assms(1) by (simp add: reads_def)
  moreover have "f x \<lparr>rd_data = (pre @ bs) @ cs @ rest, rd_pos = length (pre @ bs)\<rparr> =
      (Some y, \<lparr>rd_data = (pre @ bs) @ cs @ rest, rd_pos = length (pre @ bs) + length cs\<rparr>)"
    using assms(2) unfolding reads_def by blast
  ultimately show "rd_then p f \<lparr>rd_data = pre @ (bs @ cs) @ rest, rd_pos = length pre\<rparr> =
      (Some y, \<lparr>rd_data = pre @ (bs @ cs) @ rest, rd_pos = length pre + length (bs @ cs)\<rparr>)"
    by (simp add: rd_then_def add.assoc)
qed

lemma reads_map: "reads p bs x \<Longrightarrow> f x = y \<Longrightarrow> reads (rd_map f p) bs y"
  by (auto simp: reads_def rd_map_def)

lemma reads_if: "reads p bs x \<Longrightarrow> P x \<Longrightarrow> reads (rd_if P p) bs x"
  by (auto simp: reads_def rd_if_def rd_then_def)

lemma be_fold_bytes_self: "LENGTH('a) = 8 * n \<Longrightarrow> be_fold (be_bytes n (v :: 'a::len word)) = v"
  by (simp add: be_fold_bytes take_bit_word_eq_self)

lemma put_u16_alt: "put_u16 v = be_bytes 2 v"
  by (simp add: put_u16_def numeral_2_eq_2)

lemma put_u32_alt: "put_u32 v = be_bytes 4 v"
  by (simp add: put_u32_def be_bytes_eq_map upt_rec)

lemma put_u64_alt: "put_u64 v = be_bytes 8 v"
  by (simp add: put_u64_def be_bytes_eq_map upt_rec)

lemma read_u16_alt: "read_u16 = read_block 2 be_fold"
proof -
  have "take 2 (drop i d) = [d ! i, d ! Suc i]" if "i + 2 \<le> length d" for i and d :: "byte list"
    using that by (simp add: numeral_2_eq_2 Cons_nth_drop_Suc [symmetric] take_Suc_conv_app_nth)
  then show ?thesis
    by (auto simp: fun_eq_iff read_u16_def read_block_def be_fold_def)
qed

lemma take_4_drop: "i + 4 \<le> length d \<Longrightarrow> take 4 (drop i d) = [d ! i, d ! (i + 1), d ! (i + 2), d ! (i + 3)]"
  by (rule nth_equalityI) (auto simp: less_Suc_eq numeral_eq_Suc)

lemma read_u32_alt: "read_u32 = read_block 4 be_fold"
proof -
  have "push_bit 24 a OR push_bit 16 b OR push_bit 8 c OR e =
      push_bit 8 (push_bit 8 (push_bit 8 a OR b) OR c) OR e" for a b c e :: u32
    by (simp add: push_bit_or or.assoc)
  then show ?thesis
    by (auto simp: fun_eq_iff read_u32_def read_block_def be_fold_def take_4_drop)
qed

lemma read_u64_alt: "read_u64 = read_block 8 be_fold"
  by (simp add: read_u64_def be_fold_def fun_eq_iff read_block_def)

lemma length_puts [simp]:
  "length (put_u8 a) = 1" "length (put_u16 b) = 2" "length (put_u32 c) = 4" "length (put_u64 e) = 8"
  by (simp_all add: put_u8_def put_u16_alt put_u32_alt put_u64_alt)

lemma reads_u8 [codec_intros]: "reads read_u8 (put_u8 v) v"
  by (auto simp: read_u8_def put_u8_def intro: reads_block)

lemma reads_u16 [codec_intros]: "reads read_u16 (put_u16 v) v"
  by (auto simp: read_u16_alt put_u16_alt be_fold_bytes_self intro: reads_block)

lemma reads_u32 [codec_intros]: "reads read_u32 (put_u32 v) v"
  by (auto simp: read_u32_alt put_u32_alt be_fold_bytes_self intro: reads_block)

lemma reads_u64 [codec_intros]: "reads read_u64 (put_u64 v) v"
  by (auto simp: read_u64_alt put_u64_alt be_fold_bytes_self intro: reads_block)

lemma reads_signed [codec_intros]:
  "reads read_i16 (put_i16 a) a" "reads read_i32 (put_i32 b) b" "reads read_i64 (put_i64 c) c"
  by (simp_all add: read_i16_def put_i16_def read_i32_def put_i32_def read_i64_def put_i64_def codec_intros)

lemma reads_f64 [codec_intros]: "reads read_f64 (put_f64 v) v"
  unfolding read_f64_def put_f64_def by (rule reads_map [OF reads_u64]) simp

lemma reads_bool [codec_intros]: "reads read_bool (put_bool v) v"
  unfolding read_bool_def put_bool_def by (rule reads_map [OF reads_u8]) simp

lemma reads_id [codec_intros]: "reads read_id (put_id v) v"
  by (auto simp: read_id_def put_id_def put_bytes_def intro: reads_block)

lemma bytes_string_char_bytes [simp]: "bytes_string (char_bytes s) = s"
proof -
  have "char_of (unat (of_nat (of_char c) :: byte)) = c" for c :: char
  proof -
    have "(of_char c :: nat) < 256" by (rule nat_of_char_less_256)
    then show ?thesis by (simp add: unat_of_nat)
  qed
  then show ?thesis by (simp add: bytes_string_def char_bytes_def o_def)
qed

lemma length_char_bytes [simp]: "length (char_bytes s) = length s"
  by (simp add: char_bytes_def)

lemma unat_count: "n \<le> unat (m :: u32) \<Longrightarrow> unat (of_nat n :: u32) = n"
  using unsigned_less [of m, where 'a = nat] by (simp add: unat_of_nat)

lemma count_le: "n \<le> unat (m :: u32) \<Longrightarrow> (of_nat n :: u32) \<le> m"
  by (simp add: word_le_nat_alt unat_count)

lemma reads_string [codec_intros]:
  assumes "length s \<le> unat m"
  shows "reads (read_string m) (put_string s) s"
proof -
  have "\<not> m < (of_nat (length s) :: u32)" using count_le [OF assms] by simp
  then have "reads (\<lambda>r. if m < (of_nat (length s) :: u32) then (None, r)
      else read_block (unat (of_nat (length s) :: u32)) bytes_string r) (char_bytes s) s"
    using unat_count [OF assms] by (auto intro: reads_block)
  then show ?thesis
    unfolding read_string_def put_string_def put_bytes_def by (rule reads_then [OF reads_u32])
qed

lemma reads_raw_bytes: "length bs \<le> unat (m :: u32) \<Longrightarrow> reads (read_raw_bytes (of_nat (length bs))) bs bs"
  unfolding read_raw_bytes_def by (rule reads_block) (simp_all add: unat_count [of _ m])

lemma reads_bytes [codec_intros]:
  assumes "length bs \<le> unat m"
  shows "reads (read_bytes m) (put_blob bs) bs"
proof -
  have "\<not> m < (of_nat (length bs) :: u32)" using count_le [OF assms] by simp
  then have "reads (\<lambda>r. if m < (of_nat (length bs) :: u32) then (None, r)
      else read_block (unat (of_nat (length bs) :: u32)) (\<lambda>b. b) r) bs bs"
    using unat_count [OF assms] by (auto intro: reads_block)
  then show ?thesis
    unfolding read_bytes_def put_blob_def put_bytes_def by (rule reads_then [OF reads_u32])
qed

lemma reads_both: "reads p bs x \<Longrightarrow> reads q cs y \<Longrightarrow> reads (read_both p q) (bs @ cs) (x, y)"
  unfolding read_both_def by (rule reads_then) (auto intro: reads_map)

lemma parses_need [codec_intros]: "reads p bs x \<Longrightarrow> parses (need what p) bs x"
  by (auto simp: reads_def parses_def need_def)

lemma parses_return: "parses (preturn x) [] x"
  by (simp add: parses_def preturn_def)

lemma parses_bind:
  assumes "parses p bs x" "parses (f x) cs y"
  shows "parses (pbind p f) (bs @ cs) y"
  unfolding parses_def
proof (intro allI)
  fix pre rest
  have "p \<lparr>rd_data = pre @ bs @ cs @ rest, rd_pos = length pre\<rparr> =
      (Inr x, \<lparr>rd_data = pre @ bs @ cs @ rest, rd_pos = length pre + length bs\<rparr>)"
    using assms(1) by (simp add: parses_def)
  moreover have "f x \<lparr>rd_data = (pre @ bs) @ cs @ rest, rd_pos = length (pre @ bs)\<rparr> =
      (Inr y, \<lparr>rd_data = (pre @ bs) @ cs @ rest, rd_pos = length (pre @ bs) + length cs\<rparr>)"
    using assms(2) unfolding parses_def by blast
  ultimately show "pbind p f \<lparr>rd_data = pre @ (bs @ cs) @ rest, rd_pos = length pre\<rparr> =
      (Inr y, \<lparr>rd_data = pre @ (bs @ cs) @ rest, rd_pos = length pre + length (bs @ cs)\<rparr>)"
    by (simp add: pbind_def add.assoc)
qed

lemma parses_last: "parses p bs x \<Longrightarrow> f x = preturn y \<Longrightarrow> parses (pbind p f) bs y"
  using parses_bind [of p bs x f "[]" y] parses_return [of y] by simp

lemma parses_ploop:
  "(\<And>x. x \<in> set xs \<Longrightarrow> parses p (enc x) x) \<Longrightarrow> parses (ploop (length xs) p) (concat (map enc xs)) xs"
  by (induction xs) (auto intro!: parses_return parses_bind intro: parses_last)

lemma parses_list [codec_intros]:
  assumes "length xs \<le> unat kMaxList" "\<And>x. x \<in> set xs \<Longrightarrow> parses p (enc x) x"
  shows "parses (get_list what p) (put_list enc xs) xs"
  unfolding get_list_def put_list_def
proof (rule parses_bind)
  show "parses (need what (rd_if (\<lambda>n. n \<le> kMaxList) read_u32)) (put_u32 (of_nat (length xs))) (of_nat (length xs))"
    by (intro codec_intros reads_if count_le assms)
  show "parses (ploop (unat (of_nat (length xs) :: u32)) p) (concat (map enc xs)) xs"
    using assms by (auto simp: unat_count intro!: parses_ploop)
qed

lemma map_of_reads_id: "omap_ok m \<Longrightarrow> map_of_reads m = m"
  using omap_of_entries_id [of m] by (simp add: map_of_reads_def omap_of_entries_def)

lemma parses_map [codec_intros]:
  assumes "omap_ok m" "length m \<le> unat kMaxList"
    and "\<And>k v. (k, v) \<in> set m \<Longrightarrow> length k \<le> unat kMaxString \<and> length v \<le> unat kMaxString"
  shows "parses (get_map what what') (put_map m) m"
  unfolding get_map_def put_map_def
proof (rule parses_last)
  show "parses (get_list what (need what' (read_both (read_string kMaxString) (read_string kMaxString))))
      (put_list put_pair m) m"
    using assms(2,3) by (force simp: put_pair_def intro!: codec_intros reads_both)
  show "preturn (map_of_reads m) = preturn m" by (simp add: map_of_reads_id assms(1))
qed

lemma parses_blob [codec_intros]:
  assumes "length bs \<le> unat kMaxString"
  shows "parses (get_blob what what') (put_blob bs) bs"
  unfolding get_blob_def put_blob_def put_bytes_def
proof (rule parses_bind)
  show "parses (need what (rd_if (\<lambda>n. n \<le> kMaxString) read_u32)) (put_u32 (of_nat (length bs))) (of_nat (length bs))"
    by (intro codec_intros reads_if count_le assms)
  show "parses (need what' (read_raw_bytes (of_nat (length bs)))) bs bs"
    by (intro codec_intros reads_raw_bytes [OF assms])
qed

section \<open>What a codec promises\<close>

text \<open>
  A serializer and a deserializer for the same type. From the two laws: encodings can be read back
  from inside a longer message, encoding is injective and no encoding is a proper prefix of another,
  and every proper prefix of an encoding is rejected.
\<close>

locale codec =
  fixes enc :: "'a \<Rightarrow> byte list" and dec :: "'a parser" and valid :: "'a \<Rightarrow> bool"
  assumes dec_bounded: "bounded dec"
    and dec_enc: "valid x \<Longrightarrow> parses dec (enc x) x"
begin

lemma decode_encoded:
  "valid x \<Longrightarrow> dec (reader_of (enc x @ rest)) = (Inr x, \<lparr>rd_data = enc x @ rest, rd_pos = length (enc x)\<rparr>)"
  using dec_enc [of x] unfolding parses_def reader_of_def by (metis append_Nil list.size(3) add_0)

lemma encode_prefix_free:
  assumes "valid x" "valid y" "enc x @ s = enc y @ t"
  shows "x = y \<and> s = t"
  using decode_encoded [OF assms(1), of s] decode_encoded [OF assms(2), of t] assms(3) by auto

lemma in_bounds:
  assumes "rd_ok r"
  shows "rd_ok (snd (dec r)) \<and> rd_data (snd (dec r)) = rd_data r \<and> rd_pos r \<le> rd_pos (snd (dec r))"
proof -
  have "r = \<lparr>rd_data = rd_data r, rd_pos = rd_pos r\<rparr>" by simp
  then show ?thesis
    using dec_bounded assms unfolding bounded_def rd_ok_def by (metis prod.collapse)
qed

lemma truncated_rejected:
  assumes "valid x" "k < length (enc x)"
  shows "\<exists>e. fst (dec (reader_of (take k (enc x)))) = Inl e"
proof (rule ccontr)
  assume "\<not> ?thesis"
  then obtain y r' where y: "dec (reader_of (take k (enc x))) = (Inr y, r')"
    by (metis old.sum.exhaust prod.collapse)
  have "dec \<lparr>rd_data = take k (enc x) @ drop k (enc x), rd_pos = 0\<rparr> =
      (Inr y, r'\<lparr>rd_data := take k (enc x) @ drop k (enc x)\<rparr>) \<and> rd_pos r' \<le> length (take k (enc x))"
    using dec_bounded y unfolding bounded_def reader_of_def by blast
  then show False
    using decode_encoded [OF assms(1), of "[]"] assms(2) by (cases r') (simp add: reader_of_def)
qed

end

end
