(* ===== verification/Resource.thy ===== *)
theory Resource
  imports Task
begin

text \<open>
  Node capacities and reservations (\<open>resource/capacity.h\<close>, \<open>resource/reservation.cpp\<close>). The
  registry is its map of reservations; a random identifier and a clock reading, drawn inside
  \<open>try_reserve\<close>, are arguments. Slot and byte counts keep their widths, so sums wrap around.
\<close>

section \<open>Capacities\<close>

type_synonym i32 = "32 word"
type_synonym i64 = "64 word"

datatype NodeHealth = NH_Online | NH_Suspect | NH_Draining | NH_Offline | NH_Other u8

fun node_health_to_u8 :: "NodeHealth \<Rightarrow> u8" where
  "node_health_to_u8 NH_Online = 0"
| "node_health_to_u8 NH_Suspect = 1"
| "node_health_to_u8 NH_Draining = 2"
| "node_health_to_u8 NH_Offline = 3"
| "node_health_to_u8 (NH_Other v) = v"

definition node_health_of_u8 :: "u8 \<Rightarrow> NodeHealth" where
  "node_health_of_u8 v =
     (if v = 0 then NH_Online else if v = 1 then NH_Suspect else if v = 2 then NH_Draining else if v = 3 then NH_Offline else 
      NH_Other v)"

fun node_health_name :: "NodeHealth \<Rightarrow> string" where
  "node_health_name NH_Online = ''online''"
| "node_health_name NH_Suspect = ''suspect''"
| "node_health_name NH_Draining = ''draining''"
| "node_health_name NH_Offline = ''offline''"
| "node_health_name (NH_Other v) = ''unknown''"

definition parse_node_health :: "string \<Rightarrow> NodeHealth option" where
  "parse_node_health s = find (\<lambda>c. node_health_name c = s) (map (\<lambda>i. node_health_of_u8 (of_nat i)) [0..<4])"

record ExecutorCapability =
  ec_type :: ExecutorType
  ec_name :: string
  ec_slots :: i32
  ec_major :: i32
  ec_minor :: i32
  ec_vendor :: string
  ec_architecture :: string
  ec_device_name :: string
  ec_device_memory_bytes :: u64
  ec_device_ids :: "i32 list"
  ec_relative_speed :: double
  ec_healthy :: bool
  ec_supports_preemption :: bool

definition default_executor :: ExecutorCapability where
  "default_executor =
     \<lparr>ec_type = ET_Cpu, ec_name = [], ec_slots = 0, ec_major = 0, ec_minor = 0, ec_vendor = [],
      ec_architecture = [], ec_device_name = [], ec_device_memory_bytes = 0, ec_device_ids = [],
      ec_relative_speed = 1, ec_healthy = True, ec_supports_preemption = False\<rparr>"

record NodeCapacity =
  nc_cpu_worker_slots :: i32
  nc_host_memory_scheduling_bytes :: u64
  nc_executors :: "ExecutorCapability list"
  nc_tags :: "(string, string) omap"
  nc_address :: string
  nc_label :: string

definition default_capacity :: NodeCapacity where
  "default_capacity =
     \<lparr>nc_cpu_worker_slots = 0, nc_host_memory_scheduling_bytes = 0, nc_executors = [],
      nc_tags = [], nc_address = [], nc_label = []\<rparr>"

record NodeRecord =
  n_id :: NodeId
  n_session :: NodeSessionId
  n_epoch :: CoordinatorEpoch
  n_session_epoch :: SessionEpoch
  n_health :: NodeHealth
  n_capacity :: NodeCapacity
  n_last_heartbeat_ms :: i64
  n_register_ms :: i64
  n_connected :: bool

definition default_node :: NodeRecord where
  "default_node =
     \<lparr>n_id = id_zero, n_session = id_zero, n_epoch = 0, n_session_epoch = 0, n_health = NH_Online,
      n_capacity = default_capacity, n_last_heartbeat_ms = 0, n_register_ms = 0, n_connected = False\<rparr>"

section \<open>Reservations\<close>

record Reservation =
  r_id :: ReservationId
  r_task_id :: ComputeTaskId
  r_node_id :: NodeId
  r_session_id :: NodeSessionId
  r_coordinator_epoch :: CoordinatorEpoch
  r_session_epoch :: SessionEpoch
  r_executor :: ExecutorType
  r_slots :: u32
  r_scratch_bytes :: u64
  r_created_at_ms :: i64
  r_released :: bool

record ReservationResult =
  rr_reservation :: "Reservation option"
  rr_reasons :: "string list"

type_synonym ReservationRegistry = "(ReservationId, Reservation) omap"

definition find_executor :: "NodeRecord \<Rightarrow> ExecutorType \<Rightarrow> ExecutorCapability option" where
  "find_executor node type = find (\<lambda>e. ec_type e = type) (nc_executors (n_capacity node))"

definition used_executor_slots_locked :: "ReservationRegistry \<Rightarrow> NodeId \<Rightarrow> ExecutorType \<Rightarrow> u32" where
  "used_executor_slots_locked reg node executor =
     sum_list (map r_slots (filter
       (\<lambda>r. r_node_id r = node \<and> r_executor r = executor \<and> \<not> r_released r) (map snd reg)))"

definition used_cpu_slots :: "ReservationRegistry \<Rightarrow> NodeId \<Rightarrow> u32" where
  "used_cpu_slots reg node =
     sum_list (map r_slots (filter (\<lambda>r. r_node_id r = node \<and> \<not> r_released r) (map snd reg)))"

definition used_slots :: "ReservationRegistry \<Rightarrow> NodeId \<Rightarrow> ExecutorType \<Rightarrow> u32" where
  "used_slots reg node executor = used_executor_slots_locked reg node executor"

definition used_scratch :: "ReservationRegistry \<Rightarrow> NodeId \<Rightarrow> u64" where
  "used_scratch reg node =
     sum_list (map r_scratch_bytes (filter (\<lambda>r. r_node_id r = node \<and> \<not> r_released r) (map snd reg)))"

definition reserve_refused :: "string \<Rightarrow> ReservationRegistry \<Rightarrow> ReservationResult \<times> ReservationRegistry" where
  "reserve_refused reason reg = (\<lparr>rr_reservation = None, rr_reasons = [reason]\<rparr>, reg)"

definition try_reserve :: "ReservationId \<Rightarrow> i64 \<Rightarrow> NodeRecord \<Rightarrow> CoordinatorEpoch \<Rightarrow> ComputeTaskId \<Rightarrow>
    ExecutorType \<Rightarrow> u32 \<Rightarrow> u64 \<Rightarrow> ReservationRegistry \<Rightarrow> ReservationResult \<times> ReservationRegistry" where
  "try_reserve new_id now node epoch task executor slots scratch reg =
     (if n_health node = NH_Offline then reserve_refused ''node offline'' reg
      else if n_health node = NH_Draining then reserve_refused ''node draining'' reg
      else case find_executor node executor of
        None \<Rightarrow> reserve_refused ''requested executor not present on node'' reg
      | Some cap \<Rightarrow>
          let used = used_executor_slots_locked reg (n_id node) executor in
          if \<not> ec_healthy cap then reserve_refused ''executor unhealthy'' reg
          else if slots = 0 then reserve_refused ''zero slots requested'' reg
          else if ec_slots cap < used + slots then
            reserve_refused (''insufficient executor slots ('' @ u64_to_string slots @ '' needed, '' @
              u64_to_string (ec_slots cap - used) @ '' free)'') reg
          else if executor = ET_Cpu \<and>
            nc_cpu_worker_slots (n_capacity node) < used_cpu_slots reg (n_id node) + slots then
            reserve_refused ''insufficient CPU worker slots'' reg
          else if nc_host_memory_scheduling_bytes (n_capacity node) < used_scratch reg (n_id node) + scratch \<and>
            0 < scratch then
            reserve_refused ''scratch budget exceeded'' reg
          else
            let r = \<lparr>r_id = new_id, r_task_id = task, r_node_id = n_id node, r_session_id = n_session node,
                     r_coordinator_epoch = epoch, r_session_epoch = n_session_epoch node,
                     r_executor = executor, r_slots = slots, r_scratch_bytes = scratch,
                     r_created_at_ms = now, r_released = False\<rparr>
            in (\<lparr>rr_reservation = Some r, rr_reasons = []\<rparr>, omap_put new_id r reg))"

definition release :: "ReservationId \<Rightarrow> ReservationRegistry \<Rightarrow> unit result \<times> ReservationRegistry" where
  "release i reg =
     (case map_of reg i of
        None \<Rightarrow> (fail_with E_ReservationNotFound ''reservation not found'', reg)
      | Some r \<Rightarrow>
          if r_released r then (fail_with E_ReservationNotFound ''reservation already released'', reg)
          else (Inr (), omap_put i (r\<lparr>r_released := True\<rparr>) reg))"

definition release_all_for_node :: "NodeId \<Rightarrow> ReservationRegistry \<Rightarrow> ReservationRegistry" where
  "release_all_for_node node reg =
     omap_map (\<lambda>r. if r_node_id r = node then r\<lparr>r_released := True\<rparr> else r) reg"

definition invalidate_before :: "CoordinatorEpoch \<Rightarrow> ReservationRegistry \<Rightarrow> nat \<times> ReservationRegistry" where
  "invalidate_before epoch reg =
     (let stale = (\<lambda>r. r_coordinator_epoch r \<noteq> epoch \<and> \<not> r_released r) in
      (length (filter stale (map snd reg)),
       omap_map (\<lambda>r. if stale r then r\<lparr>r_released := True\<rparr> else r) reg))"

definition invalidate_session :: "NodeId \<Rightarrow> NodeSessionId \<Rightarrow> ReservationRegistry \<Rightarrow> nat \<times> ReservationRegistry" where
  "invalidate_session node session reg =
     (let stale = (\<lambda>r. r_node_id r = node \<and> r_session_id r = session \<and> \<not> r_released r) in
      (length (filter stale (map snd reg)),
       omap_map (\<lambda>r. if stale r then r\<lparr>r_released := True\<rparr> else r) reg))"

definition find_reservation :: "ReservationRegistry \<Rightarrow> ReservationId \<Rightarrow> Reservation option" where
  "find_reservation reg i = map_of reg i"

definition active_for_node :: "ReservationRegistry \<Rightarrow> NodeId \<Rightarrow> Reservation list" where
  "active_for_node reg node = filter (\<lambda>r. r_node_id r = node \<and> \<not> r_released r) (map snd reg)"

definition active_count :: "ReservationRegistry \<Rightarrow> nat" where
  "active_count reg = length (filter (\<lambda>r. \<not> r_released r) (map snd reg))"

definition all_active :: "ReservationRegistry \<Rightarrow> Reservation list" where
  "all_active reg = filter (\<lambda>r. \<not> r_released r) (map snd reg)"

section \<open>Enumeration on the wire\<close>

fun node_health_ok :: "NodeHealth \<Rightarrow> bool" where
  "node_health_ok (NH_Other v) = (4 \<le> unat v)"
| "node_health_ok _ = True"

lemma node_health_to_of_u8 [enum_simps]: "node_health_to_u8 (node_health_of_u8 v) = v"
  by (simp add: node_health_of_u8_def)

lemma node_health_of_to_u8 [enum_simps]: "node_health_ok c \<Longrightarrow> node_health_of_u8 (node_health_to_u8 c) = c"
  by (cases c) (auto simp: node_health_of_u8_def)

lemma node_health_name_roundtrip [enum_simps]:
  "\<forall>v. c \<noteq> NH_Other v \<Longrightarrow> parse_node_health (node_health_name c) = Some c"
  by (cases c) (simp_all add: parse_node_health_def node_health_of_u8_def upt_rec)

section \<open>Usage as exact sums\<close>

text \<open>The exact amount held by the active reservations that satisfy \<open>P\<close>, without wrap-around.\<close>

definition held :: "(Reservation \<Rightarrow> bool) \<Rightarrow> (Reservation \<Rightarrow> nat) \<Rightarrow> ReservationRegistry \<Rightarrow> nat" where
  "held P f reg = sum_list (map f (filter (\<lambda>r. P r \<and> \<not> r_released r) (map snd reg)))"

definition slots_on :: "NodeId \<Rightarrow> ExecutorType \<Rightarrow> ReservationRegistry \<Rightarrow> nat" where
  "slots_on node executor = held (\<lambda>r. r_node_id r = node \<and> r_executor r = executor) (unat \<circ> r_slots)"

definition cpu_slots_on :: "NodeId \<Rightarrow> ReservationRegistry \<Rightarrow> nat" where
  "cpu_slots_on node = held (\<lambda>r. r_node_id r = node) (unat \<circ> r_slots)"

definition scratch_on :: "NodeId \<Rightarrow> ReservationRegistry \<Rightarrow> nat" where
  "scratch_on node = held (\<lambda>r. r_node_id r = node) (unat \<circ> r_scratch_bytes)"

lemma unat_sum_list: "unat (sum_list (map f xs) :: 'a::len word) = sum_list (map (unat \<circ> f) xs) mod 2 ^ LENGTH('a)"
proof (induction xs)
  case (Cons x xs)
  then show ?case by (simp add: unat_word_ariths mod_simps)
qed simp

lemma used_exact:
  "unat (used_executor_slots_locked reg node executor) = slots_on node executor reg mod 2 ^ 32"
  "unat (used_cpu_slots reg node) = cpu_slots_on node reg mod 2 ^ 32"
  "unat (used_scratch reg node) = scratch_on node reg mod 2 ^ 64"
  by (simp_all add: used_executor_slots_locked_def used_cpu_slots_def used_scratch_def slots_on_def
      cpu_slots_on_def scratch_on_def held_def unat_sum_list conj_assoc del: map_map)

lemma held_Nil [simp]: "held P f [] = 0"
  by (simp add: held_def)

lemma held_Cons [simp]:
  "held P f (e # reg) = (if P (snd e) \<and> \<not> r_released (snd e) then f (snd e) else 0) + held P f reg"
  by (simp add: held_def)

lemma held_put_le:
  "held P f (omap_put i r reg) \<le> held P f reg + (if P r \<and> \<not> r_released r then f r else 0)"
  by (induction reg) auto

lemma held_omap_map_le:
  assumes "\<And>r. P (g r) \<and> \<not> r_released (g r) \<Longrightarrow> P r \<and> \<not> r_released r \<and> f (g r) = f r"
  shows "held P f (omap_map g reg) \<le> held P f reg"
proof (induction reg)
  case (Cons e reg)
  have eq: "omap_map g (e # reg) = (fst e, g (snd e)) # omap_map g reg" by (simp add: omap_map_def)
  have le: "(if P (g (snd e)) \<and> \<not> r_released (g (snd e)) then f (g (snd e)) else 0)
      \<le> (if P (snd e) \<and> \<not> r_released (snd e) then f (snd e) else 0)"
    using assms [of "snd e"] by simp
  show ?case unfolding eq held_Cons snd_conv by (rule add_mono [OF le Cons.IH])
qed (simp add: omap_map_def)

lemma held_release_le: "held P f (snd (release i reg)) \<le> held P f reg"
proof (cases "fst (release i reg) = Inr ()")
  case True
  then obtain r where "snd (release i reg) = omap_put i (r\<lparr>r_released := True\<rparr>) reg"
    by (auto simp: release_def fail_with_def split: option.splits if_splits)
  then show ?thesis using held_put_le [of P f i "r\<lparr>r_released := True\<rparr>" reg] by simp
next
  case False
  then have "snd (release i reg) = reg"
    by (auto simp: release_def split: option.splits if_splits)
  then show ?thesis by simp
qed

text \<open>The operations that give slots back never raise what is held.\<close>

lemma held_release_all_le: "held P f (release_all_for_node node reg) \<le> held P f reg"
  unfolding release_all_for_node_def by (rule held_omap_map_le) (auto split: if_splits)

lemma held_invalidate_le:
  "held P f (snd (invalidate_before epoch reg)) \<le> held P f reg"
  "held P f (snd (invalidate_session node session reg)) \<le> held P f reg"
  unfolding invalidate_before_def invalidate_session_def Let_def snd_conv
  by (rule held_omap_map_le, auto split: if_splits)+

lemma try_reserve_cases:
  obtains reason where "try_reserve i now node epoch task ex slots scratch reg = reserve_refused reason reg"
  | cap r where "find_executor node ex = Some cap" "slots \<noteq> 0"
      "used_executor_slots_locked reg (n_id node) ex + slots \<le> ec_slots cap"
      "ex = ET_Cpu \<Longrightarrow> used_cpu_slots reg (n_id node) + slots \<le> nc_cpu_worker_slots (n_capacity node)"
      "scratch \<noteq> 0 \<Longrightarrow> used_scratch reg (n_id node) + scratch \<le> nc_host_memory_scheduling_bytes (n_capacity node)"
      "n_health node \<noteq> NH_Offline" "n_health node \<noteq> NH_Draining" "ec_healthy cap"
      "r = \<lparr>r_id = i, r_task_id = task, r_node_id = n_id node, r_session_id = n_session node,
            r_coordinator_epoch = epoch, r_session_epoch = n_session_epoch node, r_executor = ex,
            r_slots = slots, r_scratch_bytes = scratch, r_created_at_ms = now, r_released = False\<rparr>"
      "try_reserve i now node epoch task ex slots scratch reg =
         (\<lparr>rr_reservation = Some r, rr_reasons = []\<rparr>, omap_put i r reg)"
proof (cases "\<exists>reason. try_reserve i now node epoch task ex slots scratch reg = reserve_refused reason reg")
  case True
  then show thesis using that(1) by blast
next
  case False
  then have refused: "try_reserve i now node epoch task ex slots scratch reg \<noteq> reserve_refused reason reg" for reason
    by blast
  have health: "n_health node \<noteq> NH_Offline" "n_health node \<noteq> NH_Draining"
    using refused [of "''node offline''"] refused [of "''node draining''"] by (auto simp: try_reserve_def)
  then obtain cap where cap: "find_executor node ex = Some cap"
    using refused [of "''requested executor not present on node''"]
    by (cases "find_executor node ex") (auto simp: try_reserve_def)
  note eq = try_reserve_def [of i now node epoch task ex slots scratch reg, unfolded cap option.case Let_def]
  have "ec_healthy cap"
    using refused [of "''executor unhealthy''"] health by (auto simp: eq split: if_splits)
  moreover from this have "slots \<noteq> 0"
    using refused [of "''zero slots requested''"] health by (auto simp: eq split: if_splits)
  ultimately have ok: "ec_healthy cap" "slots \<noteq> 0" by auto
  have s1: "\<not> ec_slots cap < used_executor_slots_locked reg (n_id node) ex + slots"
    by (rule notI, rule notE [OF refused]) (use health ok in \<open>simp add: eq\<close>)
  have s2: "\<not> (ex = ET_Cpu \<and>
      nc_cpu_worker_slots (n_capacity node) < used_cpu_slots reg (n_id node) + slots)"
    by (rule notI, rule notE [OF refused], unfold eq) (use health ok s1 in simp)
  have s3: "\<not> (nc_host_memory_scheduling_bytes (n_capacity node) < used_scratch reg (n_id node) + scratch \<and>
      0 < scratch)"
    by (rule notI, rule notE [OF refused], unfold eq if_not_P [OF s1] if_not_P [OF s2])
      (use health ok in simp)
  have granted: "try_reserve i now node epoch task ex slots scratch reg =
      (\<lparr>rr_reservation = Some r, rr_reasons = []\<rparr>, omap_put i r reg)"
    if "r = \<lparr>r_id = i, r_task_id = task, r_node_id = n_id node, r_session_id = n_session node,
            r_coordinator_epoch = epoch, r_session_epoch = n_session_epoch node, r_executor = ex,
            r_slots = slots, r_scratch_bytes = scratch, r_created_at_ms = now, r_released = False\<rparr>" for r
    unfolding eq that if_not_P [OF s1] if_not_P [OF s2] if_not_P [OF s3] using health ok by simp
  show thesis
    by (rule that(2) [OF cap ok(2) _ _ _ health ok(1) refl granted [OF refl]])
      (use s1 s2 s3 in \<open>simp_all add: not_less word_gt_0\<close>)
qed

text \<open>
  What the registry promises for a node: on every executor the slots held by active reservations
  do not exceed the slots the node declares.
\<close>

definition within_capacity :: "NodeRecord \<Rightarrow> ReservationRegistry \<Rightarrow> bool" where
  "within_capacity node reg =
     (\<forall>ex cap. find_executor node ex = Some cap \<longrightarrow> slots_on (n_id node) ex reg \<le> unat (ec_slots cap))"

definition declared_ok :: "NodeRecord \<Rightarrow> bool" where
  "declared_ok node = (\<forall>ex cap. find_executor node ex = Some cap \<longrightarrow> unat (ec_slots cap) < 2 ^ 31)"

lemma within_capacity_less:
  "within_capacity node reg \<Longrightarrow> slots_on (n_id node) ex reg' \<le> slots_on (n_id node) ex reg \<Longrightarrow>
   find_executor node ex = Some cap \<Longrightarrow> slots_on (n_id node) ex reg' \<le> unat (ec_slots cap)"
  by (auto simp: within_capacity_def intro: le_trans)

lemma within_capacity_mono:
  assumes "within_capacity node reg" "\<And>P f. held P f reg' \<le> held P f reg"
  shows "within_capacity node reg'"
  using assms unfolding within_capacity_def slots_on_def by (meson le_trans)

lemma reserve_slots_on:
  assumes "slots_on (n_id node) ex reg + unat slots < 2 ^ 32" "find_executor node ex = Some cap"
    "used_executor_slots_locked reg (n_id node) ex + slots \<le> ec_slots cap"
  shows "slots_on (n_id node) ex reg + unat slots \<le> unat (ec_slots cap)"
proof -
  have "unat (used_executor_slots_locked reg (n_id node) ex + slots) =
        (slots_on (n_id node) ex reg mod 2 ^ 32 + unat slots) mod 2 ^ 32"
    by (simp add: unat_word_ariths used_exact)
  also have "\<dots> = slots_on (n_id node) ex reg + unat slots" using assms(1) by simp
  finally show ?thesis using assms(3) by (simp add: word_le_nat_alt)
qed

lemma within_capacity_reserve:
  assumes "within_capacity node reg" "declared_ok node" "unat slots < 2 ^ 31"
  shows "within_capacity node (snd (try_reserve i now node epoch task ex slots scratch reg))"
proof (cases rule: try_reserve_cases [of i now node epoch task ex slots scratch reg])
  case 1
  then show ?thesis using assms(1) by (simp add: reserve_refused_def)
next
  case (2 cap r)
  have "slots_on (n_id node) ex reg + unat slots < 2 ^ 32"
    using assms 2(1) by (fastforce simp: within_capacity_def declared_ok_def)
  then have room: "slots_on (n_id node) ex reg + unat slots \<le> unat (ec_slots cap)"
    using 2 by (intro reserve_slots_on)
  show ?thesis unfolding within_capacity_def 2(10) snd_conv
  proof (intro allI impI)
    fix ex' cap' assume cap': "find_executor node ex' = Some cap'"
    have "slots_on (n_id node) ex' (omap_put i r reg) \<le>
          slots_on (n_id node) ex' reg + (if ex' = ex then unat slots else 0)"
      unfolding slots_on_def
      using held_put_le [of "\<lambda>r. r_node_id r = n_id node \<and> r_executor r = ex'" "unat \<circ> r_slots" i r reg] 2(9)
      by (auto split: if_splits)
    then show "slots_on (n_id node) ex' (omap_put i r reg) \<le> unat (ec_slots cap')"
      using room within_capacity_less [OF assms(1) _ cap'] cap' 2(1) by (cases "ex' = ex") auto
  qed
qed

lemma within_capacity_reserve_other:
  assumes "within_capacity node reg" "n_id other \<noteq> n_id node"
  shows "within_capacity node (snd (try_reserve i now other epoch task ex slots scratch reg))"
proof (cases rule: try_reserve_cases [of i now other epoch task ex slots scratch reg])
  case 1
  then show ?thesis using assms(1) by (simp add: reserve_refused_def)
next
  case (2 cap r)
  show ?thesis unfolding within_capacity_def 2(10) snd_conv
  proof (intro allI impI)
    fix ex' cap' assume cap': "find_executor node ex' = Some cap'"
    have "slots_on (n_id node) ex' (omap_put i r reg) \<le> slots_on (n_id node) ex' reg"
      unfolding slots_on_def
      using held_put_le [of "\<lambda>r. r_node_id r = n_id node \<and> r_executor r = ex'" "unat \<circ> r_slots" i r reg] 2(9)
        assms(2) by simp
    then show "slots_on (n_id node) ex' (omap_put i r reg) \<le> unat (ec_slots cap')"
      by (rule within_capacity_less [OF assms(1) _ cap'])
  qed
qed

text \<open>
  The registry as a state machine, seen from one node: reservations on the node by requests whose
  slot count is a nonnegative \<open>int32_t\<close>, any reservation elsewhere, and every operation that gives
  reservations back.
\<close>

inductive registry_step :: "NodeRecord \<Rightarrow> ReservationRegistry \<Rightarrow> ReservationRegistry \<Rightarrow> bool" for node where
  step_reserve: "unat slots < 2 ^ 31 \<Longrightarrow>
    registry_step node reg (snd (try_reserve i now node epoch task ex slots scratch reg))"
| step_reserve_other: "n_id other \<noteq> n_id node \<Longrightarrow>
    registry_step node reg (snd (try_reserve i now other epoch task ex slots scratch reg))"
| step_release: "registry_step node reg (snd (release i reg))"
| step_release_all: "registry_step node reg (release_all_for_node m reg)"
| step_invalidate_before: "registry_step node reg (snd (invalidate_before epoch reg))"
| step_invalidate_session: "registry_step node reg (snd (invalidate_session m session reg))"

inductive_cases registry_stepE: "registry_step node reg reg'"

lemma registry_step_capacity:
  "registry_step node reg reg' \<Longrightarrow> declared_ok node \<Longrightarrow> within_capacity node reg \<Longrightarrow> within_capacity node reg'"
  by (cases rule: registry_step.cases, assumption)
    (auto intro: within_capacity_reserve within_capacity_reserve_other within_capacity_mono
       held_release_le held_release_all_le held_invalidate_le)

lemma within_capacity_empty: "within_capacity node []"
  by (simp add: within_capacity_def slots_on_def)

section \<open>Properties\<close>


definition sample_node :: NodeRecord where
  "sample_node = default_node\<lparr>n_id := Id128 0 9, n_capacity := default_capacity
     \<lparr>nc_cpu_worker_slots := 4, nc_executors := [default_executor\<lparr>ec_slots := 4\<rparr>]\<rparr>\<rparr>"

definition one_reserved :: ReservationRegistry where
  "one_reserved = snd (try_reserve (Id128 0 1) 0 sample_node 1 (Id128 0 5) ET_Cpu 1 0 [])"

lemma sample_node_simps:
  "find_executor sample_node ET_Cpu = Some (default_executor\<lparr>ec_slots := 4\<rparr>)" "declared_ok sample_node"
  "n_id sample_node = Id128 0 9" "n_health sample_node = NH_Online" "n_session sample_node = id_zero"
  "nc_cpu_worker_slots (n_capacity sample_node) = 4"
  by (simp_all add: sample_node_def find_executor_def declared_ok_def default_node_def
      default_capacity_def default_executor_def)

lemma one_reserved_eq:
  "one_reserved = [(Id128 0 1, \<lparr>r_id = Id128 0 1, r_task_id = Id128 0 5, r_node_id = Id128 0 9,
     r_session_id = id_zero, r_coordinator_epoch = 1, r_session_epoch = n_session_epoch sample_node,
     r_executor = ET_Cpu, r_slots = 1, r_scratch_bytes = 0, r_created_at_ms = 0, r_released = False\<rparr>)]"
  by (simp add: one_reserved_def try_reserve_def sample_node_simps default_executor_def Let_def
      used_executor_slots_locked_def used_cpu_slots_def)


text \<open>
  The bound on requests is needed. With one slot of four in use, a request for \<open>2 ^ 32 - 1\<close>
  slots passes the check, because \<open>used + slots\<close> wraps around to 0, and the executor is
  overcommitted by the granted reservation.
\<close>

theorem reserve_wraparound_overcommits:
  "rr_reservation (fst (try_reserve (Id128 0 2) 0 sample_node 1 (Id128 0 6) ET_Cpu 0xFFFFFFFF 0 one_reserved)) \<noteq> None \<and>
   4 < slots_on (Id128 0 9) ET_Cpu
     (snd (try_reserve (Id128 0 2) 0 sample_node 1 (Id128 0 6) ET_Cpu 0xFFFFFFFF 0 one_reserved))"
  by (simp add: try_reserve_def sample_node_simps default_executor_def Let_def one_reserved_eq
      used_executor_slots_locked_def used_cpu_slots_def slots_on_def less_Id128_def)

text \<open>
  A reservation is given back exactly once. \<open>release\<close> succeeds on an active reservation and
  then the registry has one active reservation less; on an unknown or released one it fails and
  changes nothing, so that releasing again fails.
\<close>

theorem release_exactly_once:
  assumes "omap_ok reg"
  shows "(fst (release i reg) = Inr () \<longleftrightarrow> (\<exists>r. find_reservation reg i = Some r \<and> \<not> r_released r)) \<and>
    active_count reg = active_count (snd (release i reg)) + (if fst (release i reg) = Inr () then 1 else 0) \<and>
    fst (release i (snd (release i reg))) = Inl (make_error E_ReservationNotFound
      (if find_reservation reg i = None then ''reservation not found'' else ''reservation already released''))"
proof -
  have count: "omap_ok reg \<Longrightarrow> map_of reg i = Some r \<Longrightarrow> \<not> r_released r \<Longrightarrow>
      active_count reg = Suc (active_count (omap_put i (r\<lparr>r_released := True\<rparr>) reg))" for r
  proof (induction reg)
    case (Cons e reg)
    show ?case
    proof (cases "fst e = i")
      case True
      then show ?thesis using Cons.prems by (simp add: active_count_def)
    next
      case False
      then have "map_of reg i = Some r" using Cons.prems(2) by simp
      moreover from this have "fst e < i" using Cons.prems(1) by (force simp: omap_ok_Cons dest: map_of_SomeD)
      ultimately show ?thesis using Cons by (simp add: active_count_def omap_ok_Cons)
    qed
  qed simp
  show ?thesis
  proof (cases "map_of reg i")
    case (Some r)
    then show ?thesis using count [OF assms Some]
      by (cases "r_released r") (simp_all add: release_def find_reservation_def fail_with_def)
  qed (simp add: release_def find_reservation_def fail_with_def)
qed

theorem release_exactly_once_witness:
  "omap_ok one_reserved \<and> fst (release (Id128 0 1) one_reserved) = Inr () \<and>
   active_count (snd (release (Id128 0 1) one_reserved)) = 0"
proof -
  have ok: "omap_ok one_reserved" and one: "active_count one_reserved = 1"
    by (simp_all add: one_reserved_eq omap_ok_Cons active_count_def)
  have "\<exists>r. find_reservation one_reserved (Id128 0 1) = Some r \<and> \<not> r_released r"
    by (simp add: find_reservation_def one_reserved_eq)
  then have "fst (release (Id128 0 1) one_reserved) = Inr ()"
    using release_exactly_once [OF ok, of "Id128 0 1", THEN conjunct1] by (rule iffD2 [rotated])
  then show ?thesis
    using release_exactly_once [OF ok, of "Id128 0 1", THEN conjunct2, THEN conjunct1] ok one by simp
qed

text \<open>
  After \<open>invalidate_before epoch\<close> every active reservation belongs to the current epoch, the
  reservations of the current epoch are untouched, and the returned number is how many were
  invalidated.
\<close>

theorem invalidate_before_correct:
  "let (n, reg') = invalidate_before epoch reg in
     (\<forall>r \<in> set (all_active reg'). r_coordinator_epoch r = epoch) \<and>
     all_active reg' = filter (\<lambda>r. r_coordinator_epoch r = epoch) (all_active reg) \<and>
     n + active_count reg' = active_count reg"
proof -
  have "all_active (snd (invalidate_before epoch reg)) = filter (\<lambda>r. r_coordinator_epoch r = epoch) (all_active reg)"
    by (induction reg) (auto simp: all_active_def invalidate_before_def omap_map_def Let_def)
  moreover have "fst (invalidate_before epoch reg) + active_count (snd (invalidate_before epoch reg)) = active_count reg"
    by (induction reg) (auto simp: active_count_def invalidate_before_def omap_map_def Let_def)
  ultimately show ?thesis by (simp add: case_prod_beta Let_def)
qed

theorem invalidate_before_correct_witness:
  "fst (invalidate_before 2 one_reserved) + active_count (snd (invalidate_before 2 one_reserved)) = 1"
  using invalidate_before_correct [of 2 one_reserved]
  by (simp add: Let_def case_prod_beta one_reserved_eq active_count_def)

end
