(* ===== verification/State_Locality.thy ===== *)
theory State_Locality
  imports Resource
begin

text \<open>
  The coordinator's registry of reusable state (\<open>state/state_locality.h\<close>, \<open>state_locality.cpp\<close>):
  where a state object is believed to be held and what moving or recomputing it would cost.
\<close>

record StateLocation =
  sl_state_id :: string
  sl_generation :: string
  sl_size_bytes :: u64
  sl_resident_nodes :: "NodeId list"
  sl_locality_quality :: double
  sl_transfer_estimate_seconds :: double
  sl_recompute_estimate_seconds :: double
  sl_compatibility :: string

type_synonym StateLocalityRegistry = "(string, StateLocation) omap"

definition sl_upsert :: "StateLocation \<Rightarrow> StateLocalityRegistry \<Rightarrow> StateLocalityRegistry" where
  "sl_upsert loc reg = omap_put (sl_state_id loc) loc reg"

definition sl_remove :: "string \<Rightarrow> StateLocalityRegistry \<Rightarrow> StateLocalityRegistry" where
  "sl_remove i reg = omap_del i reg"

definition sl_find :: "StateLocalityRegistry \<Rightarrow> string \<Rightarrow> StateLocation option" where
  "sl_find reg i = map_of reg i"

definition sl_resident_on :: "StateLocalityRegistry \<Rightarrow> string \<Rightarrow> NodeId \<Rightarrow> bool" where
  "sl_resident_on reg i node =
     (case map_of reg i of None \<Rightarrow> False | Some loc \<Rightarrow> node \<in> set (sl_resident_nodes loc))"

definition sl_resident_nodes_of :: "StateLocalityRegistry \<Rightarrow> string \<Rightarrow> NodeId list" where
  "sl_resident_nodes_of reg i =
     (case map_of reg i of None \<Rightarrow> [] | Some loc \<Rightarrow> sl_resident_nodes loc)"

definition sl_all :: "StateLocalityRegistry \<Rightarrow> StateLocation list" where
  "sl_all reg = map snd reg"

text \<open>One round of the loop of \<open>transfer_seconds_for\<close>: the total after one dependency.\<close>

definition transfer_add :: "StateLocalityRegistry \<Rightarrow> NodeId \<Rightarrow> double \<Rightarrow> double \<Rightarrow>
    double \<Rightarrow> StateDependency \<Rightarrow> double" where
  "transfer_add reg node bandwidth latency acc dep =
     (if sl_resident_on reg (sd_state_id dep) node then acc
      else if 0 \<le> sd_transfer_estimate_seconds dep then acc + sd_transfer_estimate_seconds dep
      else case sl_find reg (sd_state_id dep) of
        Some loc \<Rightarrow>
          if 0 \<le> sl_transfer_estimate_seconds loc then acc + sl_transfer_estimate_seconds loc
          else (if 0 < bandwidth then acc + f64_of_nat (unat (sl_size_bytes loc)) / bandwidth else acc) + latency
      | None \<Rightarrow>
          (if 0 < bandwidth then acc + f64_of_nat (unat (sd_size_bytes dep)) / bandwidth else acc) + latency)"

definition transfer_seconds_for :: "StateLocalityRegistry \<Rightarrow> ComputeTask \<Rightarrow> NodeId \<Rightarrow> double \<Rightarrow> double \<Rightarrow> double" where
  "transfer_seconds_for reg task node bandwidth latency =
     foldl (transfer_add reg node bandwidth latency) 0 (t_state_dependencies task)"

definition recompute_add :: "StateLocalityRegistry \<Rightarrow> double \<Rightarrow> StateDependency \<Rightarrow> double" where
  "recompute_add reg acc dep =
     (if 0 \<le> sd_recompute_estimate_seconds dep then acc + sd_recompute_estimate_seconds dep
      else case sl_find reg (sd_state_id dep) of
        Some loc \<Rightarrow> if 0 \<le> sl_recompute_estimate_seconds loc then acc + sl_recompute_estimate_seconds loc else acc
      | None \<Rightarrow> acc)"

definition recompute_seconds_for :: "StateLocalityRegistry \<Rightarrow> ComputeTask \<Rightarrow> double" where
  "recompute_seconds_for reg task = foldl (recompute_add reg) 0 (t_state_dependencies task)"

definition state_bytes_for :: "StateLocalityRegistry \<Rightarrow> ComputeTask \<Rightarrow> u64" where
  "state_bytes_for reg task =
     foldl (\<lambda>acc dep. acc + (case sl_find reg (sd_state_id dep) of
        Some loc \<Rightarrow> sl_size_bytes loc | None \<Rightarrow> sd_size_bytes dep)) 0 (t_state_dependencies task)"

section \<open>Costs are nonnegative\<close>

lemma transfer_add_nonneg:
  assumes "f64_nonneg acc" "f64_nonneg latency" "f64_nonneg bandwidth" "\<not> f64_is_inf bandwidth"
  shows "f64_nonneg (transfer_add reg node bandwidth latency acc dep)"
proof -
  have "0 < bandwidth \<Longrightarrow> f64_nonneg (f64_of_nat n / bandwidth)" for n
    using f64_div_nonneg(1) [of "f64_of_nat n" bandwidth] assms by (simp add: less_double_def)
  then show ?thesis
    using assms by (auto simp: transfer_add_def f64_nonneg_iff [symmetric] split: option.splits)
qed

lemma foldl_invariant: "P a \<Longrightarrow> (\<And>a x. P a \<Longrightarrow> P (f a x)) \<Longrightarrow> P (foldl f a xs)"
  by (induction xs arbitrary: a) auto

lemma transfer_seconds_nonneg:
  assumes "f64_nonneg latency" "f64_nonneg bandwidth" "\<not> f64_is_inf bandwidth"
  shows "f64_nonneg (transfer_seconds_for reg task node bandwidth latency)"
  unfolding transfer_seconds_for_def
  by (rule foldl_invariant) (use transfer_add_nonneg assms in auto)

lemma recompute_seconds_nonneg: "f64_nonneg (recompute_seconds_for reg task)"
  unfolding recompute_seconds_for_def
  by (rule foldl_invariant) (auto simp: recompute_add_def f64_nonneg_iff [symmetric] split: option.splits)

text \<open>A state that has just been recorded is found as recorded, and no other state is affected.\<close>

lemma sl_find_upsert: "sl_find (sl_upsert loc reg) i = (if i = sl_state_id loc then Some loc else sl_find reg i)"
  by (simp add: sl_find_def sl_upsert_def)

lemma sl_find_remove: "sl_find (sl_remove k reg) i = (if i = k then None else sl_find reg i)"
  by (simp add: sl_find_def sl_remove_def)

end
