(* ===== verification/Scheduler.thy ===== *)
theory Scheduler
  imports State_Locality
begin

text \<open>
  Cost model and placement (\<open>scheduler/cost_model.cpp\<close>, \<open>scheduler/placements.h\<close>,
  \<open>scheduler/scheduler.cpp\<close>). Costs are IEEE doubles, summed in the order of the source.
\<close>

section \<open>Cost model\<close>

record CostWeights =
  cw_execution :: double
  cw_queue :: double
  cw_transfer :: double
  cw_recompute :: double
  cw_pressure :: double
  cw_affinity :: double
  cw_capability :: double
  cw_state_locality :: double

definition default_weights :: CostWeights where
  "default_weights =
     \<lparr>cw_execution = 1, cw_queue = 1, cw_transfer = 1, cw_recompute = 1, cw_pressure = 1,
      cw_affinity = 1, cw_capability = f64_lit 1000000000 1, cw_state_locality = 1\<rparr>"

record CostContext =
  cc_bandwidth_bytes_per_sec :: double
  cc_transfer_latency_seconds :: double
  cc_pressure_threshold :: double
  cc_pressure_weight :: double

definition default_context :: CostContext where
  "default_context =
     \<lparr>cc_bandwidth_bytes_per_sec = f64_lit 1000000000 1, cc_transfer_latency_seconds = f64_lit 1 1000,
      cc_pressure_threshold = f64_lit 8 10, cc_pressure_weight = f64_lit 2 1\<rparr>"

record CostBreakdown =
  cb_execution :: double
  cb_queue :: double
  cb_transfer :: double
  cb_recompute :: double
  cb_pressure :: double
  cb_affinity :: double
  cb_capability :: double
  cb_total :: double
  cb_state_locality_score :: double
  cb_resource_pressure_score :: double

definition zero_breakdown :: CostBreakdown where
  "zero_breakdown =
     \<lparr>cb_execution = 0, cb_queue = 0, cb_transfer = 0, cb_recompute = 0, cb_pressure = 0,
      cb_affinity = 0, cb_capability = 0, cb_total = 0, cb_state_locality_score = 0,
      cb_resource_pressure_score = 0\<rparr>"

definition find_executor_cap :: "NodeRecord \<Rightarrow> ExecutorType \<Rightarrow> ExecutorCapability option" where
  "find_executor_cap node type =
     (let type = (if type = ET_Any then ET_Cpu else type) in
      find (\<lambda>e. ec_type e = type) (nc_executors (n_capacity node)))"

definition pressure_score :: "NodeRecord \<Rightarrow> ExecutorType \<Rightarrow> ReservationRegistry \<Rightarrow> double" where
  "pressure_score node executor reservations =
     (case find_executor_cap node executor of
        None \<Rightarrow> 1
      | Some cap \<Rightarrow>
          if sint (ec_slots cap) \<le> 0 then 1
          else
            let used_executor = used_slots reservations (n_id node) executor;
                used_total = (if executor = ET_Cpu
                  then sum_list (map r_slots (filter (\<lambda>r. r_node_id r = n_id node) (all_active reservations)))
                  else used_executor);
                ratio = f64_of_nat (unat used_total) / f64_of_nat (unat (ec_slots cap))
            in f64_min 1 ratio)"

definition queue_cost :: "ComputeTask \<Rightarrow> NodeRecord \<Rightarrow> ReservationRegistry \<Rightarrow> double" where
  "queue_cost task node reservations =
     foldl (\<lambda>acc r. if r_node_id r \<noteq> n_id node then acc
                    else acc + f64_max 0 (t_estimated_duration_seconds task)) 0 (all_active reservations)"

text \<open>The two sums of \<open>state_locality_score\<close> (bytes resident on the node, bytes in all) after one dependency.\<close>

definition dep_bytes :: "StateLocalityRegistry \<Rightarrow> StateDependency \<Rightarrow> u64" where
  "dep_bytes state dep =
     (case sl_find state (sd_state_id dep) of Some loc \<Rightarrow> sl_size_bytes loc | None \<Rightarrow> sd_size_bytes dep)"

definition locality_add :: "NodeRecord \<Rightarrow> StateLocalityRegistry \<Rightarrow> double \<times> double \<Rightarrow> StateDependency \<Rightarrow> double \<times> double" where
  "locality_add node state sums dep =
     (let b = f64_of_nat (unat (dep_bytes state dep)) in
      (if sl_resident_on state (sd_state_id dep) (n_id node) then fst sums + b else fst sums, snd sums + b))"

definition state_locality_score :: "ComputeTask \<Rightarrow> NodeRecord \<Rightarrow> StateLocalityRegistry \<Rightarrow> double" where
  "state_locality_score task node state =
     (if t_state_dependencies task = [] then 1
      else case foldl (locality_add node state) (0, 0) (t_state_dependencies task) of
        (resident_bytes, total_bytes) \<Rightarrow> if total_bytes \<le> 0 then 1 else resident_bytes / total_bytes)"

definition affinity_delta :: "ComputeTask \<Rightarrow> NodeRecord \<Rightarrow> double" where
  "affinity_delta task node =
     foldl (\<lambda>acc pt. if \<not> omap_has (nc_tags (n_capacity node)) pt then acc + f64_lit 1 10 else acc)
       (foldl (\<lambda>acc pn. if pn = n_id node then acc - f64_lit 1 10 else acc) 0 (t_preferred_nodes task))
       (t_preferred_tags task)"

definition evaluate :: "CostWeights \<Rightarrow> CostContext \<Rightarrow> ComputeTask \<Rightarrow> NodeRecord \<Rightarrow> ReservationRegistry \<Rightarrow>
    StateLocalityRegistry \<Rightarrow> double \<Rightarrow> CostBreakdown" where
  "evaluate weights context task node reservations state duration_override =
     (case find_executor_cap node (t_required_executor task) of
        None \<Rightarrow> zero_breakdown\<lparr>cb_capability := cw_capability weights, cb_total := cw_capability weights\<rparr>
      | Some cap \<Rightarrow>
          let duration = (if 0 \<le> duration_override then duration_override else t_estimated_duration_seconds task);
              execution = duration * cw_execution weights;
              queue = queue_cost task node reservations * cw_queue weights;
              transfer = transfer_seconds_for state task (n_id node) (cc_bandwidth_bytes_per_sec context)
                (cc_transfer_latency_seconds context) * cw_transfer weights;
              recompute = recompute_seconds_for state task * cw_recompute weights;
              pressure = pressure_score node (t_required_executor task) reservations;
              pressure_cost = (if cc_pressure_threshold context < pressure
                then (pressure - cc_pressure_threshold context) * cc_pressure_weight context * cw_pressure weights
                else 0);
              affinity = affinity_delta task node * cw_affinity weights
          in \<lparr>cb_execution = execution, cb_queue = queue, cb_transfer = transfer, cb_recompute = recompute,
              cb_pressure = pressure_cost, cb_affinity = affinity, cb_capability = 0,
              cb_total = execution + queue + transfer + recompute + pressure_cost + affinity + 0,
              cb_state_locality_score = state_locality_score task node state,
              cb_resource_pressure_score = pressure\<rparr>)"

section \<open>Placement\<close>

datatype SchedulerPolicy = SP_Baseline | SP_CostAware | SP_Other u8

fun scheduler_policy_name :: "SchedulerPolicy \<Rightarrow> string" where
  "scheduler_policy_name SP_Baseline = ''baseline''"
| "scheduler_policy_name SP_CostAware = ''cost_aware''"
| "scheduler_policy_name (SP_Other _) = ''unknown''"

definition parse_scheduler_policy :: "string \<Rightarrow> SchedulerPolicy option" where
  "parse_scheduler_policy s =
     (if s = ''baseline'' then Some SP_Baseline
      else if s = ''cost_aware'' then Some SP_CostAware
      else None)"

record CandidateScore =
  cs_node_id :: NodeId
  cs_executor :: ExecutorType
  cs_device :: string
  cs_score :: double
  cs_execution_cost :: double
  cs_queue_cost :: double
  cs_transfer_cost :: double
  cs_recompute_cost :: double
  cs_pressure_cost :: double
  cs_affinity_cost :: double
  cs_capability_cost :: double
  cs_state_locality_score :: double
  cs_resource_pressure_score :: double

record Exclusion =
  ex_node_id :: NodeId
  ex_reasons :: "string list"

record PlacementDecision =
  pd_feasible :: bool
  pd_chosen_node :: "NodeId option"
  pd_chosen_executor :: "ExecutorType option"
  pd_chosen_device :: string
  pd_candidates :: "CandidateScore list"
  pd_excluded :: "Exclusion list"
  pd_total_cost :: double
  pd_execution_cost :: double
  pd_queue_cost :: double
  pd_transfer_cost :: double
  pd_recompute_cost :: double
  pd_pressure_cost :: double
  pd_affinity_cost :: double
  pd_capability_cost :: double
  pd_state_locality_score :: double
  pd_resource_pressure_score :: double
  pd_reason :: string

definition default_decision :: PlacementDecision where
  "default_decision =
     \<lparr>pd_feasible = False, pd_chosen_node = None, pd_chosen_executor = None, pd_chosen_device = [],
      pd_candidates = [], pd_excluded = [], pd_total_cost = 0, pd_execution_cost = 0, pd_queue_cost = 0,
      pd_transfer_cost = 0, pd_recompute_cost = 0, pd_pressure_cost = 0, pd_affinity_cost = 0,
      pd_capability_cost = 0, pd_state_locality_score = 0, pd_resource_pressure_score = 0, pd_reason = []\<rparr>"

text \<open>A history key is compared by the numeric values of its enumerations, then by node.\<close>

datatype HistoryKey = HistoryKey (hk_task_class: u8) (hk_backend: u8) (hk_node: NodeId)

instantiation HistoryKey :: linorder
begin

definition less_HistoryKey :: "HistoryKey \<Rightarrow> HistoryKey \<Rightarrow> bool" where
  "less_HistoryKey a b =
     (if hk_task_class a \<noteq> hk_task_class b then hk_task_class a < hk_task_class b
      else if hk_backend a \<noteq> hk_backend b then hk_backend a < hk_backend b
      else hk_node a < hk_node b)"

definition less_eq_HistoryKey :: "HistoryKey \<Rightarrow> HistoryKey \<Rightarrow> bool" where
  "less_eq_HistoryKey a b = (a = b \<or> a < b)"

instance
proof
  fix x y z :: HistoryKey
  show "x < y \<longleftrightarrow> x \<le> y \<and> \<not> y \<le> x"
    by (auto simp: less_HistoryKey_def less_eq_HistoryKey_def split: if_splits)
  show "x \<le> x" by (simp add: less_eq_HistoryKey_def)
  show "x \<le> y \<Longrightarrow> y \<le> z \<Longrightarrow> x \<le> z"
    by (auto simp: less_HistoryKey_def less_eq_HistoryKey_def split: if_splits)
  show "x \<le> y \<Longrightarrow> y \<le> x \<Longrightarrow> x = y"
    by (auto simp: less_HistoryKey_def less_eq_HistoryKey_def split: if_splits)
  show "x \<le> y \<or> y \<le> x"
    by (cases x; cases y) (auto simp: less_HistoryKey_def less_eq_HistoryKey_def)
qed

end

definition history_key :: "TaskClass \<Rightarrow> ExecutorType \<Rightarrow> NodeId \<Rightarrow> HistoryKey" where
  "history_key tc ex node = HistoryKey (task_class_to_u8 tc) (executor_type_to_u8 ex) node"

record HistoryStats =
  hs_run_count :: u64
  hs_success_count :: u64
  hs_failure_count :: u64
  hs_mean_duration_seconds :: double
  hs_recent_duration_seconds :: double
  hs_bytes_transferred :: u64
  hs_queue_delay_seconds :: double

definition default_history :: HistoryStats where
  "default_history =
     \<lparr>hs_run_count = 0, hs_success_count = 0, hs_failure_count = 0, hs_mean_duration_seconds = 0,
      hs_recent_duration_seconds = 0, hs_bytes_transferred = 0, hs_queue_delay_seconds = 0\<rparr>"

record SchedulerPolicyEngine =
  se_policy :: SchedulerPolicy
  se_weights :: CostWeights
  se_context :: CostContext
  se_history :: "(HistoryKey, HistoryStats) omap"

definition default_engine :: SchedulerPolicyEngine where
  "default_engine =
     \<lparr>se_policy = SP_CostAware, se_weights = default_weights, se_context = default_context, se_history = []\<rparr>"

definition set_policy :: "SchedulerPolicy \<Rightarrow> SchedulerPolicyEngine \<Rightarrow> SchedulerPolicyEngine" where
  "set_policy p eng = eng\<lparr>se_policy := p\<rparr>"

definition record_history :: "HistoryKey \<Rightarrow> double \<Rightarrow> bool \<Rightarrow> u64 \<Rightarrow> SchedulerPolicyEngine \<Rightarrow> SchedulerPolicyEngine" where
  "record_history key duration success bytes eng =
     (let s = omap_get_or default_history (se_history eng) key;
          run_count = hs_run_count s + 1;
          sum = hs_mean_duration_seconds s * f64_of_nat (unat (run_count - 1));
          mean = (sum + duration) / f64_of_nat (unat run_count)
      in eng\<lparr>se_history := omap_put key
           (s\<lparr>hs_run_count := run_count,
             hs_success_count := (if success then hs_success_count s + 1 else hs_success_count s),
             hs_failure_count := (if success then hs_failure_count s else hs_failure_count s + 1),
             hs_recent_duration_seconds := duration,
             hs_mean_duration_seconds := mean,
             hs_bytes_transferred := hs_bytes_transferred s + bytes\<rparr>) (se_history eng)\<rparr>)"

definition capability_compatible :: "ComputeTask \<Rightarrow> NodeRecord \<Rightarrow> bool" where
  "capability_compatible task node =
     (case find_executor_cap node (t_required_executor task) of
        None \<Rightarrow> False
      | Some cap \<Rightarrow>
          if \<not> ec_healthy cap then False
          else if sint (ec_slots cap) \<le> 0 then False
          else if t_required_executor task = ET_Cuda \<and> 0 < t_min_cc_major task \<and>
            (sint (ec_major cap) < t_min_cc_major task \<or>
             (sint (ec_major cap) = t_min_cc_major task \<and> sint (ec_minor cap) < t_min_cc_minor task)) then False
          else True)"

definition exclusion_reasons :: "ComputeTask \<Rightarrow> NodeRecord \<Rightarrow> string list" where
  "exclusion_reasons task node =
     (if n_health node = NH_Offline then [''node offline''] else []) @
     (if n_health node = NH_Draining then [''node draining''] else []) @
     (if n_health node = NH_Suspect then [''node suspect''] else []) @
     (if \<not> n_connected node \<and> n_health node \<noteq> NH_Online then [''not connected''] else []) @
     (if \<not> capability_compatible task node then [''capability mismatch or executor unavailable''] else []) @
     (case find_executor_cap node (t_required_executor task) of
        None \<Rightarrow> []
      | Some cap \<Rightarrow>
          if sint (ec_slots cap) < sint (if t_required_executor task = ET_Cuda
             then t_required_gpu_slots task else t_required_cpu_slots task)
          then [''insufficient executor slots''] else []) @
     (if nc_host_memory_scheduling_bytes (n_capacity node) < t_scratch_memory_bytes task
      then [''insufficient scratch budget''] else []) @
     concat (map (\<lambda>fn. if fn = n_id node then [''node forbidden by task''] else []) (t_forbidden_nodes task)) @
     concat (map (\<lambda>rt. if \<not> omap_has (nc_tags (n_capacity node)) rt
       then [''missing required tag: '' @ rt] else []) (t_required_tags task))"

definition eligible_nodes :: "ComputeTask \<Rightarrow> (NodeId, NodeRecord) omap \<Rightarrow> NodeId list" where
  "eligible_nodes task nodes = map fst (filter (\<lambda>e. exclusion_reasons task (snd e) = []) nodes)"

definition better :: "CandidateScore \<Rightarrow> CandidateScore \<Rightarrow> bool" where
  "better a b =
     (if \<not> f64_eq (cs_score a) (cs_score b) then cs_score a < cs_score b
      else if cs_node_id a \<noteq> cs_node_id b then cs_node_id a < cs_node_id b
      else executor_type_to_u8 (cs_executor a) < executor_type_to_u8 (cs_executor b))"

definition candidate :: "SchedulerPolicyEngine \<Rightarrow> ComputeTask \<Rightarrow> ReservationRegistry \<Rightarrow>
    StateLocalityRegistry \<Rightarrow> NodeRecord \<Rightarrow> CandidateScore" where
  "candidate eng task reservations state node =
     (let cap = find_executor_cap node (t_required_executor task);
          executor = (case cap of Some c \<Rightarrow> ec_type c | None \<Rightarrow> t_required_executor task);
          device = (case cap of Some c \<Rightarrow> ec_name c | None \<Rightarrow> ''unknown'')
      in if se_policy eng = SP_Baseline then
        let score = 0 + transfer_seconds_for state task (n_id node)
              (cc_bandwidth_bytes_per_sec (se_context eng)) (cc_transfer_latency_seconds (se_context eng));
            score = score + t_estimated_duration_seconds task;
            b = evaluate (se_weights eng) (se_context eng) task node reservations state (f64_neg 1)
        in \<lparr>cs_node_id = n_id node, cs_executor = executor, cs_device = device, cs_score = score,
            cs_execution_cost = cb_execution b, cs_queue_cost = cb_queue b, cs_transfer_cost = cb_transfer b,
            cs_recompute_cost = cb_recompute b, cs_pressure_cost = 0, cs_affinity_cost = 0,
            cs_capability_cost = 0, cs_state_locality_score = state_locality_score task node state,
            cs_resource_pressure_score = cb_resource_pressure_score b\<rparr>
      else
        let duration = (case map_of (se_history eng)
                (history_key (t_task_class task) (t_required_executor task) (n_id node)) of
              Some h \<Rightarrow> if 0 < hs_run_count h then hs_mean_duration_seconds h else t_estimated_duration_seconds task
            | None \<Rightarrow> t_estimated_duration_seconds task);
            b = evaluate (se_weights eng) (se_context eng) task node reservations state duration
        in \<lparr>cs_node_id = n_id node, cs_executor = executor, cs_device = device, cs_score = cb_total b,
            cs_execution_cost = cb_execution b, cs_queue_cost = cb_queue b, cs_transfer_cost = cb_transfer b,
            cs_recompute_cost = cb_recompute b, cs_pressure_cost = cb_pressure b,
            cs_affinity_cost = cb_affinity b, cs_capability_cost = cb_capability b,
            cs_state_locality_score = cb_state_locality_score b,
            cs_resource_pressure_score = cb_resource_pressure_score b\<rparr>)"

definition place :: "SchedulerPolicyEngine \<Rightarrow> ComputeTask \<Rightarrow> (NodeId, NodeRecord) omap \<Rightarrow>
    ReservationRegistry \<Rightarrow> StateLocalityRegistry \<Rightarrow> PlacementDecision" where
  "place eng task nodes reservations state =
     (let excluded = map (\<lambda>n. \<lparr>ex_node_id = n_id n, ex_reasons = exclusion_reasons task n\<rparr>)
            (filter (\<lambda>n. exclusion_reasons task n \<noteq> []) (map snd nodes));
          candidates = map (candidate eng task reservations state)
            (filter (\<lambda>n. exclusion_reasons task n = []) (map snd nodes));
          d = default_decision\<lparr>pd_excluded := excluded, pd_candidates := candidates\<rparr>
      in case std_sort better candidates of
           [] \<Rightarrow> d\<lparr>pd_feasible := False, pd_reason := ''no schedulable node''\<rparr>
         | best # _ \<Rightarrow> d\<lparr>
             pd_feasible := True, pd_chosen_node := Some (cs_node_id best),
             pd_chosen_executor := Some (cs_executor best), pd_chosen_device := cs_device best,
             pd_total_cost := cs_score best, pd_execution_cost := cs_execution_cost best,
             pd_queue_cost := cs_queue_cost best, pd_transfer_cost := cs_transfer_cost best,
             pd_recompute_cost := cs_recompute_cost best, pd_pressure_cost := cs_pressure_cost best,
             pd_affinity_cost := cs_affinity_cost best, pd_capability_cost := cs_capability_cost best,
             pd_state_locality_score := cs_state_locality_score best,
             pd_resource_pressure_score := cs_resource_pressure_score best,
             pd_reason := ''best candidate''\<rparr>)"

section \<open>The comparison of candidates\<close>

interpretation better_order: comparison better "\<lambda>c. \<not> f64_is_nan (cs_score c)"
proof unfold_locales
  show "\<not> f64_is_nan (cs_score a) \<Longrightarrow> \<not> better a a" for a
    by (simp add: better_def f64_eq_def)
  show "\<not> f64_is_nan (cs_score a) \<Longrightarrow> \<not> f64_is_nan (cs_score b) \<Longrightarrow> \<not> f64_is_nan (cs_score c) \<Longrightarrow>
    better a b \<Longrightarrow> better b c \<Longrightarrow> better a c" for a b c
    by (auto simp: better_def f64_eq_def less_double_def split: if_splits)
  show "\<not> f64_is_nan (cs_score a) \<Longrightarrow> \<not> f64_is_nan (cs_score b) \<Longrightarrow> \<not> f64_is_nan (cs_score c) \<Longrightarrow>
    better a c \<Longrightarrow> better a b \<or> better b c" for a b c
    by (auto simp: better_def f64_eq_def less_double_def split: if_splits)
qed

definition eligible :: "ComputeTask \<Rightarrow> (NodeId, NodeRecord) omap \<Rightarrow> NodeRecord list" where
  "eligible task nodes = filter (\<lambda>n. exclusion_reasons task n = []) (map snd nodes)"

lemma place_cases:
  obtains "eligible task nodes = []" "\<not> pd_feasible (place eng task nodes res st)"
    "pd_chosen_node (place eng task nodes res st) = None"
  | best where "best = hd (std_sort better (map (candidate eng task res st) (eligible task nodes)))"
    "eligible task nodes \<noteq> []" "pd_feasible (place eng task nodes res st)"
    "pd_chosen_node (place eng task nodes res st) = Some (cs_node_id best)"
    "pd_chosen_executor (place eng task nodes res st) = Some (cs_executor best)"
    "pd_total_cost (place eng task nodes res st) = cs_score best"
    "best \<in> set (map (candidate eng task res st) (eligible task nodes))"
proof (cases "std_sort better (map (candidate eng task res st) (eligible task nodes))")
  case Nil
  then have "eligible task nodes = []" by (metis length_0_conv length_map length_std_sort)
  then show thesis using that(1) by (simp add: place_def eligible_def default_decision_def)
next
  case (Cons best rest)
  then have ne: "eligible task nodes \<noteq> []" by auto
  have "best \<in> set (std_sort better (map (candidate eng task res st) (eligible task nodes)))"
    using Cons by simp
  then have mem: "best \<in> set (map (candidate eng task res st) (eligible task nodes))" by (simp only: set_std_sort)
  show thesis
    by (rule that(2) [of best]) (use Cons ne mem in \<open>simp_all add: place_def eligible_def\<close>)
qed

lemma candidate_node_id: "cs_node_id (candidate eng task res st node) = n_id node"
  by (simp add: candidate_def Let_def)

lemma candidate_executor:
  "cs_executor (candidate eng task res st node) =
     (case find_executor_cap node (t_required_executor task) of Some c \<Rightarrow> ec_type c | None \<Rightarrow> t_required_executor task)"
  by (simp add: candidate_def Let_def)

lemma exclusion_reasons_empty_iff:
  "exclusion_reasons task node = [] \<longleftrightarrow>
     n_health node \<noteq> NH_Offline \<and> n_health node \<noteq> NH_Draining \<and> n_health node \<noteq> NH_Suspect \<and>
     (n_connected node \<or> n_health node = NH_Online) \<and> capability_compatible task node \<and>
     (\<forall>cap. find_executor_cap node (t_required_executor task) = Some cap \<longrightarrow>
        sint (if t_required_executor task = ET_Cuda then t_required_gpu_slots task
              else t_required_cpu_slots task) \<le> sint (ec_slots cap)) \<and>
     t_scratch_memory_bytes task \<le> nc_host_memory_scheduling_bytes (n_capacity node) \<and>
     n_id node \<notin> set (t_forbidden_nodes task) \<and>
     (\<forall>rt \<in> set (t_required_tags task). omap_has (nc_tags (n_capacity node)) rt)"
proof -
  have nil: "(if P then [x] else []) = [] \<longleftrightarrow> \<not> P" for P and x :: string by simp
  have cap: "(case c of None \<Rightarrow> [] | Some cap \<Rightarrow> if P cap then [x] else []) = [] \<longleftrightarrow> (\<forall>cap. c = Some cap \<longrightarrow> \<not> P cap)"
    for c :: "ExecutorCapability option" and P and x :: string by (cases c) simp_all
  have list: "concat (map (\<lambda>x. if P x then [f x] else []) xs) = [] \<longleftrightarrow> (\<forall>x \<in> set xs. \<not> P x)"
    for P and f :: "'a \<Rightarrow> string" and xs by (induction xs) auto
  show ?thesis
    unfolding exclusion_reasons_def append_is_Nil_conv nil cap list not_less not_not de_Morgan_conj by blast
qed

lemmas eligible_facts = exclusion_reasons_empty_iff [THEN iffD1]

lemma eligible_executor:
  assumes "exclusion_reasons task node = []"
  obtains cap where "find_executor_cap node (t_required_executor task) = Some cap" "ec_healthy cap"
    "0 < sint (ec_slots cap)"
    "sint (if t_required_executor task = ET_Cuda then t_required_gpu_slots task else t_required_cpu_slots task)
       \<le> sint (ec_slots cap)"
    "ec_type cap = (if t_required_executor task = ET_Any then ET_Cpu else t_required_executor task)"
proof -
  note facts = eligible_facts [OF assms]
  obtain cap where cap: "find_executor_cap node (t_required_executor task) = Some cap"
    using facts by (auto simp: capability_compatible_def split: option.splits)
  have "ec_healthy cap" "0 < sint (ec_slots cap)"
    using facts cap by (auto simp: capability_compatible_def split: if_splits)
  moreover have "ec_type cap = (if t_required_executor task = ET_Any then ET_Cpu else t_required_executor task)"
    using cap by (auto simp: find_executor_cap_def Let_def find_Some_iff split: if_splits)
  ultimately show thesis using cap facts that by blast
qed

section \<open>Scores lie in the unit interval\<close>

lemma f64_of_nat_pos:
  assumes "0 < n"
  shows "0 < f64_units (f64_of_nat n)"
proof -
  have "f64_unity * 1 \<le> n * f64_unity" using assms by simp
  then have "f64_unity \<le> round_units (n * f64_unity) 1"
    using round_units_mono [of "f64_unity * 1" "n * f64_unity" 1] round_units_unity [of 1] by simp
  then have "0 < round_units (n * f64_unity) 1" using f64_unity_pos by linarith
  then show ?thesis using f64_unity_less_top
    by (simp add: f64_of_nat_def f64_lit_def f64_units_round min_def)
qed

lemma f64_finite_le:
  assumes "f64_nonneg d" "f64_units d \<le> 2 ^ k" "k < 2098"
  shows "\<not> f64_is_inf d"
proof
  assume "f64_is_inf d"
  then have "int f64_top \<le> 2 ^ k" using f64_nonneg_inf [OF assms(1)] assms(2) by simp
  then have "(2 :: int) ^ 2098 \<le> 2 ^ k" by (simp only: f64_top_def of_nat_power of_nat_numeral)
  then show False using assms(3) power_strict_increasing [of k 2098 "2 :: int"] by linarith
qed

lemma f64_of_word_finite: "\<not> f64_is_inf (f64_of_nat (unat (w :: 'a::len word)))" if "LENGTH('a) \<le> 64"
proof -
  have "unat w < 2 ^ LENGTH('a)" by (rule unsigned_less)
  also have "(2 :: nat) ^ LENGTH('a) \<le> 2 ^ 64" using that by (intro power_increasing) simp_all
  finally have "unat w \<le> 2 ^ 64" by simp
  from f64_finite_le [OF f64_of_nat_nonneg f64_of_nat_le_pow2 [OF this]] show ?thesis by simp
qed

lemma sint_pos_unat: "0 < sint (w :: i32) \<Longrightarrow> 0 < unat w"
  by (rule ccontr) (simp add: unat_eq_0)

definition unit_interval :: "double \<Rightarrow> bool" where
  "unit_interval d = (0 \<le> d \<and> d \<le> 1)"

lemma pressure_score_unit: "unit_interval (pressure_score node executor reg)"
proof -
  have one: "unit_interval 1"
    using f64_unity_pos by (simp add: unit_interval_def less_eq_double_def f64_units_1)
  have "unit_interval (f64_min 1 (f64_of_nat n / f64_of_nat (unat s)))" if "0 < sint s" for n and s :: i32
  proof -
    have "f64_nonneg (f64_of_nat n / f64_of_nat (unat s))"
      using f64_div_nonneg(1) [OF f64_of_nat_nonneg f64_of_nat_nonneg f64_of_nat_pos] that
      by (simp add: sint_pos_unat f64_of_word_finite)
    then show ?thesis using one
      by (auto simp: f64_min_def unit_interval_def f64_nonneg_def less_double_def less_eq_double_def)
  qed
  then show ?thesis using one by (auto simp: pressure_score_def Let_def split: option.splits)
qed

text \<open>The two sums of the locality score, after \<open>k\<close> dependencies: resident at most all, all at most \<open>k * 2 ^ 64\<close>.\<close>

definition locality_sums_ok :: "nat \<Rightarrow> double \<times> double \<Rightarrow> bool" where
  "locality_sums_ok k sums =
     (f64_nonneg (fst sums) \<and> f64_nonneg (snd sums) \<and> f64_units (fst sums) \<le> f64_units (snd sums) \<and>
      f64_units (snd sums) \<le> int (k * 2 ^ 1138))"

lemma f64_representable_multiple:
  assumes "q < 2 ^ 53"
  shows "f64_representable (q * 2 ^ e)"
proof -
  have "q * 2 ^ e < 2 ^ (53 + e)" using assms by (simp add: power_add)
  then have "f64_shift (q * 2 ^ e) \<le> e" using bitlen_le_iff [of "q * 2 ^ e" "53 + e"] by (simp add: f64_shift_def)
  then show ?thesis by (simp add: f64_representable_def le_imp_power_dvd)
qed

lemma f64_add_le_multiple:
  assumes "f64_nonneg a" "f64_nonneg b" "f64_units a \<le> int (k * 2 ^ e)" "f64_units b \<le> int (2 ^ e)" "Suc k < 2 ^ 53"
  shows "f64_units (a + b) \<le> int (Suc k * 2 ^ e)"
proof -
  have "f64_units a + f64_units b \<le> int (Suc k * 2 ^ e * 1)" using assms(3,4) by simp
  then have "nat (f64_units a + f64_units b) \<le> Suc k * 2 ^ e * 1" by (simp only: nat_le_iff)
  then have "round_units (nat (f64_units a + f64_units b)) 1 \<le> round_units (Suc k * 2 ^ e * 1) 1"
    by (rule round_units_mono) simp
  also have "\<dots> = Suc k * 2 ^ e"
    using assms(5) by (intro round_units_exact f64_representable_multiple) simp_all
  finally have "int (round_units (nat (f64_units a + f64_units b)) 1) \<le> int (Suc k * 2 ^ e)"
    by (simp only: of_nat_le_iff)
  then show ?thesis using f64_nonneg_add [OF assms(1,2)] by linarith
qed

lemma locality_add_ok:
  assumes "locality_sums_ok k sums" "Suc k < 2 ^ 53"
  shows "locality_sums_ok (Suc k) (locality_add node st sums dep)"
proof -
  let ?b = "f64_of_nat (unat (dep_bytes st dep))"
  note ok = assms(1) [unfolded locality_sums_ok_def]
  have "unat (dep_bytes st dep) < 2 ^ LENGTH(64)" by (rule unsigned_less)
  then have "f64_units ?b \<le> 2 ^ (64 + 1074)" by (intro f64_of_nat_le_pow2) simp
  then have "f64_units ?b \<le> int (2 ^ 1138)" by simp
  then have "f64_units (snd sums + ?b) \<le> int (Suc k * 2 ^ 1138)"
    using ok assms(2) by (intro f64_add_le_multiple) simp_all
  moreover have "f64_units (fst sums + ?b) \<le> f64_units (snd sums + ?b)"
    using ok by (intro f64_add_mono) simp_all
  moreover have "f64_units (fst sums) \<le> f64_units (snd sums + ?b)"
  proof -
    have "f64_units (fst sums) \<le> f64_units (snd sums) + f64_units ?b"
      using ok f64_of_nat_nonneg [of "unat (dep_bytes st dep)"] unfolding f64_nonneg_def by linarith
    then have "nat (f64_units (fst sums)) * 1 \<le> nat (f64_units (snd sums) + f64_units ?b)"
      using nat_mono by simp
    then have "round_units (nat (f64_units (fst sums)) * 1) 1 \<le> round_units (nat (f64_units (snd sums) + f64_units ?b)) 1"
      by (rule round_units_mono) simp
    moreover have "nat (f64_units (fst sums)) = f64_mag (fst sums)"
      using ok f64_units_abs [of "fst sums"] by (simp add: f64_nonneg_def)
    ultimately have "f64_mag (fst sums) \<le> round_units (nat (f64_units (snd sums) + f64_units ?b)) 1"
      using round_units_exact [OF f64_mag_representable, of 1 "fst sums"] by simp
    moreover have "f64_mag (fst sums) \<le> f64_top" using ok by (simp add: f64_mag_le f64_nonneg_def)
    moreover have "f64_units (fst sums) = int (f64_mag (fst sums))"
      using ok \<open>nat (f64_units (fst sums)) = f64_mag (fst sums)\<close> unfolding f64_nonneg_def by linarith
    ultimately show ?thesis using f64_nonneg_add [of "snd sums" ?b] ok by simp
  qed
  ultimately show ?thesis using ok by (simp add: locality_sums_ok_def locality_add_def Let_def)
qed

lemma locality_fold_ok:
  "locality_sums_ok k sums \<Longrightarrow> k + length deps < 2 ^ 53 \<Longrightarrow>
   locality_sums_ok (k + length deps) (foldl (locality_add node st) sums deps)"
proof (induction deps arbitrary: k sums)
  case (Cons dep deps)
  have "locality_sums_ok (Suc k) (locality_add node st sums dep)"
    using Cons.prems by (intro locality_add_ok) simp_all
  then show ?case using Cons.IH [of "Suc k"] Cons.prems(2) by simp
qed simp

lemma state_locality_score_unit:
  assumes "length (t_state_dependencies task) < 2 ^ 53"
  shows "unit_interval (state_locality_score task node st)"
proof -
  have one: "unit_interval 1"
    using f64_unity_pos by (simp add: unit_interval_def less_eq_double_def f64_units_1)
  let ?sums = "foldl (locality_add node st) (0, 0) (t_state_dependencies task)"
  have "locality_sums_ok 0 (0, 0)" by (simp add: locality_sums_ok_def)
  from locality_fold_ok [OF this, of "t_state_dependencies task"]
  have ok: "locality_sums_ok (length (t_state_dependencies task)) ?sums" using assms by simp
  show ?thesis
  proof (cases "t_state_dependencies task = [] \<or> snd ?sums \<le> 0")
    case True
    then show ?thesis using one by (auto simp: state_locality_score_def split: prod.splits)
  next
    case False
    then have pos: "0 < f64_units (snd ?sums)"
      using ok by (auto simp: locality_sums_ok_def f64_nonneg_def less_eq_double_def)
    have fin: "\<not> f64_is_inf (snd ?sums)"
    proof (rule f64_finite_le [where k = 1191])
      have "int (length (t_state_dependencies task) * 2 ^ 1138) \<le> int (2 ^ 53 * 2 ^ 1138)"
        using assms by (intro zle_int [THEN iffD2] mult_right_mono) simp_all
      then show "f64_units (snd ?sums) \<le> 2 ^ 1191" using ok by (simp add: locality_sums_ok_def)
    qed (use ok in \<open>auto simp: locality_sums_ok_def\<close>)
    have "f64_nonneg (fst ?sums / snd ?sums)" "f64_units (fst ?sums / snd ?sums) \<le> f64_units 1"
      using ok pos fin by (auto simp: locality_sums_ok_def intro!: f64_div_nonneg)
    then have "unit_interval (fst ?sums / snd ?sums)"
      by (simp add: unit_interval_def f64_nonneg_def less_eq_double_def)
    then show ?thesis using False by (simp add: state_locality_score_def case_prod_beta)
  qed
qed

section \<open>Properties\<close>


definition idle_task :: ComputeTask where
  "idle_task = default_task\<lparr>t_id := Id128 0 5, t_estimated_duration_seconds := 0\<rparr>"

definition free_engine :: SchedulerPolicyEngine where
  "free_engine = default_engine\<lparr>se_policy := SP_Baseline\<rparr>"

definition sample_nodes :: "(NodeId, NodeRecord) omap" where
  "sample_nodes = [(Id128 0 9, sample_node), (Id128 0 10, sample_node\<lparr>n_id := Id128 0 10, n_health := NH_Draining\<rparr>)]"

lemma exclusion_idle_task: "exclusion_reasons idle_task sample_node = []"
  by (simp add: exclusion_reasons_def idle_task_def default_task_def sample_node_def default_node_def
      default_capacity_def default_executor_def capability_compatible_def find_executor_cap_def)

lemma sum_zero_double: "(0 :: double) + 0 = 0"
  by (simp add: plus_double_def zero_double_def f64_is_nan_def f64_is_inf_def f64_expo_def f64_frac_def
      f64_units_def f64_mag_def f64_sign_def f64_pack_def f64_shift_def f64_top_def)


text \<open>
  C21: a placement only chooses a node that satisfies the task's constraints, whatever the scores
  (NaN included): a registered node that is not offline, draining or suspect, whose executor of
  the required kind (the CPU one when any will do) is healthy and has the requested number of
  slots, read as \<open>int32_t\<close>, with enough scratch budget, all required tags, and not forbidden.
\<close>

theorem placed_node_fits:
  assumes "pd_chosen_node (place eng task nodes res st) = Some i"
  shows "\<exists>n \<in> set (map snd nodes). n_id n = i \<and>
    n_health n \<noteq> NH_Offline \<and> n_health n \<noteq> NH_Draining \<and> n_health n \<noteq> NH_Suspect \<and>
    t_scratch_memory_bytes task \<le> nc_host_memory_scheduling_bytes (n_capacity n) \<and>
    i \<notin> set (t_forbidden_nodes task) \<and>
    (\<forall>rt \<in> set (t_required_tags task). omap_has (nc_tags (n_capacity n)) rt) \<and>
    (\<exists>cap \<in> set (nc_executors (n_capacity n)). ec_healthy cap \<and> 0 < sint (ec_slots cap) \<and>
       sint (if t_required_executor task = ET_Cuda then t_required_gpu_slots task else t_required_cpu_slots task)
         \<le> sint (ec_slots cap) \<and>
       ec_type cap = (if t_required_executor task = ET_Any then ET_Cpu else t_required_executor task) \<and>
       pd_chosen_executor (place eng task nodes res st) = Some (ec_type cap))"
proof (cases rule: place_cases [of task nodes eng res st])
  case 1
  then show ?thesis using assms by simp
next
  case (2 best)
  obtain n where n: "n \<in> set (map snd nodes)" "exclusion_reasons task n = []" "best = candidate eng task res st n"
    using 2(7) by (auto simp: eligible_def)
  obtain cap where cap: "find_executor_cap n (t_required_executor task) = Some cap" "ec_healthy cap"
    "0 < sint (ec_slots cap)"
    "sint (if t_required_executor task = ET_Cuda then t_required_gpu_slots task else t_required_cpu_slots task)
       \<le> sint (ec_slots cap)"
    "ec_type cap = (if t_required_executor task = ET_Any then ET_Cpu else t_required_executor task)"
    using eligible_executor [OF n(2)] by blast
  have "cap \<in> set (nc_executors (n_capacity n))"
    using cap(1) by (auto simp: find_executor_cap_def Let_def find_Some_iff)
  moreover have "pd_chosen_executor (place eng task nodes res st) = Some (ec_type cap)"
    using 2(5) cap(1) by (simp add: n(3) candidate_executor)
  moreover have "n_id n = i" using assms 2(4) by (simp add: n(3) candidate_node_id)
  ultimately show ?thesis
    using n(1) eligible_facts [OF n(2)] cap by (intro bexI [of _ n] bexI [of _ cap] conjI) auto
qed

theorem placed_node_fits_witness:
  "\<exists>n \<in> set (map snd sample_nodes). n_id n = Id128 0 9 \<and> n_health n \<noteq> NH_Draining"
proof -
  have "exclusion_reasons idle_task (sample_node\<lparr>n_id := Id128 0 10, n_health := NH_Draining\<rparr>) \<noteq> []"
    by (simp add: exclusion_reasons_def)
  then have "pd_chosen_node (place free_engine idle_task sample_nodes [] []) = Some (Id128 0 9)"
    using exclusion_idle_task by (simp add: place_def sample_nodes_def candidate_node_id sample_node_simps)
  from placed_node_fits [OF this] show ?thesis by blast
qed

text \<open>
  A placement decision accounts for every registered node: the candidates are the eligible
  nodes in id order, each other node is listed as excluded with at least one reason, and the two
  lists together have as many entries as there are nodes.
\<close>

theorem place_accounts_for_all:
  "map cs_node_id (pd_candidates (place eng task nodes res st)) =
     map n_id (filter (\<lambda>n. exclusion_reasons task n = []) (map snd nodes)) \<and>
   map ex_node_id (pd_excluded (place eng task nodes res st)) =
     map n_id (filter (\<lambda>n. exclusion_reasons task n \<noteq> []) (map snd nodes)) \<and>
   [] \<notin> ex_reasons ` set (pd_excluded (place eng task nodes res st)) \<and>
   length (pd_candidates (place eng task nodes res st)) + length (pd_excluded (place eng task nodes res st)) = length nodes"
proof -
  have cand: "pd_candidates (place eng task nodes res st) =
      map (candidate eng task res st) (filter (\<lambda>n. exclusion_reasons task n = []) (map snd nodes))"
    and excl: "pd_excluded (place eng task nodes res st) =
      map (\<lambda>n. \<lparr>ex_node_id = n_id n, ex_reasons = exclusion_reasons task n\<rparr>)
        (filter (\<lambda>n. exclusion_reasons task n \<noteq> []) (map snd nodes))"
    by (simp_all add: place_def Let_def split: list.splits)
  have "length (filter (\<lambda>n. exclusion_reasons task n = []) (map snd nodes)) +
      length (filter (\<lambda>n. exclusion_reasons task n \<noteq> []) (map snd nodes)) = length nodes"
    using sum_length_filter_compl [of "\<lambda>n. exclusion_reasons task n = []" "map snd nodes"] by simp
  then show ?thesis unfolding cand excl by (auto simp: candidate_node_id comp_def)
qed

text \<open>
  The two scores reported with a candidate are what the headers say, numbers in \<open>[0, 1]\<close>:
  resource pressure always, state locality for fewer than \<open>2 ^ 53\<close> state dependencies. The
  bounds hold in double arithmetic, rounding included.
\<close>

theorem scores_in_unit_interval:
  assumes "length (t_state_dependencies task) < 2 ^ 53"
  shows "unit_interval (pressure_score node executor res) \<and> unit_interval (state_locality_score task node st)"
  using pressure_score_unit state_locality_score_unit [OF assms] by blast

theorem scores_in_unit_interval_witness:
  "unit_interval (pressure_score sample_node ET_Cpu one_reserved) \<and>
   unit_interval (state_locality_score idle_task sample_node [])"
  by (rule scores_in_unit_interval) (simp add: idle_task_def default_task_def)

text \<open>
  With a NaN score the comparison is not a strict weak order, which \<open>std::sort\<close> requires: a
  candidate \<open>b\<close> whose score is a NaN is neither better nor worse than \<open>a\<close> and \<open>c\<close> although
  \<open>c\<close> is better than \<open>a\<close>. A task duration received as a NaN gives such scores.
\<close>

theorem better_not_weak_order_with_nan:
  "\<exists>a b c. better c a \<and> \<not> better c b \<and> \<not> better b a \<and> \<not> better a b \<and> \<not> better b c \<and>
     f64_is_nan (cs_score b) \<and> \<not> f64_is_nan (cs_score a) \<and> \<not> f64_is_nan (cs_score c)"
proof -
  define base where "base = candidate free_engine idle_task [] [] sample_node"
  let ?a = "base\<lparr>cs_score := 1\<rparr>" and ?b = "base\<lparr>cs_score := f64_nan\<rparr>" and ?c = "base\<lparr>cs_score := 0\<rparr>"
  have nan: "f64_is_nan f64_nan" by (simp add: f64_nan_def f64_is_nan_def f64_expo_def f64_frac_def)
  have "(0 :: double) < 1" using f64_unity_pos by (simp add: less_double_def f64_units_1)
  then have "better ?c ?a" by (simp add: better_def f64_eq_def f64_units_1)
  moreover have "\<not> better ?c ?b" "\<not> better ?b ?a" "\<not> better ?a ?b" "\<not> better ?b ?c"
    using nan by (simp_all add: better_def f64_eq_def less_double_def)
  ultimately show ?thesis using nan
    by (intro exI [of _ ?a] exI [of _ ?b] exI [of _ ?c]) simp
qed

text \<open>
  For a task that accepts any executor the resource pressure is 0 however loaded the node is,
  as long as reservations are made on concrete executors: the score counts reservations whose
  executor is \<open>Any_\<close>, and placement resolves \<open>Any_\<close> to the CPU executor before reserving.
\<close>

theorem any_executor_has_no_pressure:
  assumes "find_executor_cap node ET_Any = Some cap" "0 < sint (ec_slots cap)"
    and "\<forall>r \<in> set (all_active res). r_executor r \<noteq> ET_Any"
  shows "f64_eq (pressure_score node ET_Any res) 0"
proof -
  let ?d = "f64_of_nat (unat (ec_slots cap))"
  have "filter (\<lambda>r. r_node_id r = n_id node \<and> r_executor r = ET_Any \<and> \<not> r_released r) (map snd res) = []"
    using assms(3) by (auto simp: filter_empty_conv all_active_def)
  then have used: "used_slots res (n_id node) ET_Any = 0"
    by (simp add: used_slots_def used_executor_slots_locked_def)
  have pos: "0 < f64_units ?d" using assms(2) by (intro f64_of_nat_pos sint_pos_unat)
  have "f64_units (f64_of_nat 0) = 0"
    by (simp add: f64_of_nat_def f64_lit_def f64_units_round round_units_def rne_def)
  then have mag: "f64_mag (f64_of_nat 0) = 0" using f64_units_abs [of "f64_of_nat 0"] by simp
  have magd: "0 < f64_mag ?d" using pos f64_units_abs [of ?d] by simp
  have inf: "\<not> f64_is_inf (f64_of_nat 0)"
    using f64_mag_inf [of "f64_of_nat 0"] mag f64_unity_less_top by auto
  have nn: "\<not> f64_is_nan (f64_of_nat 0)" "\<not> f64_is_nan ?d"
    using f64_of_nat_nonneg unfolding f64_nonneg_def by blast+
  have "f64_of_nat 0 / ?d = f64_round (f64_sign (f64_of_nat 0) \<noteq> f64_sign ?d) (0 * f64_unity) (f64_mag ?d)"
    using inf nn magd by (simp add: divide_double_def mag f64_of_word_finite)
  then have units: "f64_units (f64_of_nat 0 / ?d) = 0" "\<not> f64_is_nan (f64_of_nat 0 / ?d)"
    using magd by (simp_all add: f64_units_round round_units_def rne_def)
  then have "f64_of_nat 0 / ?d < 1" using f64_unity_pos by (simp add: less_double_def f64_units_1)
  then show ?thesis
    using assms(1,2) used units by (simp add: pressure_score_def f64_min_def f64_eq_def)
qed

theorem any_executor_has_no_pressure_witness:
  "f64_eq (pressure_score sample_node ET_Any one_reserved) 0 \<and> slots_on (n_id sample_node) ET_Cpu one_reserved = 1"
proof -
  have cap: "find_executor_cap sample_node ET_Any = Some (default_executor\<lparr>ec_slots := 4\<rparr>)"
    using sample_node_simps(1) by (simp add: find_executor_cap_def find_executor_def)
  show ?thesis
    using any_executor_has_no_pressure [OF cap]
    by (simp add: one_reserved_eq all_active_def slots_on_def sample_node_simps)
qed

end
