(* ===== verification/Serialize.thy ===== *)
theory Serialize
  imports Wire Scheduler
begin

text \<open>
  Encodings of the domain types (\<open>protocol/serialize.cpp\<close>), shared by the wire protocol and the
  durable store. Every \<open>deserialize\<close> function is a parser in the order of the source, with the
  source's message for each field. The \<open>_fits\<close> predicates say which values survive: strings of at
  most 1 MiB, lists of at most 65536 elements and, for a task, a compute capability that fits in a
  byte. Each pair is a \<open>codec\<close>.
\<close>

section \<open>Encoders and decoders\<close>

definition read_optional_id :: "ComputeTaskId option rd" where
  "read_optional_id =
     rd_then read_u8 (\<lambda>present. if present \<noteq> 0 then rd_map Some read_id else (\<lambda>r. (Some None, r)))"

definition write_optional_id :: "ComputeTaskId option \<Rightarrow> byte list" where
  "write_optional_id v = (case v of Some i \<Rightarrow> put_u8 1 @ put_id i | None \<Rightarrow> put_u8 0)"

definition serialize_retry_policy :: "RetryPolicy \<Rightarrow> byte list" where
  "serialize_retry_policy p =
     put_u32 (rp_max_attempts p) @
     put_bool (rp_retry_on_node_loss p) @
     put_bool (rp_retry_on_executor_failure p) @
     put_bool (rp_retry_on_timeout p) @
     put_u64 (rp_retry_backoff_ms p)"

definition deserialize_retry_policy :: "RetryPolicy parser" where
  "deserialize_retry_policy =
     pbind (need ''retry max_attempts'' read_u32) (\<lambda>max_attempts.
     pbind (need ''retry on_node_loss'' read_bool) (\<lambda>retry_on_node_loss.
     pbind (need ''retry on_executor_failure'' read_bool) (\<lambda>retry_on_executor_failure.
     pbind (need ''retry on_timeout'' read_bool) (\<lambda>retry_on_timeout.
     pbind (need ''retry backoff'' read_u64) (\<lambda>retry_backoff_ms.
       preturn \<lparr>rp_max_attempts = max_attempts, rp_retry_on_node_loss = retry_on_node_loss,
         rp_retry_on_executor_failure = retry_on_executor_failure, rp_retry_on_timeout = retry_on_timeout,
         rp_retry_backoff_ms = retry_backoff_ms\<rparr>)))))"

definition serialize_state_dep :: "StateDependency \<Rightarrow> byte list" where
  "serialize_state_dep d =
     put_string (sd_state_id d) @
     put_string (sd_generation d) @
     put_u64 (sd_size_bytes d) @
     put_list put_id (sd_resident_nodes d) @
     put_f64 (sd_locality_quality d) @
     put_f64 (sd_transfer_estimate_seconds d) @
     put_f64 (sd_recompute_estimate_seconds d) @
     put_bool (sd_provider_backed d) @
     put_string (sd_compatibility d)"

definition deserialize_state_dep :: "StateDependency parser" where
  "deserialize_state_dep =
     pbind (need ''state id'' (read_string kMaxString)) (\<lambda>state_id.
     pbind (need ''state generation'' (read_string kMaxString)) (\<lambda>generation.
     pbind (need ''state size'' read_u64) (\<lambda>size_bytes.
     pbind (get_list ''state resident count'' (need ''state resident node'' read_id)) (\<lambda>resident_nodes.
     pbind (need ''state locality'' read_f64) (\<lambda>locality_quality.
     pbind (need ''state transfer'' read_f64) (\<lambda>transfer_estimate_seconds.
     pbind (need ''state recompute'' read_f64) (\<lambda>recompute_estimate_seconds.
     pbind (need ''state provider'' read_bool) (\<lambda>provider_backed.
     pbind (need ''state compat'' (read_string kMaxString)) (\<lambda>compatibility.
       preturn \<lparr>sd_state_id = state_id, sd_generation = generation, sd_size_bytes = size_bytes,
         sd_resident_nodes = resident_nodes, sd_locality_quality = locality_quality,
         sd_transfer_estimate_seconds = transfer_estimate_seconds,
         sd_recompute_estimate_seconds = recompute_estimate_seconds, sd_provider_backed = provider_backed,
         sd_compatibility = compatibility\<rparr>)))))))))"

definition serialize_task :: "ComputeTask \<Rightarrow> byte list" where
  "serialize_task t =
     put_id (t_id t) @
     put_id (t_workload t) @
     put_string (t_name t) @
     put_u8 (task_class_to_u8 (t_task_class t)) @
     put_u8 (executor_type_to_u8 (t_required_executor t)) @
     put_u8 (word_of_int (t_min_cc_major t)) @
     put_u8 (word_of_int (t_min_cc_minor t)) @
     put_u32 (t_required_cpu_slots t) @
     put_u32 (t_required_gpu_slots t) @
     put_u64 (t_scratch_memory_bytes t) @
     put_list put_id (t_dependencies t) @
     put_list serialize_state_dep (t_state_dependencies t) @
     put_u64 (t_expected_input_bytes t) @
     put_u64 (t_expected_output_bytes t) @
     put_f64 (t_estimated_duration_seconds t) @
     put_bool (t_has_deadline t) @
     put_i64 (t_deadline_epoch_ms t) @
     put_u8 (priority_to_u8 (t_priority t)) @
     serialize_retry_policy (t_retry t) @
     put_list put_id (t_preferred_nodes t) @
     put_list put_id (t_forbidden_nodes t) @
     put_list put_string (t_required_tags t) @
     put_list put_string (t_preferred_tags t) @
     put_string (t_anti_affinity_group t) @
     write_optional_id (t_same_node_as_task t) @
     write_optional_id (t_different_node_from_task t) @
     put_f64 (t_expected_transfer_gb t) @
     put_f64 (t_expected_recompute_cost_seconds t) @
     put_f64 (t_cost_estimate t) @
     put_bool (t_preemptible t) @
     put_u8 (kernel_type_to_u8 (t_kernel t)) @
     put_u64 (t_kernel_param_n t) @
     put_u64 (t_kernel_param_a t) @
     put_u64 (t_kernel_param_b t) @
     put_u64 (t_seed t) @
     put_map (t_user_tags t) @
     put_blob (t_payload t)"

definition deserialize_task :: "ComputeTask parser" where
  "deserialize_task =
     pbind (need ''task id'' read_id) (\<lambda>id.
     pbind (need ''task workload'' read_id) (\<lambda>workload.
     pbind (need ''task name'' (read_string kMaxString)) (\<lambda>name.
     pbind (need ''task class'' read_u8) (\<lambda>task_class.
     pbind (need ''task executor'' read_u8) (\<lambda>required_executor.
     pbind (need ''task cap'' (read_both read_u8 read_u8)) (\<lambda>cc.
     pbind (need ''task cpu slots'' read_u32) (\<lambda>required_cpu_slots.
     pbind (need ''task gpu slots'' read_u32) (\<lambda>required_gpu_slots.
     pbind (need ''task scratch'' read_u64) (\<lambda>scratch_memory_bytes.
     pbind (get_list ''task dep count'' (need ''task dep'' read_id)) (\<lambda>dependencies.
     pbind (get_list ''task state count'' (deserialize_state_dep)) (\<lambda>state_dependencies.
     pbind (need ''task input bytes'' read_u64) (\<lambda>expected_input_bytes.
     pbind (need ''task output bytes'' read_u64) (\<lambda>expected_output_bytes.
     pbind (need ''task duration'' read_f64) (\<lambda>estimated_duration_seconds.
     pbind (need ''task deadline flag'' read_bool) (\<lambda>has_deadline.
     pbind (need ''task deadline'' read_i64) (\<lambda>deadline_epoch_ms.
     pbind (need ''task priority'' read_u8) (\<lambda>priority.
     pbind (deserialize_retry_policy) (\<lambda>retry.
     pbind (get_list ''task pref count'' (need ''task pref node'' read_id)) (\<lambda>preferred_nodes.
     pbind (get_list ''task forbid count'' (need ''task forbid node'' read_id)) (\<lambda>forbidden_nodes.
     pbind (get_list ''task req tags'' (need ''task req tag'' (read_string kMaxString))) (\<lambda>required_tags.
     pbind (get_list ''task pref tags'' (need ''task pref tag'' (read_string kMaxString))) (\<lambda>preferred_tags.
     pbind (need ''task anti-aff'' (read_string kMaxString)) (\<lambda>anti_affinity_group.
     pbind (need ''task same_node'' read_optional_id) (\<lambda>same_node_as_task.
     pbind (need ''task diff_node'' read_optional_id) (\<lambda>different_node_from_task.
     pbind (need ''task xfer gb'' read_f64) (\<lambda>expected_transfer_gb.
     pbind (need ''task recompute'' read_f64) (\<lambda>expected_recompute_cost_seconds.
     pbind (need ''task cost'' read_f64) (\<lambda>cost_estimate.
     pbind (need ''task preemptible'' read_bool) (\<lambda>preemptible.
     pbind (need ''task kernel'' read_u8) (\<lambda>kernel.
     pbind (need ''task kn'' read_u64) (\<lambda>kernel_param_n.
     pbind (need ''task ka'' read_u64) (\<lambda>kernel_param_a.
     pbind (need ''task kb'' read_u64) (\<lambda>kernel_param_b.
     pbind (need ''task seed'' read_u64) (\<lambda>seed.
     pbind (get_map ''task user tags'' ''task user tag'') (\<lambda>user_tags.
     pbind (get_blob ''task payload len'' ''task payload'') (\<lambda>payload.
       preturn \<lparr>t_id = id, t_workload = workload, t_name = name,
         t_task_class = task_class_of_u8 task_class,
         t_required_executor = executor_type_of_u8 required_executor, t_min_cc_major = uint (fst cc),
         t_min_cc_minor = uint (snd cc), t_required_cpu_slots = required_cpu_slots,
         t_required_gpu_slots = required_gpu_slots, t_scratch_memory_bytes = scratch_memory_bytes,
         t_dependencies = dependencies, t_state_dependencies = state_dependencies,
         t_expected_input_bytes = expected_input_bytes, t_expected_output_bytes = expected_output_bytes,
         t_estimated_duration_seconds = estimated_duration_seconds, t_has_deadline = has_deadline,
         t_deadline_epoch_ms = deadline_epoch_ms, t_priority = priority_of_u8 priority, t_retry = retry,
         t_preferred_nodes = preferred_nodes, t_forbidden_nodes = forbidden_nodes,
         t_required_tags = required_tags, t_preferred_tags = preferred_tags,
         t_anti_affinity_group = anti_affinity_group, t_same_node_as_task = same_node_as_task,
         t_different_node_from_task = different_node_from_task,
         t_expected_transfer_gb = expected_transfer_gb,
         t_expected_recompute_cost_seconds = expected_recompute_cost_seconds,
         t_cost_estimate = cost_estimate, t_preemptible = preemptible, t_kernel = kernel_type_of_u8 kernel,
         t_kernel_param_n = kernel_param_n, t_kernel_param_a = kernel_param_a,
         t_kernel_param_b = kernel_param_b, t_seed = seed, t_user_tags = user_tags,
         t_payload = payload\<rparr>))))))))))))))))))))))))))))))))))))"

definition serialize_workload :: "Workload \<Rightarrow> byte list" where
  "serialize_workload w =
     put_id (wl_id w) @
     put_string (wl_name w) @
     put_map (wl_user_tags w)"

definition deserialize_workload :: "Workload parser" where
  "deserialize_workload =
     pbind (need ''workload id'' read_id) (\<lambda>id.
     pbind (need ''workload name'' (read_string kMaxString)) (\<lambda>name.
     pbind (get_map ''workload tag count'' ''workload tag'') (\<lambda>user_tags.
       preturn \<lparr>wl_id = id, wl_name = name, wl_user_tags = user_tags\<rparr>)))"

definition serialize_attempt :: "ExecutionAttempt \<Rightarrow> byte list" where
  "serialize_attempt a =
     put_id (a_id a) @
     put_id (a_task_id a) @
     put_id (a_node_id a) @
     put_id (a_node_session a) @
     put_u64 (a_coordinator_epoch a) @
     put_id (a_reservation_id a) @
     put_u8 (executor_type_to_u8 (a_executor a)) @
     put_u32 (a_attempt_number a) @
     put_i64 (a_dispatched_at_ms a) @
     put_i64 (a_started_at_ms a) @
     put_i64 (a_completed_at_ms a) @
     put_u8 (attempt_state_to_u8 (a_state a)) @
     put_u8 (failure_kind_to_u8 (a_failure_kind a)) @
     put_string (a_failure_reason a) @
     put_u64 (a_output_size a) @
     put_string (a_output_integrity a) @
     put_f64 (a_cpu_millis a) @
     put_u64 (a_bytes_transferred a) @
     put_string (a_device a) @
     put_bool (a_committed a)"

definition deserialize_attempt :: "ExecutionAttempt parser" where
  "deserialize_attempt =
     pbind (need ''attempt id'' read_id) (\<lambda>id.
     pbind (need ''attempt task'' read_id) (\<lambda>task_id.
     pbind (need ''attempt node'' read_id) (\<lambda>node_id.
     pbind (need ''attempt session'' read_id) (\<lambda>node_session.
     pbind (need ''attempt epoch'' read_u64) (\<lambda>coordinator_epoch.
     pbind (need ''attempt reservation'' read_id) (\<lambda>reservation_id.
     pbind (need ''attempt executor'' read_u8) (\<lambda>executor.
     pbind (need ''attempt number'' read_u32) (\<lambda>attempt_number.
     pbind (need ''attempt dispatched'' read_i64) (\<lambda>dispatched_at_ms.
     pbind (need ''attempt started'' read_i64) (\<lambda>started_at_ms.
     pbind (need ''attempt completed'' read_i64) (\<lambda>completed_at_ms.
     pbind (need ''attempt state'' read_u8) (\<lambda>state.
     pbind (need ''attempt failure kind'' read_u8) (\<lambda>failure_kind.
     pbind (need ''attempt fail reason'' (read_string kMaxString)) (\<lambda>failure_reason.
     pbind (need ''attempt out size'' read_u64) (\<lambda>output_size.
     pbind (need ''attempt integrity'' (read_string kMaxString)) (\<lambda>output_integrity.
     pbind (need ''attempt cpu ms'' read_f64) (\<lambda>cpu_millis.
     pbind (need ''attempt bytes'' read_u64) (\<lambda>bytes_transferred.
     pbind (need ''attempt device'' (read_string kMaxString)) (\<lambda>device.
     pbind (need ''attempt committed'' read_bool) (\<lambda>committed.
       preturn \<lparr>a_id = id, a_task_id = task_id, a_node_id = node_id, a_node_session = node_session,
         a_coordinator_epoch = coordinator_epoch, a_reservation_id = reservation_id,
         a_executor = executor_type_of_u8 executor, a_attempt_number = attempt_number,
         a_dispatched_at_ms = dispatched_at_ms, a_started_at_ms = started_at_ms,
         a_completed_at_ms = completed_at_ms, a_state = attempt_state_of_u8 state,
         a_failure_kind = failure_kind_of_u8 failure_kind, a_failure_reason = failure_reason,
         a_output_size = output_size, a_output_integrity = output_integrity, a_cpu_millis = cpu_millis,
         a_bytes_transferred = bytes_transferred, a_device = device, a_committed = committed\<rparr>))))))))))))))))))))"

text \<open>A flag byte followed by the value when there is one, as the placement encoding does it.\<close>

definition put_optional :: "('a \<Rightarrow> byte list) \<Rightarrow> 'a option \<Rightarrow> byte list" where
  "put_optional enc v = put_bool (v \<noteq> None) @ (case v of Some x \<Rightarrow> enc x | None \<Rightarrow> [])"

definition get_optional :: "string \<Rightarrow> 'a parser \<Rightarrow> 'a option parser" where
  "get_optional what p =
     pbind (need what read_u8) (\<lambda>has. if has \<noteq> 0 then pbind p (\<lambda>x. preturn (Some x)) else preturn None)"

definition put_executor_type :: "ExecutorType \<Rightarrow> byte list" where
  "put_executor_type e = put_u8 (executor_type_to_u8 e)"

definition get_executor_type :: "string \<Rightarrow> ExecutorType parser" where
  "get_executor_type what = pbind (need what read_u8) (\<lambda>e. preturn (executor_type_of_u8 e))"

definition serialize_candidate :: "CandidateScore \<Rightarrow> byte list" where
  "serialize_candidate c =
     put_id (cs_node_id c) @
     put_u8 (executor_type_to_u8 (cs_executor c)) @
     put_string (cs_device c) @
     put_f64 (cs_score c) @
     put_f64 (cs_execution_cost c) @
     put_f64 (cs_queue_cost c) @
     put_f64 (cs_transfer_cost c) @
     put_f64 (cs_recompute_cost c) @
     put_f64 (cs_pressure_cost c) @
     put_f64 (cs_affinity_cost c) @
     put_f64 (cs_capability_cost c) @
     put_f64 (cs_state_locality_score c) @
     put_f64 (cs_resource_pressure_score c)"

definition deserialize_candidate :: "CandidateScore parser" where
  "deserialize_candidate =
     pbind (need ''placement cand node'' read_id) (\<lambda>node_id.
     pbind (need ''placement cand exec'' read_u8) (\<lambda>executor.
     pbind (need ''placement cand device'' (read_string kMaxString)) (\<lambda>device.
     pbind (need ''placement cand score'' read_f64) (\<lambda>score.
     pbind (need ''placement cand exec cost'' read_f64) (\<lambda>execution_cost.
     pbind (need ''placement cand queue cost'' read_f64) (\<lambda>queue_cost.
     pbind (need ''placement cand xfer cost'' read_f64) (\<lambda>transfer_cost.
     pbind (need ''placement cand recompute'' read_f64) (\<lambda>recompute_cost.
     pbind (need ''placement cand pressure'' read_f64) (\<lambda>pressure_cost.
     pbind (need ''placement cand affinity'' read_f64) (\<lambda>affinity_cost.
     pbind (need ''placement cand cap'' read_f64) (\<lambda>capability_cost.
     pbind (need ''placement cand locality'' read_f64) (\<lambda>state_locality_score.
     pbind (need ''placement cand pressure'' read_f64) (\<lambda>resource_pressure_score.
       preturn \<lparr>cs_node_id = node_id, cs_executor = executor_type_of_u8 executor, cs_device = device,
         cs_score = score, cs_execution_cost = execution_cost, cs_queue_cost = queue_cost,
         cs_transfer_cost = transfer_cost, cs_recompute_cost = recompute_cost,
         cs_pressure_cost = pressure_cost, cs_affinity_cost = affinity_cost,
         cs_capability_cost = capability_cost, cs_state_locality_score = state_locality_score,
         cs_resource_pressure_score = resource_pressure_score\<rparr>)))))))))))))"

definition serialize_exclusion :: "Exclusion \<Rightarrow> byte list" where
  "serialize_exclusion e =
     put_id (ex_node_id e) @
     put_list put_string (ex_reasons e)"

definition deserialize_exclusion :: "Exclusion parser" where
  "deserialize_exclusion =
     pbind (need ''placement excl node'' read_id) (\<lambda>node_id.
     pbind (get_list ''placement excl reason count'' (need ''placement excl reason'' (read_string kMaxString))) (\<lambda>reasons.
       preturn \<lparr>ex_node_id = node_id, ex_reasons = reasons\<rparr>))"

definition serialize_placement :: "PlacementDecision \<Rightarrow> byte list" where
  "serialize_placement d =
     put_bool (pd_feasible d) @
     put_optional put_id (pd_chosen_node d) @
     put_optional put_executor_type (pd_chosen_executor d) @
     put_string (pd_chosen_device d) @
     put_list serialize_candidate (pd_candidates d) @
     put_list serialize_exclusion (pd_excluded d) @
     put_f64 (pd_total_cost d) @
     put_f64 (pd_execution_cost d) @
     put_f64 (pd_queue_cost d) @
     put_f64 (pd_transfer_cost d) @
     put_f64 (pd_recompute_cost d) @
     put_f64 (pd_pressure_cost d) @
     put_f64 (pd_affinity_cost d) @
     put_f64 (pd_capability_cost d) @
     put_f64 (pd_state_locality_score d) @
     put_f64 (pd_resource_pressure_score d) @
     put_string (pd_reason d)"

definition deserialize_placement :: "PlacementDecision parser" where
  "deserialize_placement =
     pbind (need ''placement feasible'' read_bool) (\<lambda>feasible.
     pbind (get_optional ''placement node flag'' (need ''placement node'' read_id)) (\<lambda>chosen_node.
     pbind (get_optional ''placement exec flag'' (get_executor_type ''placement exec'')) (\<lambda>chosen_executor.
     pbind (need ''placement device'' (read_string kMaxString)) (\<lambda>chosen_device.
     pbind (get_list ''placement cand count'' (deserialize_candidate)) (\<lambda>candidates.
     pbind (get_list ''placement excl count'' (deserialize_exclusion)) (\<lambda>excluded.
     pbind (need ''placement total'' read_f64) (\<lambda>total_cost.
     pbind (need ''placement exec'' read_f64) (\<lambda>execution_cost.
     pbind (need ''placement queue'' read_f64) (\<lambda>queue_cost.
     pbind (need ''placement xfer'' read_f64) (\<lambda>transfer_cost.
     pbind (need ''placement recompute'' read_f64) (\<lambda>recompute_cost.
     pbind (need ''placement pressure'' read_f64) (\<lambda>pressure_cost.
     pbind (need ''placement affinity'' read_f64) (\<lambda>affinity_cost.
     pbind (need ''placement cap'' read_f64) (\<lambda>capability_cost.
     pbind (need ''placement locality'' read_f64) (\<lambda>state_locality_score.
     pbind (need ''placement pressure'' read_f64) (\<lambda>resource_pressure_score.
     pbind (need ''placement reason'' (read_string kMaxString)) (\<lambda>reason.
       preturn \<lparr>pd_feasible = feasible, pd_chosen_node = chosen_node, pd_chosen_executor = chosen_executor,
         pd_chosen_device = chosen_device, pd_candidates = candidates, pd_excluded = excluded,
         pd_total_cost = total_cost, pd_execution_cost = execution_cost, pd_queue_cost = queue_cost,
         pd_transfer_cost = transfer_cost, pd_recompute_cost = recompute_cost,
         pd_pressure_cost = pressure_cost, pd_affinity_cost = affinity_cost,
         pd_capability_cost = capability_cost, pd_state_locality_score = state_locality_score,
         pd_resource_pressure_score = resource_pressure_score, pd_reason = reason\<rparr>)))))))))))))))))"

section \<open>Values that survive\<close>

definition str_fits :: "string \<Rightarrow> bool" where
  "str_fits s = (length s \<le> unat kMaxString)"

definition list_fits :: "('a \<Rightarrow> bool) \<Rightarrow> 'a list \<Rightarrow> bool" where
  "list_fits P xs = (length xs \<le> unat kMaxList \<and> list_all P xs)"

definition map_fits :: "(string, string) omap \<Rightarrow> bool" where
  "map_fits m = (omap_ok m \<and> list_fits (\<lambda>kv. str_fits (fst kv) \<and> str_fits (snd kv)) m)"

definition state_dep_fits :: "StateDependency \<Rightarrow> bool" where
  "state_dep_fits d = (str_fits (sd_state_id d) \<and>
     str_fits (sd_generation d) \<and>
     list_fits (\<lambda>_. True) (sd_resident_nodes d) \<and>
     str_fits (sd_compatibility d))"

definition task_fits :: "ComputeTask \<Rightarrow> bool" where
  "task_fits t = (str_fits (t_name t) \<and>
     task_class_ok (t_task_class t) \<and>
     executor_type_ok (t_required_executor t) \<and>
     0 \<le> t_min_cc_major t \<and> t_min_cc_major t < 256 \<and>
     0 \<le> t_min_cc_minor t \<and> t_min_cc_minor t < 256 \<and>
     list_fits (\<lambda>_. True) (t_dependencies t) \<and>
     list_fits state_dep_fits (t_state_dependencies t) \<and>
     priority_ok (t_priority t) \<and>
     list_fits (\<lambda>_. True) (t_preferred_nodes t) \<and>
     list_fits (\<lambda>_. True) (t_forbidden_nodes t) \<and>
     list_fits str_fits (t_required_tags t) \<and>
     list_fits str_fits (t_preferred_tags t) \<and>
     str_fits (t_anti_affinity_group t) \<and>
     kernel_type_ok (t_kernel t) \<and>
     map_fits (t_user_tags t) \<and>
     length (t_payload t) \<le> unat kMaxString)"

definition workload_fits :: "Workload \<Rightarrow> bool" where
  "workload_fits w = (str_fits (wl_name w) \<and>
     map_fits (wl_user_tags w))"

definition attempt_fits :: "ExecutionAttempt \<Rightarrow> bool" where
  "attempt_fits a = (executor_type_ok (a_executor a) \<and>
     attempt_state_ok (a_state a) \<and>
     failure_kind_ok (a_failure_kind a) \<and>
     str_fits (a_failure_reason a) \<and>
     str_fits (a_output_integrity a) \<and>
     str_fits (a_device a))"

definition candidate_fits :: "CandidateScore \<Rightarrow> bool" where
  "candidate_fits c = (executor_type_ok (cs_executor c) \<and>
     str_fits (cs_device c))"

definition exclusion_fits :: "Exclusion \<Rightarrow> bool" where
  "exclusion_fits e = (list_fits str_fits (ex_reasons e))"

definition placement_fits :: "PlacementDecision \<Rightarrow> bool" where
  "placement_fits d = ((\<forall>x. (pd_chosen_executor d) = Some x \<longrightarrow> executor_type_ok x) \<and>
     str_fits (pd_chosen_device d) \<and>
     list_fits candidate_fits (pd_candidates d) \<and>
     list_fits exclusion_fits (pd_excluded d) \<and>
     str_fits (pd_reason d))"

section \<open>Round trips\<close>

lemmas fits_defs = str_fits_def list_fits_def map_fits_def list_all_iff

lemma parses_str [codec_intros]: "str_fits s \<Longrightarrow> parses (need what (read_string kMaxString)) (put_string s) s"
  by (auto simp: str_fits_def intro!: codec_intros)

lemma parses_list_fits:
  "list_fits P xs \<Longrightarrow> (\<And>x. P x \<Longrightarrow> parses p (enc x) x) \<Longrightarrow> parses (get_list what p) (put_list enc xs) xs"
  by (rule parses_list) (auto simp: fits_defs)

lemma parses_map_fits: "map_fits m \<Longrightarrow> parses (get_map what what') (put_map m) m"
  by (rule parses_map) (auto simp: fits_defs)

lemma reads_optional_id [codec_intros]: "reads read_optional_id (write_optional_id v) v"
proof (cases v)
  case None
  have "reads (\<lambda>r. (Some None, r)) [] None" by (simp add: reads_def)
  then show ?thesis
    unfolding None read_optional_id_def write_optional_id_def option.case
    using reads_then [OF reads_u8 [of 0], of "\<lambda>present. if present \<noteq> 0 then rd_map Some read_id else (\<lambda>r. (Some None, r))" "[]" None]
    by simp
next
  case (Some i)
  show ?thesis
    unfolding Some read_optional_id_def write_optional_id_def option.case
    by (rule reads_then [OF reads_u8]) (auto intro: reads_map codec_intros)
qed

lemma bounded_optional_id [bounded_intros]: "bounded_rd read_optional_id"
proof -
  have "bounded_rd (if c then rd_map Some read_id else (\<lambda>r. (Some None, r)))" for c
    by (cases c) (auto intro!: bounded_intros)
  then show ?thesis unfolding read_optional_id_def by (intro bounded_intros)
qed

lemma parses_optional:
  assumes "\<And>x. v = Some x \<Longrightarrow> parses p (enc x) x"
  shows "parses (get_optional what p) (put_optional enc v) v"
proof (cases v)
  case None
  have "parses (get_optional what p) (put_u8 0) None"
    unfolding get_optional_def by (rule parses_last [OF parses_need [OF reads_u8]]) simp
  then show ?thesis using None by (simp add: put_optional_def put_bool_def)
next
  case (Some x)
  have "parses (pbind p (\<lambda>x. preturn (Some x))) (enc x) (Some x)"
    by (rule parses_last [OF assms [OF Some]]) simp
  then show ?thesis
    unfolding Some get_optional_def put_optional_def put_bool_def
    by (intro parses_bind) (auto intro!: codec_intros)
qed

lemma bounded_get_optional [bounded_intros]: "bounded p \<Longrightarrow> bounded (get_optional what p)"
  unfolding get_optional_def by (intro bounded_intros)

lemma parses_executor_type: "executor_type_ok e \<Longrightarrow> parses (get_executor_type what) (put_executor_type e) e"
  unfolding get_executor_type_def put_executor_type_def
  by (rule parses_last [OF parses_need [OF reads_u8]]) (simp add: enum_simps)

lemma bounded_executor_type [bounded_intros]: "bounded (get_executor_type what)"
  unfolding get_executor_type_def by (intro bounded_intros)

lemma reads_cc: "reads (read_both read_u8 read_u8) (put_u8 a @ put_u8 b) (a, b)"
  by (intro reads_both codec_intros)

lemma parses_cc:
  assumes "parses (f (a, b)) bs y"
  shows "parses (pbind (need what (read_both read_u8 read_u8)) f) (put_u8 a @ put_u8 b @ bs) y"
  using parses_bind [OF parses_need [OF reads_cc], of f a b bs y] assms by simp

lemma uint_byte: "0 \<le> i \<Longrightarrow> i < 256 \<Longrightarrow> uint (word_of_int i :: byte) = i"
  by (simp add: uint_word_of_int)

lemma parses_end: "x = y \<Longrightarrow> parses (preturn x) [] y"
  using parses_return by simp

lemma parses_tail: "parses p bs x \<Longrightarrow> parses (f x) [] y \<Longrightarrow> parses (pbind p f) bs y"
  using parses_bind [of p bs x f "[]" y] by simp

lemmas seq_intros = parses_cc parses_bind parses_tail parses_end parses_list_fits parses_map_fits
  parses_optional parses_executor_type

lemma parses_retry_policy [codec_intros]: "parses deserialize_retry_policy (serialize_retry_policy p) p"
  unfolding deserialize_retry_policy_def serialize_retry_policy_def
  by (rule seq_intros codec_intros | assumption | simp add: enum_simps uint_byte)+

lemma bounded_retry_policy [bounded_intros]: "bounded deserialize_retry_policy"
  unfolding deserialize_retry_policy_def by (intro bounded_intros)

interpretation retry_policy_codec: codec serialize_retry_policy deserialize_retry_policy "\<lambda>_. True"
  by unfold_locales (auto intro: bounded_intros codec_intros)

lemma parses_state_dep [codec_intros]: "state_dep_fits d \<Longrightarrow> parses deserialize_state_dep (serialize_state_dep d) d"
  unfolding deserialize_state_dep_def serialize_state_dep_def state_dep_fits_def
  by (elim conjE) (rule seq_intros codec_intros | assumption | simp add: enum_simps uint_byte)+

lemma bounded_state_dep [bounded_intros]: "bounded deserialize_state_dep"
  unfolding deserialize_state_dep_def by (intro bounded_intros)

interpretation state_dep_codec: codec serialize_state_dep deserialize_state_dep state_dep_fits
  by unfold_locales (auto intro: bounded_intros codec_intros)

lemma parses_task [codec_intros]: "task_fits t \<Longrightarrow> parses deserialize_task (serialize_task t) t"
  unfolding deserialize_task_def serialize_task_def task_fits_def
  by (elim conjE) (rule seq_intros codec_intros | assumption | simp add: enum_simps uint_byte)+

lemma bounded_task [bounded_intros]: "bounded deserialize_task"
  unfolding deserialize_task_def by (intro bounded_intros)

interpretation task_codec: codec serialize_task deserialize_task task_fits
  by unfold_locales (auto intro: bounded_intros codec_intros)

lemma parses_workload [codec_intros]: "workload_fits w \<Longrightarrow> parses deserialize_workload (serialize_workload w) w"
  unfolding deserialize_workload_def serialize_workload_def workload_fits_def
  by (elim conjE) (rule seq_intros codec_intros | assumption | simp add: enum_simps uint_byte)+

lemma bounded_workload [bounded_intros]: "bounded deserialize_workload"
  unfolding deserialize_workload_def by (intro bounded_intros)

interpretation workload_codec: codec serialize_workload deserialize_workload workload_fits
  by unfold_locales (auto intro: bounded_intros codec_intros)

lemma parses_attempt [codec_intros]: "attempt_fits a \<Longrightarrow> parses deserialize_attempt (serialize_attempt a) a"
  unfolding deserialize_attempt_def serialize_attempt_def attempt_fits_def
  by (elim conjE) (rule seq_intros codec_intros | assumption | simp add: enum_simps uint_byte)+

lemma bounded_attempt [bounded_intros]: "bounded deserialize_attempt"
  unfolding deserialize_attempt_def by (intro bounded_intros)

interpretation attempt_codec: codec serialize_attempt deserialize_attempt attempt_fits
  by unfold_locales (auto intro: bounded_intros codec_intros)

lemma parses_candidate [codec_intros]: "candidate_fits c \<Longrightarrow> parses deserialize_candidate (serialize_candidate c) c"
  unfolding deserialize_candidate_def serialize_candidate_def candidate_fits_def
  by (elim conjE) (rule seq_intros codec_intros | assumption | simp add: enum_simps uint_byte)+

lemma bounded_candidate [bounded_intros]: "bounded deserialize_candidate"
  unfolding deserialize_candidate_def by (intro bounded_intros)

interpretation candidate_codec: codec serialize_candidate deserialize_candidate candidate_fits
  by unfold_locales (auto intro: bounded_intros codec_intros)

lemma parses_exclusion [codec_intros]: "exclusion_fits e \<Longrightarrow> parses deserialize_exclusion (serialize_exclusion e) e"
  unfolding deserialize_exclusion_def serialize_exclusion_def exclusion_fits_def
  by (rule seq_intros codec_intros | assumption | simp add: enum_simps uint_byte)+

lemma bounded_exclusion [bounded_intros]: "bounded deserialize_exclusion"
  unfolding deserialize_exclusion_def by (intro bounded_intros)

interpretation exclusion_codec: codec serialize_exclusion deserialize_exclusion exclusion_fits
  by unfold_locales (auto intro: bounded_intros codec_intros)

lemma parses_placement [codec_intros]: "placement_fits d \<Longrightarrow> parses deserialize_placement (serialize_placement d) d"
  unfolding deserialize_placement_def serialize_placement_def placement_fits_def
  by (elim conjE) (rule seq_intros codec_intros | assumption | simp add: enum_simps uint_byte)+

lemma bounded_placement [bounded_intros]: "bounded deserialize_placement"
  unfolding deserialize_placement_def by (intro bounded_intros)

interpretation placement_codec: codec serialize_placement deserialize_placement placement_fits
  by unfold_locales (auto intro: bounded_intros codec_intros)

section \<open>Values the decoder rejects\<close>

lemma read_string_too_long:
  assumes "unat m < length s" "length s < 2 ^ 32"
  shows "read_string m \<lparr>rd_data = pre @ put_string s @ rest, rd_pos = length pre\<rparr> =
    (None, \<lparr>rd_data = pre @ put_string s @ rest, rd_pos = length pre + 4\<rparr>)"
proof -
  have "m < (of_nat (length s) :: u32)"
    using assms by (simp add: word_less_nat_alt unat_of_nat)
  moreover have "read_u32 \<lparr>rd_data = pre @ put_u32 (of_nat (length s)) @ char_bytes s @ rest, rd_pos = length pre\<rparr> =
    (Some (of_nat (length s)), \<lparr>rd_data = pre @ put_u32 (of_nat (length s)) @ char_bytes s @ rest, rd_pos = length pre + 4\<rparr>)"
    using reads_u32 [of "of_nat (length s)"] by (simp add: reads_def)
  ultimately show ?thesis
    by (simp add: read_string_def put_string_def put_bytes_def rd_then_def)
qed

lemma pbind_parsed:
  "parses p bs x \<Longrightarrow> pbind p f \<lparr>rd_data = pre @ bs @ rest, rd_pos = length pre\<rparr> =
     f x \<lparr>rd_data = (pre @ bs) @ rest, rd_pos = length (pre @ bs)\<rparr>"
  by (simp add: parses_def pbind_def)

lemma deserialize_task_long_name:
  assumes "unat kMaxString < length (t_name t)" "length (t_name t) < 2 ^ 32"
  shows "fst (deserialize_task (reader_of (serialize_task t))) =
    Inl (rd_fail ''task name'' \<lparr>rd_data = serialize_task t, rd_pos = 36\<rparr>)"
proof -
  have len: "length (put_id i) = 16" for i by (simp add: put_id_def put_bytes_def)
  have "\<exists>f. deserialize_task = pbind (need ''task id'' read_id) (\<lambda>i. pbind (need ''task workload'' read_id)
      (\<lambda>w. pbind (need ''task name'' (read_string kMaxString)) (f i w)))"
    unfolding deserialize_task_def by (rule exI, rule refl)
  then obtain f where f: "deserialize_task = pbind (need ''task id'' read_id) (\<lambda>i. pbind (need ''task workload'' read_id)
      (\<lambda>w. pbind (need ''task name'' (read_string kMaxString)) (f i w)))" by blast
  have "\<exists>rest. serialize_task t = put_id (t_id t) @ put_id (t_workload t) @ put_string (t_name t) @ rest"
    unfolding serialize_task_def by (rule exI, rule refl)
  then obtain rest where rest: "serialize_task t = put_id (t_id t) @ put_id (t_workload t) @ put_string (t_name t) @ rest"
    by blast
  have id: "parses (need what read_id) (put_id i) i" for what i by (rule parses_need [OF reads_id])
  have s1: "pbind (need what read_id) g \<lparr>rd_data = put_id x @ tl, rd_pos = 0\<rparr> = g x \<lparr>rd_data = put_id x @ tl, rd_pos = 16\<rparr>"
    for what x tl and g :: "Id128 \<Rightarrow> ComputeTask parser"
    using pbind_parsed [OF id, of what g "[]"] by (simp add: len)
  have s2: "pbind (need what read_id) g \<lparr>rd_data = put_id y @ put_id x @ tl, rd_pos = 16\<rparr> =
      g x \<lparr>rd_data = put_id y @ put_id x @ tl, rd_pos = 32\<rparr>"
    for what x y tl and g :: "Id128 \<Rightarrow> ComputeTask parser"
    using pbind_parsed [OF id, of what g "put_id y"] by (simp add: len)
  have "deserialize_task (reader_of (serialize_task t)) =
      pbind (need ''task name'' (read_string kMaxString)) (f (t_id t) (t_workload t))
        \<lparr>rd_data = (put_id (t_id t) @ put_id (t_workload t)) @ put_string (t_name t) @ rest, rd_pos = 32\<rparr>"
    by (simp add: f rest reader_of_def s1 s2)
  then show ?thesis
    using read_string_too_long [OF assms, of "put_id (t_id t) @ put_id (t_workload t)" rest] len
    by (simp add: pbind_def need_def rest)
qed

section \<open>Properties\<close>

text \<open>
  C30: tasks survive serialization. A task whose strings, lists and tags respect the decoder's limits
  and whose minimal compute capability fits in a byte is read back exactly, from the start of any
  longer buffer, consuming exactly its own bytes; every proper prefix of its encoding is rejected.
\<close>

theorem task_roundtrip:
  assumes "task_fits t"
  shows "deserialize_task (reader_of (serialize_task t @ rest)) =
      (Inr t, \<lparr>rd_data = serialize_task t @ rest, rd_pos = length (serialize_task t)\<rparr>) \<and>
    (k < length (serialize_task t) \<longrightarrow> (\<exists>e. fst (deserialize_task (reader_of (take k (serialize_task t)))) = Inl e))"
  using task_codec.decode_encoded [OF assms] task_codec.truncated_rejected [OF assms] by blast

lemma default_task_fits: "task_fits default_task"
  by (simp add: task_fits_def default_task_def fits_defs)

theorem task_roundtrip_witness:
  "fst (deserialize_task (reader_of (serialize_task default_task @ [1, 2]))) = Inr default_task \<and>
   (\<exists>e. fst (deserialize_task (reader_of (take 3 (serialize_task default_task)))) = Inl e)"
proof -
  have "3 < length (serialize_task default_task)"
    by (simp add: serialize_task_def put_id_def put_bytes_def)
  then show ?thesis
    using task_roundtrip [OF default_task_fits, of "[1, 2]" 3] by simp
qed

text \<open>
  Attempts, workloads and placement decisions survive serialization as well, each within its
  limits, and none of the decoders ever moves outside its buffer, whatever bytes it is given.
\<close>

theorem record_codecs_correct:
  "(attempt_fits a \<longrightarrow> fst (deserialize_attempt (reader_of (serialize_attempt a @ rest))) = Inr a) \<and>
   (workload_fits w \<longrightarrow> fst (deserialize_workload (reader_of (serialize_workload w @ rest))) = Inr w) \<and>
   (placement_fits d \<longrightarrow> fst (deserialize_placement (reader_of (serialize_placement d @ rest))) = Inr d) \<and>
   (rd_ok r \<longrightarrow> rd_ok (snd (deserialize_attempt r)) \<and> rd_ok (snd (deserialize_workload r)) \<and>
      rd_ok (snd (deserialize_placement r)) \<and> rd_ok (snd (deserialize_task r)))"
  using attempt_codec.decode_encoded workload_codec.decode_encoded placement_codec.decode_encoded
    attempt_codec.in_bounds workload_codec.in_bounds placement_codec.in_bounds task_codec.in_bounds
  by (metis fst_conv)

theorem record_codecs_correct_witness:
  "fst (deserialize_attempt (reader_of (serialize_attempt default_attempt @ [7]))) = Inr default_attempt \<and>
   fst (deserialize_placement (reader_of (serialize_placement default_decision @ [7]))) = Inr default_decision"
proof -
  have "attempt_fits default_attempt" "placement_fits default_decision"
    by (simp_all add: attempt_fits_def default_attempt_def placement_fits_def default_decision_def fits_defs)
  then show ?thesis using record_codecs_correct [of default_attempt "[7]"] by simp
qed

text \<open>
  The encoder does not respect the decoder's limits. A task whose name is longer than 1 MiB is
  encoded without complaint, and the decoder rejects the encoding at the name.
\<close>

theorem long_name_not_decodable:
  assumes "1048576 < length (t_name t)" "length (t_name t) < 2 ^ 32"
  shows "\<exists>m. fst (deserialize_task (reader_of (serialize_task t))) = Inl (make_error E_OutOfBounds (''task name'' @ m))"
  using deserialize_task_long_name [of t] assms by (auto simp: rd_fail_def kMaxString_def)

theorem long_name_not_decodable_witness:
  "\<exists>m. fst (deserialize_task (reader_of (serialize_task (default_task\<lparr>t_name := replicate 1048577 CHR ''x''\<rparr>)))) =
     Inl (make_error E_OutOfBounds (''task name'' @ m))"
  by (rule long_name_not_decodable) simp_all

text \<open>
  A minimal compute capability above 255 is silently reduced modulo 256 in transit: a task that
  requires capability 256.0 is encoded exactly as one that requires none, so the receiving side
  cannot tell them apart.
\<close>

theorem compute_capability_truncated:
  "serialize_task (t\<lparr>t_min_cc_major := 256 + c\<rparr>) = serialize_task (t\<lparr>t_min_cc_major := c\<rparr>)"
proof -
  have "(word_of_int (256 + c) :: byte) = word_of_int c"
    by transfer (simp add: take_bit_eq_mod)
  then show ?thesis by (simp add: serialize_task_def del: of_int_add)
qed

end
