(* ===== verification/Digest.thy ===== *)
theory Digest
  imports Identifiers
begin

text \<open>
  Checksums and hashes (\<open>core/digest.cpp\<close>): the table-driven CRC-32 used by frames and by the
  store, and the 64-bit hashes. The table is the one in the source; the lemmas about error
  detection rest on the table's top bytes being pairwise distinct.
\<close>

section \<open>Definitions\<close>

definition crc_table :: "u32 list" where
  "crc_table =
    [0x00000000, 0x77073096, 0xEE0E612C, 0x990951BA, 0x076DC419, 0x706AF48F, 0xE963A535, 0x9E6495A3,
     0x0EDB8832, 0x79DCB8A4, 0xE0D5E91E, 0x97D2D988, 0x09B64C2B, 0x7EB17CBD, 0xE7B82D07, 0x90BF1D91,
     0x1DB71064, 0x6AB020F2, 0xF3B97148, 0x84BE41DE, 0x1ADAD47D, 0x6DDDE4EB, 0xF4D4B551, 0x83D385C7,
     0x136C9856, 0x646BA8C0, 0xFD62F97A, 0x8A65C9EC, 0x14015C4F, 0x63066CD9, 0xFA0F3D63, 0x8D080DF5,
     0x3B6E20C8, 0x4C69105E, 0xD56041E4, 0xA2677172, 0x3C03E4D1, 0x4B04D447, 0xD20D85FD, 0xA50AB56B,
     0x35B5A8FA, 0x42B2986C, 0xDBBB9F86, 0xACBCF940, 0x32D86CE3, 0x45DF5C75, 0xDCD60DCF, 0xABD13D59,
     0x26D930AC, 0x51DE003A, 0xC8D75180, 0xBFD06116, 0x21B4F4B5, 0x56B3C423, 0xCFBA9599, 0xB8BDA50F,
     0x2802B89E, 0x5F058808, 0xC60CD9B2, 0xB10BE924, 0x2F6F7C87, 0x58684C11, 0xC1611DAB, 0xB6662D3D,
     0x76DC4190, 0x01DB7106, 0x98D220BC, 0xEFD5102A, 0x71B18589, 0x06B6B51F, 0x9FBFE4A5, 0xE8B8D433,
     0x7807C9A2, 0x0F00F934, 0x9609A88E, 0xE10E9818, 0x7F6A0DBB, 0x086D3D2D, 0x91646C97, 0xE6635C01,
     0x6B6B51F4, 0x1C6C6162, 0x856530D8, 0xF262004E, 0x6C0695ED, 0x1B01A57B, 0x8208F4C1, 0xF50FC457,
     0x65B0D9C6, 0x12B7E950, 0x8BBEB8EA, 0xFCB9887C, 0x62DD1DDF, 0x15DA2D49, 0x8CD37CF3, 0xFBD44C65,
     0x4DB26158, 0x3AB551CE, 0xA3BC0074, 0xD4BB30E2, 0x4ADFA541, 0x3DD895D7, 0xA4D1C46D, 0xD3D6F4FB,
     0x4369E96A, 0x346ED9FC, 0xAD678846, 0xDA60B8D0, 0x44042D73, 0x33031DE5, 0xAA0A4C5F, 0xDD0D7CC9,
     0x5005713C, 0x270241AA, 0xBE0B1010, 0xC90C2086, 0x5768B525, 0x206F85B3, 0xB966D409, 0xCE61E49F,
     0x5EDEF90E, 0x29D9C998, 0xB0D09822, 0xC7D7A8B4, 0x59B33D17, 0x2EB40D81, 0xB7BD5C3B, 0xC0BA6CAD,
     0xEDB88320, 0x9ABFB3B6, 0x03B6E20C, 0x74B1D29A, 0xEAD54739, 0x9DD277AF, 0x04DB2615, 0x73DC1683,
     0xE3630B12, 0x94643B84, 0x0D6D6A3E, 0x7A6A5AA8, 0xE40ECF0B, 0x9309FF9D, 0x0A00AE27, 0x7D079EB1,
     0xF00F9344, 0x8708A3D2, 0x1E01F268, 0x6906C2FE, 0xF762575D, 0x806567CB, 0x196C3671, 0x6E6B06E7,
     0xFED41B76, 0x89D32BE0, 0x10DA7A5A, 0x67DD4ACC, 0xF9B9DF6F, 0x8EBEEFF9, 0x17B7BE43, 0x60B08ED5,
     0xD6D6A3E8, 0xA1D1937E, 0x38D8C2C4, 0x4FDFF252, 0xD1BB67F1, 0xA6BC5767, 0x3FB506DD, 0x48B2364B,
     0xD80D2BDA, 0xAF0A1B4C, 0x36034AF6, 0x41047A60, 0xDF60EFC3, 0xA867DF55, 0x316E8EEF, 0x4669BE79,
     0xCB61B38C, 0xBC66831A, 0x256FD2A0, 0x5268E236, 0xCC0C7795, 0xBB0B4703, 0x220216B9, 0x5505262F,
     0xC5BA3BBE, 0xB2BD0B28, 0x2BB45A92, 0x5CB36A04, 0xC2D7FFA7, 0xB5D0CF31, 0x2CD99E8B, 0x5BDEAE1D,
     0x9B64C2B0, 0xEC63F226, 0x756AA39C, 0x026D930A, 0x9C0906A9, 0xEB0E363F, 0x72076785, 0x05005713,
     0x95BF4A82, 0xE2B87A14, 0x7BB12BAE, 0x0CB61B38, 0x92D28E9B, 0xE5D5BE0D, 0x7CDCEFB7, 0x0BDBDF21,
     0x86D3D2D4, 0xF1D4E242, 0x68DDB3F8, 0x1FDA836E, 0x81BE16CD, 0xF6B9265B, 0x6FB077E1, 0x18B74777,
     0x88085AE6, 0xFF0F6A70, 0x66063BCA, 0x11010B5C, 0x8F659EFF, 0xF862AE69, 0x616BFFD3, 0x166CCF45,
     0xA00AE278, 0xD70DD2EE, 0x4E048354, 0x3903B3C2, 0xA7672661, 0xD06016F7, 0x4969474D, 0x3E6E77DB,
     0xAED16A4A, 0xD9D65ADC, 0x40DF0B66, 0x37D83BF0, 0xA9BCAE53, 0xDEBB9EC5, 0x47B2CF7F, 0x30B5FFE9,
     0xBDBDF21C, 0xCABAC28A, 0x53B39330, 0x24B4A3A6, 0xBAD03605, 0xCDD70693, 0x54DE5729, 0x23D967BF,
     0xB3667A2E, 0xC4614AB8, 0x5D681B02, 0x2A6F2B94, 0xB40BBE37, 0xC30C8EA1, 0x5A05DF1B, 0x2D02EF8D]"

definition crc_step :: "u32 \<Rightarrow> byte \<Rightarrow> u32" where
  "crc_step crc b = drop_bit 8 crc XOR crc_table ! unat ((crc XOR ucast b) AND 0xFF)"

definition crc_update :: "u32 \<Rightarrow> byte list \<Rightarrow> u32" where
  "crc_update crc bs = foldl crc_step crc bs"

definition crc_compute :: "byte list \<Rightarrow> u32" where
  "crc_compute bs = crc_update 0xFFFFFFFF bs XOR 0xFFFFFFFF"

definition mix64 :: "u64 \<Rightarrow> u64" where
  "mix64 x =
     (let x = x XOR drop_bit 30 x;
          x = x * 0xBF58476D1CE4E5B9;
          x = x XOR drop_bit 27 x;
          x = x * 0x94D049BB133111EB
      in x XOR drop_bit 31 x)"

definition bytes_hash :: "byte list \<Rightarrow> u64 \<Rightarrow> u64" where
  "bytes_hash bs seed =
     mix64 (foldl (\<lambda>h b. (h XOR ucast b) * 0x100000001B3) (0xCBF29CE484222325 XOR seed) bs)"

text \<open>The polynomial division the table abbreviates: eight shift-and-subtract steps per byte.\<close>

definition crc_bit_step :: "u32 \<Rightarrow> u32" where
  "crc_bit_step c = (if bit c 0 then drop_bit 1 c XOR 0xEDB88320 else drop_bit 1 c)"

definition crc_table_entry :: "nat \<Rightarrow> u32" where
  "crc_table_entry i = (crc_bit_step ^^ 8) (of_nat i)"

section \<open>The table\<close>

lemma length_crc_table [simp]: "length crc_table = 256"
  by (simp add: crc_table_def)

lemma crc_table_tops:
  "map (\<lambda>w. unat (drop_bit 24 w)) crc_table =
    [0, 119, 238, 153, 7, 112, 233, 158, 14, 121, 224, 151, 9, 126, 231, 144,
     29, 106, 243, 132, 26, 109, 244, 131, 19, 100, 253, 138, 20, 99, 250, 141,
     59, 76, 213, 162, 60, 75, 210, 165, 53, 66, 219, 172, 50, 69, 220, 171,
     38, 81, 200, 191, 33, 86, 207, 184, 40, 95, 198, 177, 47, 88, 193, 182,
     118, 1, 152, 239, 113, 6, 159, 232, 120, 15, 150, 225, 127, 8, 145, 230,
     107, 28, 133, 242, 108, 27, 130, 245, 101, 18, 139, 252, 98, 21, 140, 251,
     77, 58, 163, 212, 74, 61, 164, 211, 67, 52, 173, 218, 68, 51, 170, 221,
     80, 39, 190, 201, 87, 32, 185, 206, 94, 41, 176, 199, 89, 46, 183, 192,
     237, 154, 3, 116, 234, 157, 4, 115, 227, 148, 13, 122, 228, 147, 10, 125,
     240, 135, 30, 105, 247, 128, 25, 110, 254, 137, 16, 103, 249, 142, 23, 96,
     214, 161, 56, 79, 209, 166, 63, 72, 216, 175, 54, 65, 223, 168, 49, 70,
     203, 188, 37, 82, 204, 187, 34, 85, 197, 178, 43, 92, 194, 181, 44, 91,
     155, 236, 117, 2, 156, 235, 114, 5, 149, 226, 123, 12, 146, 229, 124, 11,
     134, 241, 104, 31, 129, 246, 111, 24, 136, 255, 102, 17, 143, 248, 97, 22,
     160, 215, 78, 57, 167, 208, 73, 62, 174, 217, 64, 55, 169, 222, 71, 48,
     189, 202, 83, 36, 186, 205, 84, 35, 179, 196, 93, 42, 180, 195, 90, 45]"
  unfolding crc_table_def by (simp add: drop_bit_eq_div)

lemma crc_tops_distinct:
  "distinct
    [0, 119, 238, 153, 7, 112, 233, 158, 14, 121, 224, 151, 9, 126, 231, 144,
     29, 106, 243, 132, 26, 109, 244, 131, 19, 100, 253, 138, 20, 99, 250, 141,
     59, 76, 213, 162, 60, 75, 210, 165, 53, 66, 219, 172, 50, 69, 220, 171,
     38, 81, 200, 191, 33, 86, 207, 184, 40, 95, 198, 177, 47, 88, 193, 182,
     118, 1, 152, 239, 113, 6, 159, 232, 120, 15, 150, 225, 127, 8, 145, 230,
     107, 28, 133, 242, 108, 27, 130, 245, 101, 18, 139, 252, 98, 21, 140, 251,
     77, 58, 163, 212, 74, 61, 164, 211, 67, 52, 173, 218, 68, 51, 170, 221,
     80, 39, 190, 201, 87, 32, 185, 206, 94, 41, 176, 199, 89, 46, 183, 192,
     237, 154, 3, 116, 234, 157, 4, 115, 227, 148, 13, 122, 228, 147, 10, 125,
     240, 135, 30, 105, 247, 128, 25, 110, 254, 137, 16, 103, 249, 142, 23, 96,
     214, 161, 56, 79, 209, 166, 63, 72, 216, 175, 54, 65, 223, 168, 49, 70,
     203, 188, 37, 82, 204, 187, 34, 85, 197, 178, 43, 92, 194, 181, 44, 91,
     155, 236, 117, 2, 156, 235, 114, 5, 149, 226, 123, 12, 146, 229, 124, 11,
     134, 241, 104, 31, 129, 246, 111, 24, 136, 255, 102, 17, 143, 248, 97, 22,
     160, 215, 78, 57, 167, 208, 73, 62, 174, 217, 64, 55, 169, 222, 71, 48,
     189, 202, 83, 36, 186, 205, 84, 35, 179, 196, 93, 42, 180, 195, 90, 45 :: nat]"
  by simp

lemma crc_table_top_inject:
  assumes "i < 256" "j < 256" "drop_bit 24 (crc_table ! i) = drop_bit 24 (crc_table ! j)"
  shows "i = j"
proof -
  have "distinct (map (\<lambda>w. unat (drop_bit 24 w)) crc_table)"
    unfolding crc_table_tops by (rule crc_tops_distinct)
  then show ?thesis using assms nth_eq_iff_index_eq [of "map (\<lambda>w. unat (drop_bit 24 w)) crc_table" i j]
    by simp
qed

lemma crc_table_42: "crc_table ! 42 = 0xDBBB9F86"
  by (simp add: crc_table_def)

lemma crc_table_entry_42: "crc_table_entry 42 = 0xDBBBC9D6"
proof -
  have "(f ^^ 8) c = f (f (f (f (f (f (f (f c)))))))" for f :: "u32 \<Rightarrow> u32" and c
    by (simp add: numeral_nat)
  then show ?thesis
    by (simp add: crc_table_entry_def crc_bit_step_def drop_bit_eq_div bit_0)
qed

section \<open>Error detection\<close>

lemma xor_cancel_right: "a XOR t = b XOR t \<longleftrightarrow> a = (b :: 'a::len word)"
  by (metis xor.assoc xor.right_neutral xor_self_eq)

lemma xor_cancel_left: "t XOR a = t XOR b \<longleftrightarrow> a = (b :: 'a::len word)"
  by (simp add: xor.commute [of t] xor_cancel_right)

definition crc_index :: "u32 \<Rightarrow> byte \<Rightarrow> nat" where
  "crc_index crc b = unat ((crc XOR ucast b) AND 0xFF)"

lemma crc_index_less: "crc_index c b < 256"
  using word_and_le1 [of "c XOR ucast b" "0xFF"] by (simp add: crc_index_def word_le_nat_alt)

lemma crc_index_eq: "crc_index c b = unat (ucast c XOR b :: byte)"
proof -
  have m: "(0xFF :: u32) = mask 8" by (simp add: mask_eq_exp_minus_1)
  have "(c XOR ucast b) AND 0xFF = ucast (ucast c XOR b :: byte)"
    unfolding m by (rule bit_word_eqI) (auto simp: bit_simps dest: bit_imp_le_length)
  moreover have "unat (ucast w :: u32) = unat w" for w :: byte
  proof -
    have "unat w < 2 ^ LENGTH(8)" by (rule unsigned_less)
    then show ?thesis by (simp add: unsigned_ucast_eq take_bit_nat_eq_self)
  qed
  ultimately show ?thesis by (simp only: crc_index_def)
qed

lemma crc_step_index: "crc_step c b = drop_bit 8 c XOR crc_table ! crc_index c b"
  by (simp add: crc_step_def crc_index_def)

lemma drop_bit_24_8: "drop_bit 24 (drop_bit 8 (c :: u32)) = 0"
  by (rule bit_word_eqI) (simp add: bit_simps)

text \<open>The state after a step determines the table index used and the upper bytes of the state before.\<close>

lemma crc_step_back:
  assumes eq: "drop_bit (8 * j) (crc_step c b) = drop_bit (8 * j) (crc_step d e)" and "j \<le> 3"
  shows "crc_index c b = crc_index d e" "drop_bit (8 * Suc j) c = drop_bit (8 * Suc j) d"
proof -
  have "drop_bit (24 - 8 * j) (drop_bit (8 * j) (crc_step c b)) =
        drop_bit (24 - 8 * j) (drop_bit (8 * j) (crc_step d e))" using eq by simp
  then have "drop_bit 24 (crc_step c b) = drop_bit 24 (crc_step d e)"
    using \<open>j \<le> 3\<close> by (simp add: drop_bit_drop_bit)
  then have "drop_bit 24 (crc_table ! crc_index c b) = drop_bit 24 (crc_table ! crc_index d e)"
    by (simp add: crc_step_index drop_bit_xor drop_bit_24_8)
  then show idx: "crc_index c b = crc_index d e"
    by (rule crc_table_top_inject [OF crc_index_less crc_index_less])
  have "drop_bit (8 * j) (drop_bit 8 c) = drop_bit (8 * j) (drop_bit 8 d)"
    using eq by (simp add: crc_step_index drop_bit_xor idx xor_cancel_right)
  then show "drop_bit (8 * Suc j) c = drop_bit (8 * Suc j) d"
    by (simp add: drop_bit_drop_bit add.commute)
qed

lemma crc_step_inject_byte: "crc_index c b = crc_index c e \<Longrightarrow> b = e"
  by (simp add: crc_index_eq xor_cancel_left flip: word_unat_eq_iff)

lemma crc_step_inject_state:
  assumes "crc_step c b = crc_step d b"
  shows "c = d"
proof -
  have "ucast c = (ucast d :: byte)" "drop_bit 8 c = drop_bit 8 d"
    using crc_step_back [of 0 c b d b] assms by (simp_all add: crc_index_eq xor_cancel_right flip: word_unat_eq_iff)
  then have "push_bit 8 (drop_bit 8 c) OR ucast (ucast c :: byte)
           = push_bit 8 (drop_bit 8 d) OR ucast (ucast d :: byte)" by simp
  moreover have "push_bit 8 (drop_bit 8 x) OR ucast (ucast x :: byte) = x" for x :: u32
    by (rule bit_word_eqI) (auto simp: bit_simps)
  ultimately show ?thesis by simp
qed

lemma crc_update_simps [simp]:
  "crc_update c [] = c" "crc_update c (b # bs) = crc_update (crc_step c b) bs"
  "crc_update c (as @ bs) = crc_update (crc_update c as) bs"
  by (simp_all add: crc_update_def)

lemma crc_update_inject_state: "crc_update c bs = crc_update d bs \<Longrightarrow> c = d"
  by (induction bs arbitrary: c d) (auto dest: crc_step_inject_state)

lemma crc_update_window:
  assumes "length xs = length ys" "j + length xs \<le> 4"
    "drop_bit (8 * j) (crc_update c xs) = drop_bit (8 * j) (crc_update c ys)"
  shows "xs = ys"
  using assms
proof (induction xs arbitrary: ys j rule: rev_induct)
  case Nil
  then show ?case by simp
next
  case (snoc x xs)
  obtain y ys' where ys: "ys = ys' @ [y]" "length ys' = length xs"
    using snoc.prems(1) by (cases ys rule: rev_cases) auto
  have "drop_bit (8 * j) (crc_step (crc_update c xs) x) = drop_bit (8 * j) (crc_step (crc_update c ys') y)"
    using snoc.prems(3) ys by simp
  moreover have "j \<le> 3" using snoc.prems(2) by simp
  ultimately have prev: "crc_index (crc_update c xs) x = crc_index (crc_update c ys') y"
    "drop_bit (8 * Suc j) (crc_update c xs) = drop_bit (8 * Suc j) (crc_update c ys')"
    by (rule crc_step_back)+
  then have "xs = ys'" using snoc.IH [of ys' "Suc j"] snoc.prems(2) ys(2) by simp
  then show ?case using prev(1) ys(1) crc_step_inject_byte by blast
qed

lemma crc_compute_burst:
  assumes "length xs = length ys" "length xs \<le> 4" "xs \<noteq> ys"
  shows "crc_compute (pre @ xs @ post) \<noteq> crc_compute (pre @ ys @ post)"
proof
  assume "crc_compute (pre @ xs @ post) = crc_compute (pre @ ys @ post)"
  then have "crc_update (crc_update 0xFFFFFFFF pre) xs = crc_update (crc_update 0xFFFFFFFF pre) ys"
    by (auto simp: crc_compute_def xor_cancel_right dest: crc_update_inject_state)
  then show False using crc_update_window [of xs ys 0] assms by simp
qed

section \<open>The 64-bit mixers\<close>

lemma xor_shift_inject:
  fixes x y :: "'a::len word"
  assumes eq: "x XOR drop_bit k x = y XOR drop_bit k y" and "0 < k"
  shows "x = y"
proof (rule bit_word_eqI)
  fix n assume "n < LENGTH('a)"
  then show "bit x n \<longleftrightarrow> bit y n"
  proof (induction "LENGTH('a) - n" arbitrary: n rule: less_induct)
    case less
    have "bit x (k + n) \<longleftrightarrow> bit y (k + n)"
    proof (cases "k + n < LENGTH('a)")
      case True
      then show ?thesis using less \<open>0 < k\<close> by simp
    next
      case False
      then show ?thesis by (auto dest: bit_imp_le_length)
    qed
    moreover have "(bit x n \<noteq> bit x (k + n)) \<longleftrightarrow> (bit y n \<noteq> bit y (k + n))"
      using arg_cong [OF eq, of "\<lambda>w. bit w n"] by (simp add: bit_simps)
    ultimately show ?case by auto
  qed
qed

lemma times_inject_by_inverse:
  fixes x y c d :: "'a::len word"
  assumes "c * d = 1" "x * c = y * c"
  shows "x = y"
proof -
  have "x * (c * d) = y * (c * d)" using assms(2) by (metis mult.assoc)
  then show ?thesis using assms(1) by simp
qed

lemma mix_multipliers:
  "(0xBF58476D1CE4E5B9 :: u64) * 0x96DE1B173F119089 = 1"
  "(0x94D049BB133111EB :: u64) * 0x319642B2D24D8EC3 = 1"
  by simp_all

lemma mix64_inject: "mix64 x = mix64 y \<Longrightarrow> x = y"
  unfolding mix64_def Let_def
  by (drule xor_shift_inject, simp, drule times_inject_by_inverse [OF mix_multipliers(2)],
      drule xor_shift_inject, simp, drule times_inject_by_inverse [OF mix_multipliers(1)],
      drule xor_shift_inject, simp_all)

lemma rng_next_u64_mix: "rng_next_u64 st = (mix64 (st + 0x9E3779B97F4A7C15), st + 0x9E3779B97F4A7C15)"
  by (simp add: rng_next_u64_def mix64_def Let_def)

text \<open>The state of the generator after \<open>n\<close> draws, and the \<open>n\<close>-th value drawn.\<close>

primrec rng_state :: "u64 \<Rightarrow> nat \<Rightarrow> u64" where
  "rng_state seed 0 = seed"
| "rng_state seed (Suc n) = snd (rng_next_u64 (rng_state seed n))"

definition rng_nth :: "u64 \<Rightarrow> nat \<Rightarrow> u64" where
  "rng_nth seed n = fst (rng_next_u64 (rng_state seed n))"

lemma rng_state_eq: "rng_state seed n = seed + of_nat n * 0x9E3779B97F4A7C15"
  by (induction n) (simp_all add: rng_next_u64_mix algebra_simps)

lemma rng_increment_inverse: "(0x9E3779B97F4A7C15 :: u64) * 0xF1DE83E19937733D = 1"
  by simp

lemma of_nat_u64_inject:
  assumes "(of_nat m :: u64) = of_nat n" "m < 2 ^ LENGTH(64)" "n < 2 ^ LENGTH(64)"
  shows "m = n"
  using arg_cong [OF assms(1), of unat] assms(2,3) by (simp only: unat_of_nat mod_less)

lemma rng_nth_inject:
  assumes "rng_nth seed m = rng_nth seed n" "m < 2 ^ LENGTH(64)" "n < 2 ^ LENGTH(64)"
  shows "m = n"
proof -
  have "rng_state seed m + 0x9E3779B97F4A7C15 = rng_state seed n + 0x9E3779B97F4A7C15"
    by (rule mix64_inject) (use assms(1) in \<open>simp only: rng_nth_def rng_next_u64_mix fst_conv\<close>)
  then have "of_nat m * (0x9E3779B97F4A7C15 :: u64) = of_nat n * 0x9E3779B97F4A7C15"
    by (simp only: rng_state_eq add_right_cancel add_left_cancel)
  then have "(of_nat m :: u64) = of_nat n"
    by (rule times_inject_by_inverse [OF rng_increment_inverse])
  then show ?thesis using assms(2,3) by (rule of_nat_u64_inject)
qed

section \<open>Properties\<close>

text \<open>
  C39: the checksum detects every burst of at most four bytes: two byte sequences of the same length
  that differ only inside a window of four consecutive bytes have different checksums. This holds
  for the table of the source, entry 42 included.
\<close>

theorem crc_detects_bursts:
  assumes "length xs = length ys" "length xs \<le> 4" "xs \<noteq> ys"
  shows "crc_compute (pre @ xs @ post) \<noteq> crc_compute (pre @ ys @ post)"
  using assms by (rule crc_compute_burst)

theorem crc_detects_bursts_witness:
  "crc_compute ([1, 2] @ [3, 4, 5, 6] @ [7]) \<noteq> crc_compute ([1, 2] @ [3, 0, 0, 9] @ [7])"
  by (rule crc_detects_bursts) simp_all

text \<open>
  The table is not the IEEE 802.3 table it is documented to be: entry 42 differs from eight
  steps of the reflected polynomial \<open>0xEDB88320\<close>, and the one-byte message that selects this
  entry has a checksum different from the standard one.
\<close>

theorem crc_table_not_ieee:
  "crc_table ! 42 \<noteq> crc_table_entry 42 \<and>
   crc_compute [0xD5] \<noteq> (drop_bit 8 0xFFFFFFFF XOR crc_table_entry 42) XOR 0xFFFFFFFF"
proof -
  have "crc_compute [0xD5] = (drop_bit 8 0xFFFFFFFF XOR crc_table ! 42) XOR 0xFFFFFFFF"
    by (simp add: crc_compute_def crc_step_def)
  then show ?thesis by (simp add: crc_table_42 crc_table_entry_42 xor_cancel_right xor_cancel_left)
qed

text \<open>
  The deterministic generator does not repeat itself: any two of the first \<open>2 ^ 64\<close> values
  drawn from one seed are different.
\<close>

theorem rng_values_distinct:
  assumes "m < 2 ^ LENGTH(64)" "n < 2 ^ LENGTH(64)" "m \<noteq> n"
  shows "rng_nth seed m \<noteq> rng_nth seed n"
  using rng_nth_inject [OF _ assms(1,2)] assms(3) by blast

theorem rng_values_distinct_witness: "rng_nth 42 0 \<noteq> rng_nth 42 1"
  by (rule rng_values_distinct) simp_all

end
