(* ===== verification/Frame.thy ===== *)
theory Frame
  imports Wire Digest
begin

text \<open>
  Framing of the wire protocol (\<open>protocol/frame.h\<close>, \<open>protocol/frame.cpp\<close>): a 45-byte header with
  its own checksum, followed by a payload whose length and checksum the header carries.
\<close>

definition kFrameMagic :: u32 where "kFrameMagic = 0x434F4D50"

definition kProtocolVersion :: u16 where "kProtocolVersion = 1"

definition kMaxFramePayload :: u32 where "kMaxFramePayload = push_bit 20 8"

definition kHeaderSize :: nat where "kHeaderSize = 45"

datatype SenderKind = SK_Node | SK_Client | SK_Coordinator | SK_Other u8

fun sender_kind_to_u8 :: "SenderKind \<Rightarrow> u8" where
  "sender_kind_to_u8 SK_Node = 1"
| "sender_kind_to_u8 SK_Client = 2"
| "sender_kind_to_u8 SK_Coordinator = 3"
| "sender_kind_to_u8 (SK_Other v) = v"

definition sender_kind_of_u8 :: "u8 \<Rightarrow> SenderKind" where
  "sender_kind_of_u8 v =
     (if v = 1 then SK_Node else if v = 2 then SK_Client else if v = 3 then SK_Coordinator else SK_Other v)"

fun sender_kind_ok :: "SenderKind \<Rightarrow> bool" where
  "sender_kind_ok (SK_Other v) = (v \<noteq> 1 \<and> v \<noteq> 2 \<and> v \<noteq> 3)"
| "sender_kind_ok _ = True"

record FrameHeader =
  fh_magic :: u32
  fh_version :: u16
  fh_message_type :: u16
  fh_request_id :: u64
  fh_sender_kind :: SenderKind
  fh_sender_id :: Id128
  fh_payload_length :: u32
  fh_payload_checksum :: u32
  fh_header_checksum :: u32

record Frame =
  f_header :: FrameHeader
  f_payload :: "byte list"

section \<open>Header encoding\<close>

definition put_be_u16 :: "u16 \<Rightarrow> byte list" where
  "put_be_u16 v = [ucast (drop_bit 8 v AND 0xFF), ucast (v AND 0xFF)]"

definition put_be_u32 :: "u32 \<Rightarrow> byte list" where
  "put_be_u32 v = [ucast (drop_bit 24 v AND 0xFF), ucast (drop_bit 16 v AND 0xFF),
                   ucast (drop_bit 8 v AND 0xFF), ucast (v AND 0xFF)]"

definition put_be_u64 :: "u64 \<Rightarrow> byte list" where
  "put_be_u64 v = map (\<lambda>i. ucast (drop_bit (i * 8) v AND 0xFF)) (rev [0..<8])"

text \<open>The pointer pair \<open>(p, end)\<close> of the source is a reader over the header bytes.\<close>

definition get_be_u16 :: "u16 rd" where
  "get_be_u16 r =
     (if remaining r < 2 then (None, r)
      else (Some (push_bit 8 (ucast (rd_data r ! rd_pos r)) OR ucast (rd_data r ! (rd_pos r + 1))),
            r\<lparr>rd_pos := rd_pos r + 2\<rparr>))"

definition get_be_u32 :: "u32 rd" where
  "get_be_u32 r =
     (if remaining r < 4 then (None, r)
      else (Some (push_bit 24 (ucast (rd_data r ! rd_pos r)) OR push_bit 16 (ucast (rd_data r ! (rd_pos r + 1))) OR
                  push_bit 8 (ucast (rd_data r ! (rd_pos r + 2))) OR ucast (rd_data r ! (rd_pos r + 3))),
            r\<lparr>rd_pos := rd_pos r + 4\<rparr>))"

definition get_be_u64 :: "u64 rd" where
  "get_be_u64 r =
     (if remaining r < 8 then (None, r)
      else (Some (foldl (\<lambda>v i. push_bit 8 v OR ucast (rd_data r ! (rd_pos r + i))) 0 [0..<8]),
            r\<lparr>rd_pos := rd_pos r + 8\<rparr>))"

definition encode_header :: "FrameHeader \<Rightarrow> byte list" where
  "encode_header h =
     put_be_u32 (fh_magic h) @ put_be_u16 (fh_version h) @ put_be_u16 (fh_message_type h) @
     put_be_u64 (fh_request_id h) @ [sender_kind_to_u8 (fh_sender_kind h)] @ id_to_bytes (fh_sender_id h) @
     put_be_u32 (fh_payload_length h) @ put_be_u32 (fh_payload_checksum h) @ put_be_u32 (fh_header_checksum h)"

text \<open>\<open>if (!get(p, end, v)) return Error(MalformedFrame, what)\<close>, and the unchecked \<open>*p++\<close> and \<open>p += 16\<close>.\<close>

definition hneed :: "string \<Rightarrow> 'a rd \<Rightarrow> 'a parser" where
  "hneed what rd r =
     (case rd r of (None, r') \<Rightarrow> (Inl (make_error E_MalformedFrame what), r') | (Some v, r') \<Rightarrow> (Inr v, r'))"

definition next_byte :: "u8 parser" where
  "next_byte r = (Inr (rd_data r ! rd_pos r), r\<lparr>rd_pos := rd_pos r + 1\<rparr>)"

definition advance :: "nat \<Rightarrow> unit parser" where
  "advance n r = (Inr (), r\<lparr>rd_pos := rd_pos r + n\<rparr>)"

definition at_end :: "bool parser" where
  "at_end r = (Inr (rd_pos r = length (rd_data r)), r)"

definition zero_checksum :: "byte list \<Rightarrow> byte list" where
  "zero_checksum hdr = take (kHeaderSize - 4) hdr @ replicate 4 0"

definition check_header :: "byte list \<Rightarrow> FrameHeader \<Rightarrow> FrameHeader result" where
  "check_header inb h =
     (if fh_magic h \<noteq> kFrameMagic then fail_with E_MalformedFrame ''bad magic''
      else if kMaxFramePayload < fh_payload_length h then fail_with E_MalformedFrame ''payload exceeds maximum frame size''
      else if crc_compute (zero_checksum inb) \<noteq> fh_header_checksum h
        then fail_with E_MalformedFrame ''header checksum mismatch''
      else Inr (h\<lparr>fh_sender_id := id_from_bytes (take 16 (drop 17 inb))\<rparr>))"

definition header_fields :: "FrameHeader parser" where
  "header_fields =
     pbind (hneed ''truncated magic'' get_be_u32) (\<lambda>magic.
     pbind (hneed ''truncated version'' get_be_u16) (\<lambda>version.
     pbind (hneed ''truncated message type'' get_be_u16) (\<lambda>message_type.
     pbind (hneed ''truncated request id'' get_be_u64) (\<lambda>request_id.
     pbind next_byte (\<lambda>sk.
     pbind (advance 16) (\<lambda>_.
     pbind (hneed ''truncated payload length'' get_be_u32) (\<lambda>payload_length.
     pbind (hneed ''truncated payload checksum'' get_be_u32) (\<lambda>payload_checksum.
     pbind (hneed ''truncated header checksum'' get_be_u32) (\<lambda>header_checksum.
     pbind at_end (\<lambda>e.
       if \<not> e then pfail (make_error E_MalformedFrame ''header trailing bytes'')
       else preturn
        \<lparr>fh_magic = magic, fh_version = version, fh_message_type = message_type, fh_request_id = request_id,
         fh_sender_kind = sender_kind_of_u8 sk, fh_sender_id = id_zero, fh_payload_length = payload_length,
         fh_payload_checksum = payload_checksum, fh_header_checksum = header_checksum\<rparr>))))))))))"

definition decode_header :: "byte list \<Rightarrow> FrameHeader result" where
  "decode_header inb =
     (if length inb \<noteq> kHeaderSize then fail_with E_MalformedFrame ''header size mismatch''
      else case fst (header_fields (reader_of inb)) of
        Inl e \<Rightarrow> Inl e
      | Inr h \<Rightarrow> check_header inb h)"

definition make_frame :: "u16 \<Rightarrow> SenderKind \<Rightarrow> Id128 \<Rightarrow> u64 \<Rightarrow> byte list \<Rightarrow> Frame" where
  "make_frame message_type sender_kind sender_id request_id payload =
     (let h = \<lparr>fh_magic = kFrameMagic, fh_version = kProtocolVersion, fh_message_type = message_type,
               fh_request_id = request_id, fh_sender_kind = sender_kind, fh_sender_id = sender_id,
               fh_payload_length = of_nat (length payload), fh_payload_checksum = crc_compute payload,
               fh_header_checksum = 0\<rparr>
      in \<lparr>f_header = h\<lparr>fh_header_checksum := crc_compute (zero_checksum (encode_header h))\<rparr>,
          f_payload = payload\<rparr>)"

definition validate_frame :: "Frame \<Rightarrow> unit result" where
  "validate_frame frame =
     (let h = f_header frame in
      if fh_magic h \<noteq> kFrameMagic then fail_with E_MalformedFrame ''bad magic''
      else if fh_version h \<noteq> kProtocolVersion
        then fail_with E_ProtocolVersionMismatch ''unsupported protocol version''
      else if unat (fh_payload_length h) \<noteq> length (f_payload frame)
        then fail_with E_MalformedFrame ''payload length mismatch''
      else if kMaxFramePayload < fh_payload_length h
        then fail_with E_MalformedFrame ''payload exceeds maximum frame size''
      else if crc_compute (f_payload frame) \<noteq> fh_payload_checksum h
        then fail_with E_MalformedFrame ''payload checksum mismatch''
      else Inr ())"

definition frame_error_detail :: "unit result \<Rightarrow> string" where
  "frame_error_detail r = (case r of Inr _ \<Rightarrow> ''ok'' | Inl e \<Rightarrow> err_message e)"

section \<open>Lemmas\<close>

lemma sender_kind_to_of_u8 [enum_simps]: "sender_kind_to_u8 (sender_kind_of_u8 v) = v"
  by (simp add: sender_kind_of_u8_def)

lemma sender_kind_of_to_u8 [enum_simps]: "sender_kind_ok c \<Longrightarrow> sender_kind_of_u8 (sender_kind_to_u8 c) = c"
  by (cases c) (auto simp: sender_kind_of_u8_def)

lemma sender_kind_of_u8_ok [simp]: "sender_kind_ok (sender_kind_of_u8 v)"
  by (simp add: sender_kind_of_u8_def)

lemma put_be_alt: "put_be_u16 a = be_bytes 2 a" "put_be_u32 b = be_bytes 4 b" "put_be_u64 c = be_bytes 8 c"
  using put_u16_alt put_u32_alt put_u64_alt
  by (simp_all add: put_be_u16_def put_be_u32_def put_be_u64_def put_u16_def put_u32_def put_u64_def)

lemma get_be_u16_alt: "get_be_u16 = read_block 2 be_fold"
  unfolding read_u16_alt [symmetric]
  by (auto simp: fun_eq_iff get_be_u16_def read_u16_def read_block_def remaining_def)

lemma get_be_u32_alt: "get_be_u32 = read_block 4 be_fold"
  unfolding read_u32_alt [symmetric]
  by (auto simp: fun_eq_iff get_be_u32_def read_u32_def read_block_def remaining_def)

lemma get_be_u64_alt: "get_be_u64 = read_block 8 be_fold"
proof -
  have "foldl (\<lambda>v i. push_bit 8 v OR ucast (d ! (p + i))) (0 :: u64) [0..<8] = be_fold (take 8 (drop p d))"
    if "p + 8 \<le> length d" for p and d :: "byte list"
  proof -
    have "take 8 (drop p d) = map (\<lambda>i. d ! (p + i)) [0..<8]"
      using that by (intro nth_equalityI) auto
    then show ?thesis by (simp add: be_fold_def foldl_map)
  qed
  then show ?thesis
    by (auto simp: fun_eq_iff get_be_u64_def read_block_def remaining_def)
qed

lemma bit_be_fold: "bit (be_fold bs :: 'a::len word) i \<Longrightarrow> i < 8 * length bs"
proof (induction bs arbitrary: i rule: rev_induct)
  case Nil
  then show ?case by (simp add: be_fold_def)
next
  case (snoc b bs)
  from snoc.prems consider "8 \<le> i" "bit (be_fold bs :: 'a word) (i - 8)" | "i < 8"
    using bit_imp_le_length [of b i] by (auto simp: be_fold_snoc bit_simps)
  then show ?case using snoc.IH [of "i - 8"] by cases auto
qed

lemma be_bytes_be_fold:
  "8 * length bs \<le> LENGTH('a) \<Longrightarrow> be_bytes (length bs) (be_fold bs :: 'a::len word) = bs"
proof (induction bs rule: rev_induct)
  case Nil
  then show ?case by simp
next
  case (snoc b bs)
  let ?v = "be_fold bs :: 'a word"
  have "drop_bit 8 (push_bit 8 ?v OR ucast b) = ?v"
    by (rule bit_word_eqI) (use snoc.prems in \<open>auto simp: bit_simps dest: bit_be_fold bit_imp_le_length\<close>)
  moreover have "ucast (push_bit 8 ?v OR ucast b) = b"
    by (rule bit_word_eqI) (use snoc.prems in \<open>auto simp: bit_simps\<close>)
  ultimately show ?case using snoc by (simp add: be_fold_snoc)
qed

lemma be_bytes_be_fold': "length bs = n \<Longrightarrow> 8 * n \<le> LENGTH('a) \<Longrightarrow> be_bytes n (be_fold bs :: 'a::len word) = bs"
  using be_bytes_be_fold [of bs, where 'a = 'a] by simp

lemma id_to_from_bytes: "length bs = 16 \<Longrightarrow> id_to_bytes (id_from_bytes bs) = bs"
  by (simp add: id_to_bytes_alt id_from_bytes_def be_bytes_be_fold')

lemma length_encode_header [simp]: "length (encode_header h) = kHeaderSize"
  by (simp add: encode_header_def put_be_alt kHeaderSize_def)

lemma header_fields_eq:
  assumes "length bs = kHeaderSize"
  shows "fst (header_fields (reader_of bs)) = Inr
    \<lparr>fh_magic = be_fold (take 4 bs), fh_version = be_fold (take 2 (drop 4 bs)),
     fh_message_type = be_fold (take 2 (drop 6 bs)), fh_request_id = be_fold (take 8 (drop 8 bs)),
     fh_sender_kind = sender_kind_of_u8 (bs ! 16), fh_sender_id = id_zero,
     fh_payload_length = be_fold (take 4 (drop 33 bs)), fh_payload_checksum = be_fold (take 4 (drop 37 bs)),
     fh_header_checksum = be_fold (take 4 (drop 41 bs))\<rparr>"
  using assms
  by (simp add: header_fields_def pbind_def hneed_def get_be_u16_alt get_be_u32_alt get_be_u64_alt
      read_block_def reader_of_def next_byte_def advance_def at_end_def preturn_def kHeaderSize_def)

lemma header_pieces:
  assumes "length bs = 45"
  shows "take 4 bs @ take 2 (drop 4 bs) @ take 2 (drop 6 bs) @ take 8 (drop 8 bs) @ [bs ! 16] @
    take 16 (drop 17 bs) @ take 4 (drop 33 bs) @ take 4 (drop 37 bs) @ take 4 (drop 41 bs) = bs"
proof -
  have step: "take n (drop m bs) @ drop (m + n) bs = drop m bs" for n m
    by (metis append_take_drop_id drop_drop add.commute)
  have "take 4 (drop 41 bs) = drop 41 bs" using assms by simp
  moreover have "[bs ! 16] @ drop 17 bs = drop 16 bs"
    using assms Cons_nth_drop_Suc [of 16 bs] by simp
  ultimately show ?thesis
    using step [of 4 37] step [of 4 33] step [of 16 17] step [of 8 8] step [of 2 6] step [of 2 4] step [of 4 0]
    by simp
qed

lemma encode_header_pieces:
  assumes "bs = encode_header h"
  shows "be_fold (take 4 bs) = fh_magic h" "be_fold (take 2 (drop 4 bs)) = fh_version h"
    "be_fold (take 2 (drop 6 bs)) = fh_message_type h" "be_fold (take 8 (drop 8 bs)) = fh_request_id h"
    "bs ! 16 = sender_kind_to_u8 (fh_sender_kind h)" "take 16 (drop 17 bs) = id_to_bytes (fh_sender_id h)"
    "be_fold (take 4 (drop 33 bs)) = fh_payload_length h" "be_fold (take 4 (drop 37 bs)) = fh_payload_checksum h"
    "be_fold (take 4 (drop 41 bs)) = fh_header_checksum h"
  using assms by (simp_all add: encode_header_def put_be_alt be_fold_bytes_self nth_append)

lemma encode_header_of_pieces:
  assumes "length bs = kHeaderSize"
  shows "encode_header
    \<lparr>fh_magic = be_fold (take 4 bs), fh_version = be_fold (take 2 (drop 4 bs)),
     fh_message_type = be_fold (take 2 (drop 6 bs)), fh_request_id = be_fold (take 8 (drop 8 bs)),
     fh_sender_kind = sender_kind_of_u8 (bs ! 16), fh_sender_id = id_from_bytes (take 16 (drop 17 bs)),
     fh_payload_length = be_fold (take 4 (drop 33 bs)), fh_payload_checksum = be_fold (take 4 (drop 37 bs)),
     fh_header_checksum = be_fold (take 4 (drop 41 bs))\<rparr> = bs"
  using header_pieces [of bs] assms
  by (simp add: encode_header_def put_be_alt be_bytes_be_fold' id_to_from_bytes sender_kind_to_of_u8 kHeaderSize_def)

lemma decode_header_iff:
  "decode_header bs = Inr h \<longleftrightarrow>
     bs = encode_header h \<and> sender_kind_ok (fh_sender_kind h) \<and> fh_magic h = kFrameMagic \<and>
     fh_payload_length h \<le> kMaxFramePayload \<and> fh_header_checksum h = crc_compute (zero_checksum bs)"
  (is "?l \<longleftrightarrow> ?r")
proof
  assume l: ?l
  then have len: "length bs = kHeaderSize" by (auto simp: decode_header_def fail_with_def split: if_splits)
  let ?p = "\<lparr>fh_magic = be_fold (take 4 bs), fh_version = be_fold (take 2 (drop 4 bs)),
     fh_message_type = be_fold (take 2 (drop 6 bs)), fh_request_id = be_fold (take 8 (drop 8 bs)),
     fh_sender_kind = sender_kind_of_u8 (bs ! 16), fh_sender_id = id_from_bytes (take 16 (drop 17 bs)),
     fh_payload_length = be_fold (take 4 (drop 33 bs)), fh_payload_checksum = be_fold (take 4 (drop 37 bs)),
     fh_header_checksum = be_fold (take 4 (drop 41 bs))\<rparr>"
  have "check_header bs (?p\<lparr>fh_sender_id := id_zero\<rparr>) = Inr h"
    using l len by (simp add: decode_header_def header_fields_eq)
  then have h: "h = ?p" and ok: "fh_magic ?p = kFrameMagic" "fh_payload_length ?p \<le> kMaxFramePayload"
    "fh_header_checksum ?p = crc_compute (zero_checksum bs)"
    by (auto simp: check_header_def fail_with_def split: if_splits)
  have "bs = encode_header ?p" by (rule encode_header_of_pieces [OF len, symmetric])
  moreover have "sender_kind_ok (fh_sender_kind ?p)" by simp
  ultimately show ?r using ok unfolding h by blast
next
  assume r: ?r
  then have bs: "bs = encode_header h" by blast
  have "sender_kind_ok (fh_sender_kind h)" "fh_magic h = kFrameMagic" "fh_payload_length h \<le> kMaxFramePayload"
    "crc_compute (zero_checksum bs) = fh_header_checksum h"
    using r by simp_all
  moreover have "length bs = kHeaderSize" using bs by simp
  ultimately show ?l
    by (simp add: decode_header_def header_fields_eq encode_header_pieces [OF bs] check_header_def
        sender_kind_of_to_u8 not_less)
qed

lemma zero_checksum_encode:
  "zero_checksum (encode_header h) =
     put_be_u32 (fh_magic h) @ put_be_u16 (fh_version h) @ put_be_u16 (fh_message_type h) @
     put_be_u64 (fh_request_id h) @ [sender_kind_to_u8 (fh_sender_kind h)] @ id_to_bytes (fh_sender_id h) @
     put_be_u32 (fh_payload_length h) @ put_be_u32 (fh_payload_checksum h) @ replicate 4 0"
  by (simp add: zero_checksum_def kHeaderSize_def encode_header_def put_be_alt)

lemma max_payload_nat: "unat kMaxFramePayload = 8 * 1024 * 1024"
  by (simp add: kMaxFramePayload_def)

lemma make_frame_header:
  assumes "sender_kind_ok sk" "length payload \<le> unat kMaxFramePayload"
  shows "decode_header (encode_header (f_header (make_frame mt sk sid rid payload))) =
    Inr (f_header (make_frame mt sk sid rid payload))"
  using assms count_le [OF assms(2)] unfolding decode_header_iff
  by (simp add: make_frame_def Let_def zero_checksum_encode)

lemma make_frame_valid:
  "validate_frame (make_frame mt sk sid rid payload) = Inr () \<longleftrightarrow> length payload \<le> unat kMaxFramePayload"
proof -
  have "length payload \<le> unat kMaxFramePayload \<longleftrightarrow>
      unat (of_nat (length payload) :: u32) = length payload \<and> (of_nat (length payload) :: u32) \<le> kMaxFramePayload"
    using unat_count [of "length payload" kMaxFramePayload] by (auto simp: word_le_nat_alt)
  then show ?thesis
    by (auto simp: validate_frame_def make_frame_def Let_def fail_with_def not_less)
qed

text \<open>A burst in the checksummed part of the header, in its checksum, and in the payload.\<close>

lemma header_burst_rejected:
  assumes "length xs = length ys" "length xs \<le> 4" "xs \<noteq> ys"
    and d: "decode_header (pre @ xs @ post @ chk) = Inr h" and c: "length chk = 4"
  shows "decode_header (pre @ ys @ post @ chk) \<noteq> Inr h'"
proof
  assume d': "decode_header (pre @ ys @ post @ chk) = Inr h'"
  have eq: "pre @ xs @ post @ chk = encode_header h" "pre @ ys @ post @ chk = encode_header h'"
    using d d' by (simp_all add: decode_header_iff)
  have len: "length pre + (length xs + length post) = 41"
    using arg_cong [OF eq(1), of length] c by (simp add: kHeaderSize_def)
  have "drop 41 (pre @ xs @ post @ chk) = chk"
    using len by (metis append.assoc append_eq_conv_conj length_append)
  moreover have "drop 41 (pre @ ys @ post @ chk) = chk"
    using len assms(1) by (metis append.assoc append_eq_conv_conj length_append)
  ultimately have "fh_header_checksum h = fh_header_checksum h'"
    using encode_header_pieces(9) [OF eq(1)] encode_header_pieces(9) [OF eq(2)] by simp
  moreover have "zero_checksum (pre @ xs @ post @ chk) = pre @ xs @ post @ replicate 4 0"
    "zero_checksum (pre @ ys @ post @ chk) = pre @ ys @ post @ replicate 4 0"
    using len assms(1) by (simp_all add: zero_checksum_def kHeaderSize_def)
  ultimately show False
    using crc_compute_burst [OF assms(1-3), of pre "post @ replicate 4 0"] d d' by (simp add: decode_header_iff)
qed

lemma header_checksum_changed_rejected:
  assumes "length xs = 4" "length ys = 4" "xs \<noteq> ys" and d: "decode_header (pre @ xs) = Inr h"
  shows "decode_header (pre @ ys) \<noteq> Inr h'"
proof
  assume d': "decode_header (pre @ ys) = Inr h'"
  have eq: "pre @ xs = encode_header h" "pre @ ys = encode_header h'"
    using d d' by (simp_all add: decode_header_iff)
  have len: "length pre = 41" using arg_cong [OF eq(1), of length] assms by (simp add: kHeaderSize_def)
  have "be_fold xs = fh_header_checksum h" "be_fold ys = fh_header_checksum h'"
    using encode_header_pieces(9) [OF eq(1)] encode_header_pieces(9) [OF eq(2)] len assms by simp_all
  moreover have "zero_checksum (pre @ xs) = zero_checksum (pre @ ys)"
    using len by (simp add: zero_checksum_def kHeaderSize_def)
  ultimately have "(be_fold xs :: u32) = be_fold ys" using d d' by (simp add: decode_header_iff)
  then have "be_bytes 4 (be_fold xs :: u32) = be_bytes 4 (be_fold ys :: u32)" by simp
  then show False using assms by (simp add: be_bytes_be_fold')
qed

lemma payload_burst_rejected:
  assumes "length xs = length ys" "length xs \<le> 4" "xs \<noteq> ys"
    and "validate_frame \<lparr>f_header = h, f_payload = pre @ xs @ post\<rparr> = Inr ()"
  shows "validate_frame \<lparr>f_header = h, f_payload = pre @ ys @ post\<rparr> =
    Inl (make_error E_MalformedFrame ''payload checksum mismatch'')"
  using crc_compute_burst [OF assms(1-3), of pre post] assms
  by (auto simp: validate_frame_def Let_def fail_with_def split: if_splits)

section \<open>Properties\<close>

text \<open>
  C24: the header decoder accepts exactly the encodings of well-formed headers: 45 bytes that are the
  encoding of the returned header, with the protocol's magic number, a payload length of at most
  8 MiB and the checksum of the header with its checksum field zeroed. In particular it inverts the
  encoder and never accepts two headers for the same bytes.
\<close>

theorem decode_header_exact:
  "decode_header bs = Inr h \<longleftrightarrow>
     bs = encode_header h \<and> length bs = 45 \<and> sender_kind_ok (fh_sender_kind h) \<and> fh_magic h = kFrameMagic \<and>
     unat (fh_payload_length h) \<le> 8 * 1024 * 1024 \<and> fh_header_checksum h = crc_compute (zero_checksum bs)"
proof -
  have "fh_payload_length h \<le> kMaxFramePayload \<longleftrightarrow> unat (fh_payload_length h) \<le> 8 * 1024 * 1024"
    by (simp add: word_le_nat_alt kMaxFramePayload_def)
  moreover have "bs = encode_header h \<longrightarrow> length bs = 45"
    by (simp add: kHeaderSize_def)
  ultimately show ?thesis unfolding decode_header_iff by auto
qed

text \<open>
  A frame built by \<open>make_frame\<close> passes every check of the receiving side exactly when its payload
  is at most 8 MiB: the header decodes to the header that was encoded and the frame validates. A
  larger payload, even one whose length does not fit in 32 bits, is rejected by \<open>validate_frame\<close>.
\<close>

theorem frame_accepted_iff_fits:
  assumes "sender_kind_ok sk"
  shows "(validate_frame (make_frame mt sk sid rid payload) = Inr () \<longleftrightarrow> length payload \<le> 8 * 1024 * 1024) \<and>
    (length payload \<le> 8 * 1024 * 1024 \<longrightarrow>
      decode_header (encode_header (f_header (make_frame mt sk sid rid payload))) =
        Inr (f_header (make_frame mt sk sid rid payload)))"
  using make_frame_valid make_frame_header [OF assms] by (simp add: max_payload_nat)

theorem frame_accepted_iff_fits_witness:
  "validate_frame (make_frame 10 SK_Client id_zero 7 [1, 2, 3]) = Inr () \<and>
   decode_header (encode_header (f_header (make_frame 10 SK_Client id_zero 7 [1, 2, 3]))) =
     Inr (f_header (make_frame 10 SK_Client id_zero 7 [1, 2, 3]))"
proof -
  have "sender_kind_ok SK_Client" "length [1, 2, 3 :: byte] \<le> 8 * 1024 * 1024" by simp_all
  then show ?thesis using frame_accepted_iff_fits [of SK_Client 10 id_zero 7 "[1, 2, 3]"] by blast
qed

text \<open>
  C33: corruption in transit is detected. If an accepted header is changed within at most four
  consecutive bytes of its checksummed part, or anywhere in its checksum, the changed header is
  rejected; if the payload of a valid frame is changed within at most four consecutive bytes, the
  frame is rejected with a checksum error.
\<close>

theorem corruption_detected:
  assumes "length xs = length ys" "length xs \<le> 4" "xs \<noteq> ys"
  shows "(length chk = 4 \<and> decode_header (pre @ xs @ post @ chk) = Inr h \<longrightarrow>
            (\<forall>h'. decode_header (pre @ ys @ post @ chk) \<noteq> Inr h')) \<and>
         (length xs = 4 \<and> decode_header (pre @ xs) = Inr h \<longrightarrow> (\<forall>h'. decode_header (pre @ ys) \<noteq> Inr h')) \<and>
         (validate_frame \<lparr>f_header = h, f_payload = pre @ xs @ post\<rparr> = Inr () \<longrightarrow>
            validate_frame \<lparr>f_header = h, f_payload = pre @ ys @ post\<rparr> =
              Inl (make_error E_MalformedFrame ''payload checksum mismatch''))"
  using header_burst_rejected [OF assms] header_checksum_changed_rejected [of xs ys pre h]
    payload_burst_rejected [OF assms] assms
  by (intro conjI impI allI) (elim conjE, simp)+

definition sample_header :: FrameHeader where
  "sample_header = f_header (make_frame 34 SK_Node id_zero 7 [1, 2, 3])"

theorem corruption_detected_witness:
  "validate_frame \<lparr>f_header = sample_header, f_payload = [1] @ [9, 8] @ []\<rparr> =
     Inl (make_error E_MalformedFrame ''payload checksum mismatch'')"
proof -
  have "validate_frame \<lparr>f_header = sample_header, f_payload = [1] @ [2, 3] @ []\<rparr> = Inr ()"
    using make_frame_valid [of 34 SK_Node id_zero 7 "[1, 2, 3]"]
    by (simp add: sample_header_def max_payload_nat make_frame_def Let_def)
  then show ?thesis
    using corruption_detected [of "[2, 3]" "[9, 8]" "[]" "[1]" "[]" sample_header] by simp
qed

end
