(* ===== verification/Store.thy ===== *)
theory Store
  imports Serialize Frame
begin

text \<open>
  The durable store (\<open>persist/store.h\<close>, \<open>persist/store.cpp\<close>): a file holding a checksummed body of
  checksummed records. \<open>store_bytes\<close> is what \<open>Store::save\<close> writes and \<open>load_bytes\<close> what
  \<open>Store::load\<close> makes of a file's contents. The file system is the content of the store file and of
  its staging file; how far a write gets is an argument.
\<close>

record StoredPlacement =
  sp_task_id :: ComputeTaskId
  sp_sequence :: u64
  sp_decision :: PlacementDecision

record DurableState =
  ds_epoch :: CoordinatorEpoch
  ds_workloads :: "(WorkloadId, Workload) omap"
  ds_tasks :: "(ComputeTaskId, ComputeTask) omap"
  ds_task_states :: "(ComputeTaskId, TaskState) omap"
  ds_attempts :: "(ComputeTaskId, ExecutionAttempt list) omap"
  ds_retry_counts :: "(ComputeTaskId, u32) omap"
  ds_placements :: "StoredPlacement list"

definition default_durable :: DurableState where
  "default_durable = \<lparr>ds_epoch = 1, ds_workloads = [], ds_tasks = [], ds_task_states = [], ds_attempts = [],
     ds_retry_counts = [], ds_placements = []\<rparr>"

definition kStoreMagic :: u32 where "kStoreMagic = 0x43464653"
definition kFormatVersion :: u32 where "kFormatVersion = 1"
definition kMaxFileSize :: u64 where "kMaxFileSize = push_bit 20 256"

definition kRecEpoch :: u8 where "kRecEpoch = 1"
definition kRecWorkload :: u8 where "kRecWorkload = 2"
definition kRecTask :: u8 where "kRecTask = 3"
definition kRecTaskState :: u8 where "kRecTaskState = 4"
definition kRecAttempt :: u8 where "kRecAttempt = 5"
definition kRecRetryCount :: u8 where "kRecRetryCount = 6"
definition kRecPlacement :: u8 where "kRecPlacement = 7"

record StoreRecord =
  sr_tag :: u8
  sr_payload :: "byte list"

section \<open>Saving\<close>

definition put_record :: "StoreRecord \<Rightarrow> byte list" where
  "put_record rec =
     put_u8 (sr_tag rec) @ put_u32 (of_nat (length (sr_payload rec))) @
     put_u32 (crc_compute (sr_payload rec)) @ put_bytes (sr_payload rec)"

definition epoch_record :: "CoordinatorEpoch \<Rightarrow> StoreRecord" where
  "epoch_record e = \<lparr>sr_tag = kRecEpoch, sr_payload = put_u64 e\<rparr>"

definition workload_record :: "Workload \<Rightarrow> StoreRecord" where
  "workload_record wl = \<lparr>sr_tag = kRecWorkload, sr_payload = serialize_workload wl\<rparr>"

definition task_record :: "ComputeTask \<Rightarrow> StoreRecord" where
  "task_record t = \<lparr>sr_tag = kRecTask, sr_payload = serialize_task t\<rparr>"

definition task_state_record :: "ComputeTaskId \<times> TaskState \<Rightarrow> StoreRecord" where
  "task_state_record e =
     \<lparr>sr_tag = kRecTaskState, sr_payload = put_id (fst e) @ put_u8 (task_state_to_u8 (snd e))\<rparr>"

definition attempt_record :: "ExecutionAttempt \<Rightarrow> StoreRecord" where
  "attempt_record a = \<lparr>sr_tag = kRecAttempt, sr_payload = serialize_attempt a\<rparr>"

definition retry_count_record :: "ComputeTaskId \<times> u32 \<Rightarrow> StoreRecord" where
  "retry_count_record e = \<lparr>sr_tag = kRecRetryCount, sr_payload = put_id (fst e) @ put_u32 (snd e)\<rparr>"

definition placement_record :: "StoredPlacement \<Rightarrow> StoreRecord" where
  "placement_record sp =
     \<lparr>sr_tag = kRecPlacement,
      sr_payload = put_id (sp_task_id sp) @ put_u64 (sp_sequence sp) @ serialize_placement (sp_decision sp)\<rparr>"

definition state_records :: "DurableState \<Rightarrow> StoreRecord list" where
  "state_records st =
     [epoch_record (ds_epoch st)] @ map (workload_record \<circ> snd) (ds_workloads st) @
     map (task_record \<circ> snd) (ds_tasks st) @ map task_state_record (ds_task_states st) @
     concat (map (map attempt_record \<circ> snd) (ds_attempts st)) @
     map retry_count_record (ds_retry_counts st) @ map placement_record (ds_placements st)"

definition record_count :: "DurableState \<Rightarrow> u32" where
  "record_count st =
     1 + of_nat (length (ds_workloads st)) + of_nat (length (ds_tasks st)) + of_nat (length (ds_task_states st)) +
     foldl (\<lambda>n e. n + of_nat (length (snd e))) 0 (ds_attempts st) +
     of_nat (length (ds_retry_counts st)) + of_nat (length (ds_placements st))"

definition store_body :: "DurableState \<Rightarrow> byte list" where
  "store_body st = put_u32 (record_count st) @ concat (map put_record (state_records st))"

definition store_bytes :: "DurableState \<Rightarrow> byte list" where
  "store_bytes st =
     (let body = store_body st in
      put_u32 kStoreMagic @ put_u32 kFormatVersion @ put_u64 (of_nat (length body)) @
      put_u32 (crc_compute body) @ put_bytes body)"

section \<open>Loading\<close>

definition corrupt :: "string \<Rightarrow> Error" where
  "corrupt what = make_error E_CorruptionDetected what"

definition sneed :: "string \<Rightarrow> 'a rd \<Rightarrow> 'a parser" where
  "sneed what rd r = (case rd r of (None, r') \<Rightarrow> (Inl (corrupt what), r') | (Some v, r') \<Rightarrow> (Inr v, r'))"

text \<open>
  The copy of a record's payload: refused when fewer bytes remain than the record claims, otherwise
  the next \<open>plen\<close> bytes, over which the reader is moved.
\<close>

definition record_body :: "u32 \<Rightarrow> byte list rd" where
  "record_body plen r =
     (if remaining r < unat plen then (None, r)
      else (Some (take (unat plen) (drop (rd_pos r) (rd_data r))), snd (rd_skip (unat plen) r)))"

definition read_record :: "StoreRecord parser" where
  "read_record =
     pbind (sneed ''record tag truncated'' read_u8) (\<lambda>tag.
     pbind (sneed ''record length invalid'' (rd_if (\<lambda>n. ucast n \<le> kMaxFileSize) read_u32)) (\<lambda>plen.
     pbind (sneed ''record crc truncated'' read_u32) (\<lambda>pcrc.
     pbind (sneed ''record body truncated'' (record_body plen)) (\<lambda>payload.
       if crc_compute payload \<noteq> pcrc then pfail (corrupt ''record payload checksum mismatch'')
       else preturn \<lparr>sr_tag = tag, sr_payload = payload\<rparr>))))"

definition apply_record :: "StoreRecord \<Rightarrow> DurableState \<Rightarrow> DurableState result" where
  "apply_record rec st =
     (let er = reader_of (sr_payload rec) in
      if sr_tag rec = kRecEpoch then
        (case read_u64 er of (None, _) \<Rightarrow> Inl (corrupt ''epoch record malformed'')
         | (Some e, _) \<Rightarrow> Inr (st\<lparr>ds_epoch := e\<rparr>))
      else if sr_tag rec = kRecWorkload then
        (case fst (deserialize_workload er) of Inl _ \<Rightarrow> Inl (corrupt ''bad workload record'')
         | Inr wl \<Rightarrow> Inr (st\<lparr>ds_workloads := omap_put (wl_id wl) wl (ds_workloads st)\<rparr>))
      else if sr_tag rec = kRecTask then
        (case fst (deserialize_task er) of Inl _ \<Rightarrow> Inl (corrupt ''bad task record'')
         | Inr t \<Rightarrow> Inr (st\<lparr>ds_tasks := omap_put (t_id t) t (ds_tasks st)\<rparr>))
      else if sr_tag rec = kRecTaskState then
        (case fst (read_both read_id read_u8 er) of None \<Rightarrow> Inl (corrupt ''bad task state record'')
         | Some e \<Rightarrow> Inr (st\<lparr>ds_task_states := omap_put (fst e) (task_state_of_u8 (snd e)) (ds_task_states st)\<rparr>))
      else if sr_tag rec = kRecAttempt then
        (case fst (deserialize_attempt er) of Inl _ \<Rightarrow> Inl (corrupt ''bad attempt record'')
         | Inr a \<Rightarrow> Inr (if a_committed a
             then st\<lparr>ds_attempts := omap_put (a_task_id a) (omap_get_or [] (ds_attempts st) (a_task_id a) @ [a]) (ds_attempts st)\<rparr>
             else st))
      else if sr_tag rec = kRecRetryCount then
        (case fst (read_both read_id read_u32 er) of None \<Rightarrow> Inl (corrupt ''bad retry record'')
         | Some e \<Rightarrow> Inr (st\<lparr>ds_retry_counts := omap_put (fst e) (snd e) (ds_retry_counts st)\<rparr>))
      else if sr_tag rec = kRecPlacement then
        (case read_both read_id read_u64 er of (None, _) \<Rightarrow> Inl (corrupt ''bad placement record'')
         | (Some e, er') \<Rightarrow>
             (case fst (deserialize_placement er') of Inl _ \<Rightarrow> Inl (corrupt ''bad placement record'')
              | Inr d \<Rightarrow> Inr (st\<lparr>ds_placements := ds_placements st @
                  [\<lparr>sp_task_id = fst e, sp_sequence = snd e, sp_decision = d\<rparr>]\<rparr>)))
      else Inl (corrupt ''unknown record tag''))"

fun apply_records :: "StoreRecord list \<Rightarrow> DurableState \<Rightarrow> DurableState result" where
  "apply_records [] st = Inr st"
| "apply_records (rec # recs) st =
     (case apply_record rec st of Inl e \<Rightarrow> Inl e | Inr st' \<Rightarrow> apply_records recs st')"

definition load_body :: "byte list \<Rightarrow> DurableState result" where
  "load_body body =
     (case fst (pbind (sneed ''store record count invalid'' (rd_if (\<lambda>n. n \<le> push_bit 20 1) read_u32))
        (\<lambda>n. ploop (unat n) read_record) (reader_of body)) of
        Inl e \<Rightarrow> Inl e
      | Inr recs \<Rightarrow> apply_records recs default_durable)"

definition load_bytes :: "byte list \<Rightarrow> DurableState result" where
  "load_bytes bs =
     (if length bs < 4 + 4 + 8 + 4 then Inl (corrupt ''store file too small'')
      else if unat kMaxFileSize < length bs then Inl (corrupt ''store file exceeds size bound'')
      else case read_both read_u32 (read_both read_u32 (read_both read_u64 read_u32)) (reader_of bs) of
        (None, _) \<Rightarrow> Inl (corrupt ''store header truncated'')
      | (Some (magic, version, body_size, body_crc), r) \<Rightarrow>
          if magic \<noteq> kStoreMagic then Inl (corrupt ''store magic mismatch'')
          else if version \<noteq> kFormatVersion
            then fail_with E_PersistenceError ''store format version unsupported''
          else if remaining r \<noteq> unat body_size then Inl (corrupt ''store body size mismatch (truncated)'')
          else if crc_compute (take (unat body_size) (drop (rd_pos r) bs)) \<noteq> body_crc
            then Inl (corrupt ''store body checksum mismatch'')
          else load_body (take (unat body_size) (drop (rd_pos r) bs)))"

section \<open>The file\<close>

record FileSystem =
  fs_file :: "byte list option"
  fs_tmp :: "byte list option"

text \<open>
  How far a write gets: the staging file cannot be opened, only a prefix of the data reaches it, it
  cannot be renamed, or everything succeeds. A crash in the middle leaves the same files behind.
\<close>

datatype write_outcome = WO_OpenFails | WO_WriteFails nat | WO_RenameFails | WO_Ok

definition write_file_atomic :: "write_outcome \<Rightarrow> byte list \<Rightarrow> FileSystem \<Rightarrow> bool \<times> FileSystem" where
  "write_file_atomic out bs fs =
     (case out of
        WO_OpenFails \<Rightarrow> (False, fs)
      | WO_WriteFails n \<Rightarrow> (False, fs\<lparr>fs_tmp := Some (take n bs)\<rparr>)
      | WO_RenameFails \<Rightarrow> (False, fs\<lparr>fs_tmp := Some bs\<rparr>)
      | WO_Ok \<Rightarrow> (True, fs\<lparr>fs_tmp := None, fs_file := Some bs\<rparr>))"

definition store_load :: "string \<Rightarrow> FileSystem \<Rightarrow> DurableState result" where
  "store_load path fs =
     (case fs_file fs of
        None \<Rightarrow> fail_with E_IoError (''cannot read store file: '' @ path)
      | Some bs \<Rightarrow> load_bytes bs)"

definition store_save :: "string \<Rightarrow> write_outcome \<Rightarrow> DurableState \<Rightarrow> FileSystem \<Rightarrow> unit result \<times> FileSystem" where
  "store_save path out st fs =
     (case write_file_atomic out (store_bytes st) fs of
        (False, fs') \<Rightarrow> (fail_with E_IoError (''failed to write store file: '' @ path), fs')
      | (True, fs') \<Rightarrow> (Inr (), fs'))"

definition store_open :: "string \<Rightarrow> bool \<Rightarrow> bool \<Rightarrow> write_outcome \<Rightarrow> FileSystem \<Rightarrow> string result \<times> FileSystem" where
  "store_open dir create_if_missing mkdir_ok out fs =
     (let file = dir @ ''/coordinator.store'' in
      if \<not> mkdir_ok then (fail_with E_IoError (''cannot create store directory: '' @ dir), fs)
      else if fs_file fs \<noteq> None then (Inr file, fs)
      else if \<not> create_if_missing then (fail_with E_IoError (''store does not exist: '' @ file), fs)
      else case store_save file out default_durable fs of
        (Inl e, fs') \<Rightarrow> (Inl e, fs')
      | (Inr _, fs') \<Rightarrow> (Inr file, fs'))"

section \<open>Reading records back\<close>

lemma parses_sneed: "reads p bs x \<Longrightarrow> parses (sneed what p) bs x"
  by (auto simp: reads_def parses_def sneed_def)

lemma reads_record_body:
  assumes "unat plen = length bs"
  shows "reads (record_body plen) bs bs"
  using assms by (simp add: reads_def record_body_def remaining_def rd_skip_def read_block_def)

lemma max_file_nat: "unat kMaxFileSize = 268435456"
  by (simp add: kMaxFileSize_def)

lemma unat_payload: "n \<le> unat kMaxFileSize \<Longrightarrow> unat (of_nat n :: u32) = n"
  by (simp add: max_file_nat unat_of_nat)

lemma parses_record:
  assumes "length (sr_payload rec) \<le> unat kMaxFileSize"
  shows "parses read_record (put_record rec) rec"
proof -
  let ?n = "of_nat (length (sr_payload rec)) :: u32"
  have n: "unat ?n = length (sr_payload rec)" by (rule unat_payload [OF assms])
  have "(ucast ?n :: u64) \<le> kMaxFileSize"
    using assms n by (simp add: word_le_nat_alt unsigned_ucast_eq take_bit_eq_mod)
  then show ?thesis
    unfolding read_record_def put_record_def put_bytes_def
    by (intro parses_bind [OF parses_sneed [OF reads_u8]] parses_bind [OF parses_sneed [OF reads_if [OF reads_u32]]]
        parses_bind [OF parses_sneed [OF reads_u32]] parses_tail [OF parses_sneed [OF reads_record_body [OF n]]])
      (auto intro!: parses_end)
qed

lemma length_attempt_records: "foldl (\<lambda>n e. n + of_nat (length (snd e))) (of_nat k :: u32) m =
    of_nat (k + length (concat (map (map attempt_record \<circ> snd) m)))"
  by (induction m arbitrary: k) (auto simp: add.assoc simp flip: of_nat_add)

lemma record_count_eq: "record_count st = of_nat (length (state_records st))"
  using length_attempt_records [of 0 "ds_attempts st"]
  by (simp add: record_count_def state_records_def)

lemma apply_records_append:
  "apply_records (xs @ ys) st = (case apply_records xs st of Inl e \<Rightarrow> Inl e | Inr st' \<Rightarrow> apply_records ys st')"
  by (induction xs arbitrary: st) (auto split: sum.splits)

lemma read_from_start: "reads rd bs x \<Longrightarrow> rd (reader_of bs) = (Some x, \<lparr>rd_data = bs, rd_pos = length bs\<rparr>)"
  unfolding reads_def reader_of_def by (metis append_Nil append_Nil2 list.size(3) add_0)

lemma parse_from_start: "parses p bs x \<Longrightarrow> fst (p (reader_of bs)) = Inr x"
  unfolding parses_def reader_of_def by (metis append_Nil append_Nil2 list.size(3) fst_conv)

lemmas record_tags = kRecEpoch_def kRecWorkload_def kRecTask_def kRecTaskState_def kRecAttempt_def
  kRecRetryCount_def kRecPlacement_def

lemma apply_epoch: "apply_record (epoch_record e) st = Inr (st\<lparr>ds_epoch := e\<rparr>)"
  by (simp add: apply_record_def epoch_record_def record_tags read_from_start [OF reads_u64])

lemma apply_workload:
  "workload_fits w \<Longrightarrow> apply_record (workload_record w) st = Inr (st\<lparr>ds_workloads := omap_put (wl_id w) w (ds_workloads st)\<rparr>)"
  by (simp add: apply_record_def workload_record_def record_tags parse_from_start [OF parses_workload])

lemma apply_task:
  "task_fits t \<Longrightarrow> apply_record (task_record t) st = Inr (st\<lparr>ds_tasks := omap_put (t_id t) t (ds_tasks st)\<rparr>)"
  by (simp add: apply_record_def task_record_def record_tags parse_from_start [OF parses_task])

lemma apply_task_state:
  "task_state_ok (snd e) \<Longrightarrow>
   apply_record (task_state_record e) st = Inr (st\<lparr>ds_task_states := omap_put (fst e) (snd e) (ds_task_states st)\<rparr>)"
  by (simp add: apply_record_def task_state_record_def record_tags enum_simps
      read_from_start [OF reads_both [OF reads_id reads_u8]])

lemma apply_attempt:
  "attempt_fits a \<Longrightarrow> a_committed a \<Longrightarrow> apply_record (attempt_record a) st =
     Inr (st\<lparr>ds_attempts := omap_put (a_task_id a) (omap_get_or [] (ds_attempts st) (a_task_id a) @ [a]) (ds_attempts st)\<rparr>)"
  by (simp add: apply_record_def attempt_record_def record_tags parse_from_start [OF parses_attempt])

lemma apply_retry_count:
  "apply_record (retry_count_record e) st = Inr (st\<lparr>ds_retry_counts := omap_put (fst e) (snd e) (ds_retry_counts st)\<rparr>)"
  by (simp add: apply_record_def retry_count_record_def record_tags
      read_from_start [OF reads_both [OF reads_id reads_u32]])

lemma apply_placement:
  assumes "placement_fits (sp_decision sp)"
  shows "apply_record (placement_record sp) st = Inr (st\<lparr>ds_placements := ds_placements st @ [sp]\<rparr>)"
proof -
  let ?hd = "put_id (sp_task_id sp) @ put_u64 (sp_sequence sp)" and ?tl = "serialize_placement (sp_decision sp)"
  have "reads (read_both read_id read_u64) ?hd (sp_task_id sp, sp_sequence sp)"
    by (intro reads_both codec_intros)
  then have rd: "read_both read_id read_u64 (reader_of (?hd @ ?tl)) =
      (Some (sp_task_id sp, sp_sequence sp), \<lparr>rd_data = ?hd @ ?tl, rd_pos = length ?hd\<rparr>)"
    unfolding reads_def reader_of_def by (metis append_Nil list.size(3) add_0)
  have "fst (deserialize_placement \<lparr>rd_data = ?hd @ ?tl @ [], rd_pos = length ?hd\<rparr>) = Inr (sp_decision sp)"
    using parses_placement [OF assms] unfolding parses_def by (metis fst_conv)
  then show ?thesis
    using rd by (cases sp) (simp add: apply_record_def placement_record_def record_tags)
qed

section \<open>States that survive a restart\<close>

definition keyed :: "('v \<Rightarrow> 'k) \<Rightarrow> ('v \<Rightarrow> bool) \<Rightarrow> ('k::linorder, 'v) omap \<Rightarrow> bool" where
  "keyed key P m = (omap_ok m \<and> list_all (\<lambda>e. fst e = key (snd e) \<and> P (snd e)) m)"

definition storable :: "DurableState \<Rightarrow> bool" where
  "storable st =
     (keyed wl_id workload_fits (ds_workloads st) \<and> keyed t_id task_fits (ds_tasks st) \<and>
      omap_ok (ds_task_states st) \<and> list_all (task_state_ok \<circ> snd) (ds_task_states st) \<and>
      omap_ok (ds_attempts st) \<and>
      list_all (\<lambda>e. snd e \<noteq> [] \<and> list_all (\<lambda>a. a_task_id a = fst e \<and> a_committed a \<and> attempt_fits a) (snd e)) (ds_attempts st) \<and>
      omap_ok (ds_retry_counts st) \<and> list_all (placement_fits \<circ> sp_decision) (ds_placements st) \<and>
      length (state_records st) \<le> 2 ^ 20 \<and> length (store_bytes st) \<le> 2 ^ 28)"

lemma fold_keyed:
  assumes "keyed key P m"
  shows "fold (\<lambda>v m. omap_put (key v) v m) (map snd m) [] = m"
proof -
  have "fold (\<lambda>v m. omap_put (key v) v m) (map snd xs) a = foldl (\<lambda>m kv. omap_put (fst kv) (snd kv) m) a xs"
    if "list_all (\<lambda>e. fst e = key (snd e) \<and> P (snd e)) xs" for a xs
    using that by (induction xs arbitrary: a) auto
  then show ?thesis
    using assms omap_of_entries_id [of m] by (simp add: keyed_def omap_of_entries_def)
qed

lemma fold_entries: "omap_ok m \<Longrightarrow> fold (\<lambda>e m. omap_put (fst e) (snd e) m) m [] = m"
  using omap_of_entries_id [of m] by (simp add: omap_of_entries_def foldl_conv_fold)

definition push_attempt :: "ExecutionAttempt \<Rightarrow> (ComputeTaskId, ExecutionAttempt list) omap \<Rightarrow>
    (ComputeTaskId, ExecutionAttempt list) omap" where
  "push_attempt a m = omap_put (a_task_id a) (omap_get_or [] m (a_task_id a) @ [a]) m"

lemma fold_push_one:
  "as \<noteq> [] \<Longrightarrow> omap_ok m \<Longrightarrow> list_all (\<lambda>a. a_task_id a = k) as \<Longrightarrow>
   fold push_attempt as m = omap_put k (omap_get_or [] m k @ as) m"
proof (induction as arbitrary: m)
  case (Cons a as)
  then show ?case by (cases "as = []") (auto simp: push_attempt_def om.put_twice)
qed simp

lemma fold_push_all:
  assumes "omap_ok (acc @ m)"
    "list_all (\<lambda>e. snd e \<noteq> [] \<and> list_all (\<lambda>a. a_task_id a = fst e) (snd e)) m"
    "omap_ok a" "\<forall>k \<in> fst ` set m. \<not> omap_has a k"
  shows "fold push_attempt (concat (map snd m)) a = foldl (\<lambda>m kv. omap_put (fst kv) (snd kv) m) a m"
  using assms
proof (induction m arbitrary: a acc)
  case (Cons e m)
  obtain k as where e: "e = (k, as)" by fastforce
  have "fold push_attempt as a = omap_put k as a"
    using fold_push_one [of as a k] Cons.prems e by (simp add: omap_get_or_absent)
  moreover have "k \<notin> fst ` set m" using Cons.prems(1) e by (auto simp: omap_ok_def sorted_wrt_append)
  ultimately show ?case
    using Cons.IH [of "acc @ [e]" "omap_put k as a"] Cons.prems e by auto
qed simp

lemma fold_push_attempts:
  assumes "omap_ok m" "list_all (\<lambda>e. snd e \<noteq> [] \<and> list_all (\<lambda>a. a_task_id a = fst e) (snd e)) m"
  shows "fold push_attempt (concat (map snd m)) [] = m"
  using fold_push_all [of "[]" m "[]"] assms omap_of_entries_id [of m]
  by (simp add: omap_of_entries_def omap_has_def)

lemma apply_workloads:
  "list_all workload_fits ws \<Longrightarrow> apply_records (map workload_record ws) d =
     Inr (d\<lparr>ds_workloads := fold (\<lambda>w m. omap_put (wl_id w) w m) ws (ds_workloads d)\<rparr>)"
  by (induction ws arbitrary: d) (simp_all add: apply_workload)

lemma apply_tasks:
  "list_all task_fits ts \<Longrightarrow> apply_records (map task_record ts) d =
     Inr (d\<lparr>ds_tasks := fold (\<lambda>t m. omap_put (t_id t) t m) ts (ds_tasks d)\<rparr>)"
  by (induction ts arbitrary: d) (simp_all add: apply_task)

lemma apply_task_states:
  "list_all (task_state_ok \<circ> snd) es \<Longrightarrow> apply_records (map task_state_record es) d =
     Inr (d\<lparr>ds_task_states := fold (\<lambda>e m. omap_put (fst e) (snd e) m) es (ds_task_states d)\<rparr>)"
  by (induction es arbitrary: d) (simp_all add: apply_task_state)

lemma apply_attempts:
  "list_all (\<lambda>a. attempt_fits a \<and> a_committed a) as \<Longrightarrow> apply_records (map attempt_record as) d =
     Inr (d\<lparr>ds_attempts := fold push_attempt as (ds_attempts d)\<rparr>)"
  by (induction as arbitrary: d) (simp_all add: apply_attempt push_attempt_def)

lemma apply_retry_counts:
  "apply_records (map retry_count_record es) d =
     Inr (d\<lparr>ds_retry_counts := fold (\<lambda>e m. omap_put (fst e) (snd e) m) es (ds_retry_counts d)\<rparr>)"
  by (induction es arbitrary: d) (simp_all add: apply_retry_count)

lemma apply_placements:
  "list_all (placement_fits \<circ> sp_decision) sps \<Longrightarrow> apply_records (map placement_record sps) d =
     Inr (d\<lparr>ds_placements := ds_placements d @ sps\<rparr>)"
  by (induction sps arbitrary: d) (simp_all add: apply_placement)

lemma state_records_eq:
  "state_records st = [epoch_record (ds_epoch st)] @ map workload_record (map snd (ds_workloads st)) @
     map task_record (map snd (ds_tasks st)) @ map task_state_record (ds_task_states st) @
     map attempt_record (concat (map snd (ds_attempts st))) @
     map retry_count_record (ds_retry_counts st) @ map placement_record (ds_placements st)"
  by (simp add: state_records_def map_concat o_def)

lemma storable_parts:
  assumes "storable st"
  shows "list_all workload_fits (map snd (ds_workloads st))" "list_all task_fits (map snd (ds_tasks st))"
    "list_all (task_state_ok \<circ> snd) (ds_task_states st)"
    "list_all (\<lambda>a. attempt_fits a \<and> a_committed a) (concat (map snd (ds_attempts st)))"
    "list_all (placement_fits \<circ> sp_decision) (ds_placements st)"
  using assms by (auto simp: storable_def keyed_def list_all_iff)

lemma storable_folds:
  assumes "storable st"
  shows "fold (\<lambda>w m. omap_put (wl_id w) w m) (map snd (ds_workloads st)) [] = ds_workloads st"
    "fold (\<lambda>t m. omap_put (t_id t) t m) (map snd (ds_tasks st)) [] = ds_tasks st"
    "fold (\<lambda>e m. omap_put (fst e) (snd e) m) (ds_task_states st) [] = ds_task_states st"
    "fold push_attempt (concat (map snd (ds_attempts st))) [] = ds_attempts st"
    "fold (\<lambda>e m. omap_put (fst e) (snd e) m) (ds_retry_counts st) [] = ds_retry_counts st"
proof -
  show "fold push_attempt (concat (map snd (ds_attempts st))) [] = ds_attempts st"
    by (rule fold_push_attempts) (use assms in \<open>auto simp: storable_def list_all_iff\<close>)
qed (use assms fold_keyed fold_entries in \<open>auto simp: storable_def simp del: fold_map\<close>)

lemma apply_state_records:
  assumes "storable st"
  shows "apply_records (state_records st) default_durable = Inr st"
  unfolding state_records_eq default_durable_def
  by (simp add: apply_records_append apply_epoch apply_workloads apply_tasks apply_task_states apply_attempts
      apply_retry_counts apply_placements storable_parts [OF assms] storable_folds [OF assms] del: map_map fold_map
      map_concat)

lemma record_in_body:
  assumes "rec \<in> set (state_records st)"
  shows "length (sr_payload rec) \<le> length (store_bytes st)"
proof -
  have "length (put_record rec) \<le> sum_list (map (length \<circ> put_record) (state_records st))"
    using assms by (intro member_le_sum_list) auto
  then show ?thesis
    by (simp add: store_bytes_def store_body_def Let_def put_bytes_def length_concat put_record_def o_def)
qed

lemma load_store_body:
  assumes "storable st"
  shows "load_body (store_body st) = Inr st"
proof -
  let ?recs = "state_records st"
  have len: "length ?recs \<le> 2 ^ 20" and size: "length (store_bytes st) \<le> 2 ^ 28"
    using assms by (auto simp: storable_def)
  have n: "unat (of_nat (length ?recs) :: u32) = length ?recs" using len by (simp add: unat_of_nat)
  have "parses (pbind (sneed ''store record count invalid'' (rd_if (\<lambda>n. n \<le> push_bit 20 1) read_u32))
      (\<lambda>n. ploop (unat n) read_record)) (put_u32 (of_nat (length ?recs)) @ concat (map put_record ?recs)) ?recs"
  proof (rule parses_bind)
    show "parses (sneed ''store record count invalid'' (rd_if (\<lambda>n. n \<le> push_bit 20 1) read_u32))
        (put_u32 (of_nat (length ?recs))) (of_nat (length ?recs))"
      using len n by (intro parses_sneed reads_if reads_u32) (simp add: word_le_nat_alt)
    show "parses (ploop (unat (of_nat (length ?recs) :: u32)) read_record) (concat (map put_record ?recs)) ?recs"
      unfolding n
    proof (rule parses_ploop, rule parses_record)
      fix rec assume "rec \<in> set ?recs"
      then show "length (sr_payload rec) \<le> unat kMaxFileSize"
        using record_in_body size by (fastforce simp: max_file_nat)
    qed
  qed
  from parse_from_start [OF this] show ?thesis
    by (simp add: load_body_def store_body_def record_count_eq apply_state_records [OF assms])
qed

lemma load_file:
  assumes "n < 2 ^ 64"
  shows "load_bytes (put_u32 kStoreMagic @ put_u32 kFormatVersion @ put_u64 (of_nat n) @ put_u32 crc @ body) =
    (if unat kMaxFileSize < length body + 20 then Inl (corrupt ''store file exceeds size bound'')
     else if length body \<noteq> n then Inl (corrupt ''store body size mismatch (truncated)'')
     else if crc_compute body \<noteq> crc then Inl (corrupt ''store body checksum mismatch'')
     else load_body body)"
proof -
  let ?h = "put_u32 kStoreMagic @ put_u32 kFormatVersion @ put_u64 (of_nat n) @ put_u32 crc"
  have "reads (read_both read_u32 (read_both read_u32 (read_both read_u64 read_u32))) ?h
      (kStoreMagic, kFormatVersion, of_nat n, crc)"
    by (intro reads_both codec_intros)
  then have rd: "read_both read_u32 (read_both read_u32 (read_both read_u64 read_u32)) (reader_of (?h @ body)) =
      (Some (kStoreMagic, kFormatVersion, of_nat n, crc), \<lparr>rd_data = ?h @ body, rd_pos = length ?h\<rparr>)"
    unfolding reads_def reader_of_def by (metis append_Nil list.size(3) add_0)
  have n: "unat (of_nat n :: u64) = n" using assms by (simp add: unat_of_nat)
  show ?thesis
    using rd n by (simp add: load_bytes_def remaining_def)
qed

lemma store_bytes_eq:
  "store_bytes st = put_u32 kStoreMagic @ put_u32 kFormatVersion @ put_u64 (of_nat (length (store_body st))) @
     put_u32 (crc_compute (store_body st)) @ store_body st"
  by (simp add: store_bytes_def Let_def put_bytes_def)

lemma length_store_bytes: "length (store_bytes st) = length (store_body st) + 20"
  by (simp add: store_bytes_eq)

lemma storable_size: "storable st \<Longrightarrow> length (store_body st) + 20 \<le> unat kMaxFileSize"
  using length_store_bytes [of st] by (simp add: storable_def max_file_nat)

lemma load_store_bytes:
  assumes "storable st"
  shows "load_bytes (store_bytes st) = Inr st"
  using load_file [of "length (store_body st)" "crc_compute (store_body st)" "store_body st"]
    storable_size [OF assms] load_store_body [OF assms]
  by (simp add: store_bytes_eq max_file_nat)

lemma load_prefix:
  assumes "storable st" "k < length (store_bytes st)"
  shows "\<exists>m. load_bytes (take k (store_bytes st)) = Inl (corrupt m)"
proof (cases "k < 20")
  case True
  then show ?thesis using assms(2) by (auto simp: load_bytes_def)
next
  case False
  let ?body = "take (k - 20) (store_body st)"
  have "take k (store_bytes st) = put_u32 kStoreMagic @ put_u32 kFormatVersion @
      put_u64 (of_nat (length (store_body st))) @ put_u32 (crc_compute (store_body st)) @ ?body"
    using False by (simp add: store_bytes_eq)
  moreover have "length ?body \<noteq> length (store_body st)"
    using assms(2) False by (simp add: length_store_bytes)
  moreover have "length (store_body st) < 2 ^ 64" "length ?body + 20 \<le> unat kMaxFileSize"
    using storable_size [OF assms(1)] by (auto simp: max_file_nat)
  ultimately show ?thesis
    using load_file [of "length (store_body st)" "crc_compute (store_body st)" ?body] by auto
qed

lemma load_body_burst:
  assumes "storable st" "store_body st = pre @ xs @ post"
    and "length xs = length ys" "length xs \<le> 4" "xs \<noteq> ys"
  shows "load_bytes (take 20 (store_bytes st) @ pre @ ys @ post) = Inl (corrupt ''store body checksum mismatch'')"
proof -
  have len: "length (pre @ ys @ post) = length (store_body st)" using assms(2,3) by simp
  have "take 20 (store_bytes st) @ pre @ ys @ post = put_u32 kStoreMagic @ put_u32 kFormatVersion @
      put_u64 (of_nat (length (store_body st))) @ put_u32 (crc_compute (store_body st)) @ pre @ ys @ post"
    by (simp add: store_bytes_eq)
  moreover have "length (store_body st) < 2 ^ 64" "\<not> unat kMaxFileSize < length (pre @ ys @ post) + 20"
    using storable_size [OF assms(1)] len by (auto simp: max_file_nat)
  moreover have "crc_compute (pre @ ys @ post) \<noteq> crc_compute (store_body st)"
    using crc_compute_burst [OF assms(3-5), of pre post] assms(2) by simp
  ultimately show ?thesis
    using load_file [of "length (store_body st)" "crc_compute (store_body st)" "pre @ ys @ post"] len by simp
qed

section \<open>Properties\<close>


definition sample_durable :: DurableState where
  "sample_durable = default_durable\<lparr>ds_epoch := 4, ds_retry_counts := [(Id128 0 1, 2)],
     ds_task_states := [(Id128 0 1, TS_Running)]\<rparr>"

lemma sample_durable_storable: "storable sample_durable"
  by (simp add: storable_def sample_durable_def default_durable_def keyed_def state_records_def
      length_store_bytes store_body_def put_record_def put_bytes_def epoch_record_def task_state_record_def
      retry_count_record_def put_id_def omap_ok_Cons)






end
