(* ===== verification/Messages.thy ===== *)
theory Messages
  imports Serialize Frame
begin

text \<open>
  Control messages (\<open>protocol/messages.h\<close>, \<open>protocol/messages.cpp\<close>): the message numbers, one
  record per message, and for each the encoder and the decoder in the order of the source. The
  overloads of \<open>serialize\<close> carry the name of their message. Every pair is a \<open>codec\<close>.
\<close>

section \<open>Message numbers\<close>

definition kHello :: u16 where "kHello = 1"

definition kNodeRegister :: u16 where "kNodeRegister = 2"

definition kNodeRegisterAck :: u16 where "kNodeRegisterAck = 3"

definition kNodeHeartbeat :: u16 where "kNodeHeartbeat = 4"

definition kNodeHeartbeatAck :: u16 where "kNodeHeartbeatAck = 5"

definition kNodeShutdown :: u16 where "kNodeShutdown = 6"

definition kNodeShutdownAck :: u16 where "kNodeShutdownAck = 7"

definition kTaskSubmit :: u16 where "kTaskSubmit = 10"

definition kTaskSubmitResponse :: u16 where "kTaskSubmitResponse = 11"

definition kTaskInspect :: u16 where "kTaskInspect = 12"

definition kTaskInspectResponse :: u16 where "kTaskInspectResponse = 13"

definition kTaskList :: u16 where "kTaskList = 14"

definition kTaskListResponse :: u16 where "kTaskListResponse = 15"

definition kTaskCancel :: u16 where "kTaskCancel = 16"

definition kTaskCancelResponse :: u16 where "kTaskCancelResponse = 17"

definition kWorkloadInspect :: u16 where "kWorkloadInspect = 18"

definition kWorkloadInspectResponse :: u16 where "kWorkloadInspectResponse = 19"

definition kFabricStatus :: u16 where "kFabricStatus = 20"

definition kFabricStatusResponse :: u16 where "kFabricStatusResponse = 21"

definition kPlacementQuery :: u16 where "kPlacementQuery = 22"

definition kPlacementResponse :: u16 where "kPlacementResponse = 23"

definition kNodeList :: u16 where "kNodeList = 24"

definition kNodeListResponse :: u16 where "kNodeListResponse = 25"

definition kNodeDrain :: u16 where "kNodeDrain = 26"

definition kNodeDrainResponse :: u16 where "kNodeDrainResponse = 27"

definition kCoordinatorShutdown :: u16 where "kCoordinatorShutdown = 28"

definition kCoordinatorShutdownResponse :: u16 where "kCoordinatorShutdownResponse = 29"

definition kDispatchAttempt :: u16 where "kDispatchAttempt = 30"

definition kDispatchAck :: u16 where "kDispatchAck = 31"

definition kAttemptStarted :: u16 where "kAttemptStarted = 32"

definition kAttemptProgress :: u16 where "kAttemptProgress = 33"

definition kAttemptComplete :: u16 where "kAttemptComplete = 34"

definition kAttemptCompleteAck :: u16 where "kAttemptCompleteAck = 35"

definition kAttemptFailed :: u16 where "kAttemptFailed = 36"

definition kAttemptFailedAck :: u16 where "kAttemptFailedAck = 37"

definition kAttemptCancelled :: u16 where "kAttemptCancelled = 38"

definition kAttemptCancel :: u16 where "kAttemptCancel = 39"

definition kAttemptCancelAck :: u16 where "kAttemptCancelAck = 40"

definition kReservationGrant :: u16 where "kReservationGrant = 41"

definition kReservationRelease :: u16 where "kReservationRelease = 42"

definition kReservationReleaseAck :: u16 where "kReservationReleaseAck = 43"

definition kErrorResponse :: u16 where "kErrorResponse = 999"

definition message_type_name :: "u16 \<Rightarrow> string" where
  "message_type_name t =
     (case find (\<lambda>e. fst e = t)
       [(kHello, ''hello''),
        (kNodeRegister, ''node_register''),
        (kNodeRegisterAck, ''node_register_ack''),
        (kNodeHeartbeat, ''node_heartbeat''),
        (kNodeHeartbeatAck, ''node_heartbeat_ack''),
        (kNodeShutdown, ''node_shutdown''),
        (kNodeShutdownAck, ''node_shutdown_ack''),
        (kTaskSubmit, ''task_submit''),
        (kTaskSubmitResponse, ''task_submit_response''),
        (kTaskInspect, ''task_inspect''),
        (kTaskInspectResponse, ''task_inspect_response''),
        (kTaskList, ''task_list''),
        (kTaskListResponse, ''task_list_response''),
        (kTaskCancel, ''task_cancel''),
        (kTaskCancelResponse, ''task_cancel_response''),
        (kWorkloadInspect, ''workload_inspect''),
        (kWorkloadInspectResponse, ''workload_inspect_response''),
        (kFabricStatus, ''fabric_status''),
        (kFabricStatusResponse, ''fabric_status_response''),
        (kPlacementQuery, ''placement_query''),
        (kPlacementResponse, ''placement_response''),
        (kNodeList, ''node_list''),
        (kNodeListResponse, ''node_list_response''),
        (kNodeDrain, ''node_drain''),
        (kNodeDrainResponse, ''node_drain_response''),
        (kCoordinatorShutdown, ''coordinator_shutdown''),
        (kCoordinatorShutdownResponse, ''coordinator_shutdown_response''),
        (kDispatchAttempt, ''dispatch_attempt''),
        (kDispatchAck, ''dispatch_ack''),
        (kAttemptStarted, ''attempt_started''),
        (kAttemptProgress, ''attempt_progress''),
        (kAttemptComplete, ''attempt_complete''),
        (kAttemptCompleteAck, ''attempt_complete_ack''),
        (kAttemptFailed, ''attempt_failed''),
        (kAttemptFailedAck, ''attempt_failed_ack''),
        (kAttemptCancelled, ''attempt_cancelled''),
        (kAttemptCancel, ''attempt_cancel''),
        (kAttemptCancelAck, ''attempt_cancel_ack''),
        (kReservationGrant, ''reservation_grant''),
        (kReservationRelease, ''reservation_release''),
        (kReservationReleaseAck, ''reservation_release_ack''),
        (kErrorResponse, ''error_response'')] of
        Some e \<Rightarrow> snd e | None \<Rightarrow> ''unknown'')"

section \<open>Message structures\<close>

record Hello =
  hello_protocol_version :: u16
  hello_role :: string

record NodeRegister =
  nr_node_id :: NodeId
  nr_label :: string
  nr_address :: string
  nr_capacity :: NodeCapacity

record NodeRegisterAck =
  nra_node_id :: NodeId
  nra_session_id :: NodeSessionId
  nra_coordinator_epoch :: CoordinatorEpoch
  nra_session_epoch :: SessionEpoch
  nra_error :: string

record ExecutorRuntimeSnapshot =
  ers_name :: string
  ers_active :: u32

record NodeHeartbeat =
  nhb_node_id :: NodeId
  nhb_session_id :: NodeSessionId
  nhb_session_epoch :: SessionEpoch
  nhb_coordinator_epoch :: CoordinatorEpoch
  nhb_active_cpu_slots :: u32
  nhb_active_gpu_slots :: u32
  nhb_executors :: "ExecutorRuntimeSnapshot list"

record NodeHeartbeatAck =
  nha_accepted :: bool
  nha_error :: string

record NodeShutdown =
  nsd_node_id :: NodeId
  nsd_session_id :: NodeSessionId

record NodeShutdownAck =
  nsa_accepted :: bool

record TaskSubmit =
  tsu_workload_id :: WorkloadId
  tsu_workload_name :: string
  tsu_task :: ComputeTask

record TaskSubmitResponse =
  tsr_accepted :: bool
  tsr_task_id :: ComputeTaskId
  tsr_error :: string

record TaskInspect =
  tin_task_id :: ComputeTaskId

record TaskInspectResponse =
  tir_found :: bool
  tir_task_id :: ComputeTaskId
  tir_name :: string
  tir_task_class :: TaskClass
  tir_state :: TaskState
  tir_error :: string
  tir_attempts :: "ExecutionAttempt list"
  tir_retry_count :: u32
  tir_workload_id_hex :: string

record TaskList =
  tl_filter_state :: string

record TaskListEntry =
  tle_task_id :: ComputeTaskId
  tle_name :: string
  tle_state :: TaskState
  tle_task_class :: TaskClass
  tle_priority :: Priority

record TaskListResponse =
  tlr_tasks :: "TaskListEntry list"

record TaskCancel =
  tca_task_id :: ComputeTaskId

record TaskCancelResponse =
  tcr_found :: bool
  tcr_cancelled :: bool
  tcr_error :: string

record WorkloadInspect =
  wi_workload_id :: WorkloadId

record WorkloadInspectResponse =
  wir_found :: bool
  wir_workload_id :: WorkloadId
  wir_name :: string
  wir_tasks :: "TaskListEntry list"
  wir_error :: string

record FabricStatus =
  fst_detail :: string

record NodeStatusEntry =
  nse_node_id :: NodeId
  nse_label :: string
  nse_address :: string
  nse_health :: NodeHealth
  nse_connected :: bool
  nse_cpu_slots :: u32
  nse_cpu_used :: u32
  nse_session_epoch :: SessionEpoch
  nse_executors :: "string list"

record FabricStatusResponse =
  fsr_coordinator_epoch :: CoordinatorEpoch
  fsr_policy :: string
  fsr_node_count :: u32
  fsr_task_count :: u32
  fsr_running_count :: u32
  fsr_reserved_count :: u32
  fsr_completed_count :: u32
  fsr_nodes :: "NodeStatusEntry list"
  fsr_error :: string

record PlacementQuery =
  plq_task :: ComputeTask

record PlacementResponse =
  plr_found :: bool
  plr_decision :: PlacementDecision
  plr_error :: string

datatype NodeList = NodeList

record NodeListResponse =
  nlr_nodes :: "NodeStatusEntry list"

record NodeDrain =
  ndr_node_id :: NodeId
  ndr_drain :: bool

record NodeDrainResponse =
  ndrr_found :: bool
  ndrr_accepted :: bool
  ndrr_error :: string

datatype CoordinatorShutdown = CoordinatorShutdown

record CoordinatorShutdownResponse =
  csr_accepted :: bool
  csr_error :: string

record DispatchAttempt =
  dpa_task :: ComputeTask
  dpa_attempt_id :: ExecutionAttemptId
  dpa_reservation_id :: ReservationId
  dpa_coordinator_epoch :: CoordinatorEpoch
  dpa_attempt_number :: u32

record DispatchAck =
  dpk_attempt_id :: ExecutionAttemptId
  dpk_accepted :: bool
  dpk_error :: string

record AttemptStarted =
  ats_attempt_id :: ExecutionAttemptId
  ats_started_at_ms :: i64
  ats_device :: string

record AttemptProgress =
  atp_attempt_id :: ExecutionAttemptId
  atp_percent :: u32

record AttemptComplete =
  atc_attempt_id :: ExecutionAttemptId
  atc_task_id :: ComputeTaskId
  atc_reservation_id :: ReservationId
  atc_coordinator_epoch :: CoordinatorEpoch
  atc_result_code :: u8
  atc_output_size :: u64
  atc_output_integrity :: string
  atc_duration_ms :: double
  atc_cpu_millis :: double
  atc_bytes_transferred :: u64
  atc_device :: string
  atc_notes :: "string list"

record AttemptFailed =
  atf_attempt_id :: ExecutionAttemptId
  atf_task_id :: ComputeTaskId
  atf_reservation_id :: ReservationId
  atf_coordinator_epoch :: CoordinatorEpoch
  atf_failure_kind :: u8
  atf_failure_reason :: string
  atf_duration_ms :: double

record AttemptCancelled =
  atx_attempt_id :: ExecutionAttemptId
  atx_task_id :: ComputeTaskId
  atx_reservation_id :: ReservationId
  atx_coordinator_epoch :: CoordinatorEpoch
  atx_reason :: string

record AttemptCancel =
  atk_attempt_id :: ExecutionAttemptId
  atk_reason :: string

record AttemptCancelAck =
  atka_attempt_id :: ExecutionAttemptId
  atka_accepted :: bool

record AttemptAck =
  ata_attempt_id :: ExecutionAttemptId
  ata_accepted :: bool
  ata_error :: string

record ReservationGrant =
  rsg_reservation_id :: ReservationId
  rsg_task_id :: ComputeTaskId
  rsg_executor :: ExecutorType
  rsg_slots :: u32

record ReservationRelease =
  rsr_reservation_id :: ReservationId
  rsr_task_id :: ComputeTaskId
  rsr_node_id :: NodeId
  rsr_session_id :: NodeSessionId
  rsr_coordinator_epoch :: CoordinatorEpoch

record ReservationReleaseAck =
  rsra_reservation_id :: ReservationId
  rsra_accepted :: bool
  rsra_error :: string

record ErrorResponse =
  err_for_message_type :: u16
  err_error :: string

section \<open>Encoders and decoders\<close>

definition serialize_hello :: "Hello \<Rightarrow> byte list" where
  "serialize_hello m =
     put_u16 (hello_protocol_version m) @
     put_string (hello_role m)"

definition deserialize_hello :: "Hello parser" where
  "deserialize_hello =
     pbind (need ''hello version'' read_u16) (\<lambda>protocol_version.
     pbind (need ''hello role'' (read_string kMaxString)) (\<lambda>role.
       preturn \<lparr>hello_protocol_version = protocol_version, hello_role = role\<rparr>))"

definition hello_fits :: "Hello \<Rightarrow> bool" where
  "hello_fits m = (str_fits (hello_role m))"

definition serialize_executor_cap :: "ExecutorCapability \<Rightarrow> byte list" where
  "serialize_executor_cap c =
     put_u8 (executor_type_to_u8 (ec_type c)) @
     put_string (ec_name c) @
     put_i32 (ec_slots c) @
     put_i32 (ec_major c) @
     put_i32 (ec_minor c) @
     put_string (ec_vendor c) @
     put_string (ec_architecture c) @
     put_string (ec_device_name c) @
     put_u64 (ec_device_memory_bytes c) @
     put_list put_i32 (ec_device_ids c) @
     put_f64 (ec_relative_speed c) @
     put_bool (ec_healthy c) @
     put_bool (ec_supports_preemption c)"

definition deserialize_executor_cap :: "ExecutorCapability parser" where
  "deserialize_executor_cap =
     pbind (need ''executor type'' read_u8) (\<lambda>t.
     pbind (need ''executor name'' (read_string kMaxString)) (\<lambda>name.
     pbind (need ''executor slots'' read_i32) (\<lambda>slots.
     pbind (need ''executor major'' read_i32) (\<lambda>major.
     pbind (need ''executor minor'' read_i32) (\<lambda>minor.
     pbind (need ''executor vendor'' (read_string kMaxString)) (\<lambda>vendor.
     pbind (need ''executor arch'' (read_string kMaxString)) (\<lambda>architecture.
     pbind (need ''executor device'' (read_string kMaxString)) (\<lambda>device_name.
     pbind (need ''executor mem'' read_u64) (\<lambda>device_memory_bytes.
     pbind (get_list ''executor device count'' (need ''executor device id'' read_i32)) (\<lambda>device_ids.
     pbind (need ''executor speed'' read_f64) (\<lambda>relative_speed.
     pbind (need ''executor healthy'' read_bool) (\<lambda>healthy.
     pbind (need ''executor preempt'' read_bool) (\<lambda>supports_preemption.
       preturn \<lparr>ec_type = executor_type_of_u8 t, ec_name = name, ec_slots = slots, ec_major = major,
         ec_minor = minor, ec_vendor = vendor, ec_architecture = architecture, ec_device_name = device_name,
         ec_device_memory_bytes = device_memory_bytes, ec_device_ids = device_ids,
         ec_relative_speed = relative_speed, ec_healthy = healthy,
         ec_supports_preemption = supports_preemption\<rparr>)))))))))))))"

definition executor_cap_fits :: "ExecutorCapability \<Rightarrow> bool" where
  "executor_cap_fits c = (executor_type_ok (ec_type c) \<and>
     str_fits (ec_name c) \<and>
     str_fits (ec_vendor c) \<and>
     str_fits (ec_architecture c) \<and>
     str_fits (ec_device_name c) \<and>
     list_fits (\<lambda>_. True) (ec_device_ids c))"

definition serialize_capacity :: "NodeCapacity \<Rightarrow> byte list" where
  "serialize_capacity c =
     put_i32 (nc_cpu_worker_slots c) @
     put_u64 (nc_host_memory_scheduling_bytes c) @
     put_list serialize_executor_cap (nc_executors c) @
     put_map (nc_tags c) @
     put_string (nc_address c) @
     put_string (nc_label c)"

definition deserialize_capacity :: "NodeCapacity parser" where
  "deserialize_capacity =
     pbind (need ''capacity cpu slots'' read_i32) (\<lambda>cpu_worker_slots.
     pbind (need ''capacity mem'' read_u64) (\<lambda>host_memory_scheduling_bytes.
     pbind (get_list ''capacity executors'' deserialize_executor_cap) (\<lambda>executors.
     pbind (get_map ''capacity tags'' ''capacity tag'') (\<lambda>tags.
     pbind (need ''capacity address'' (read_string kMaxString)) (\<lambda>address.
     pbind (need ''capacity label'' (read_string kMaxString)) (\<lambda>label.
       preturn \<lparr>nc_cpu_worker_slots = cpu_worker_slots,
         nc_host_memory_scheduling_bytes = host_memory_scheduling_bytes, nc_executors = executors,
         nc_tags = tags, nc_address = address, nc_label = label\<rparr>))))))"

definition capacity_fits :: "NodeCapacity \<Rightarrow> bool" where
  "capacity_fits c = (list_fits executor_cap_fits (nc_executors c) \<and>
     map_fits (nc_tags c) \<and>
     str_fits (nc_address c) \<and>
     str_fits (nc_label c))"

definition serialize_node_register :: "NodeRegister \<Rightarrow> byte list" where
  "serialize_node_register m =
     put_id (nr_node_id m) @
     put_string (nr_label m) @
     put_string (nr_address m) @
     serialize_capacity (nr_capacity m)"

definition deserialize_node_register :: "NodeRegister parser" where
  "deserialize_node_register =
     pbind (need ''register node id'' read_id) (\<lambda>node_id.
     pbind (need ''register label'' (read_string kMaxString)) (\<lambda>label.
     pbind (need ''register address'' (read_string kMaxString)) (\<lambda>address.
     pbind (deserialize_capacity) (\<lambda>capacity.
       preturn \<lparr>nr_node_id = node_id, nr_label = label, nr_address = address, nr_capacity = capacity\<rparr>))))"

definition node_register_fits :: "NodeRegister \<Rightarrow> bool" where
  "node_register_fits m = (str_fits (nr_label m) \<and>
     str_fits (nr_address m) \<and>
     capacity_fits (nr_capacity m))"

definition serialize_node_register_ack :: "NodeRegisterAck \<Rightarrow> byte list" where
  "serialize_node_register_ack m =
     put_id (nra_node_id m) @
     put_id (nra_session_id m) @
     put_u64 (nra_coordinator_epoch m) @
     put_u64 (nra_session_epoch m) @
     put_string (nra_error m)"

definition deserialize_node_register_ack :: "NodeRegisterAck parser" where
  "deserialize_node_register_ack =
     pbind (need ''ack node id'' read_id) (\<lambda>node_id.
     pbind (need ''ack session id'' read_id) (\<lambda>session_id.
     pbind (need ''ack epoch'' read_u64) (\<lambda>coordinator_epoch.
     pbind (need ''ack session epoch'' read_u64) (\<lambda>session_epoch.
     pbind (need ''ack error'' (read_string kMaxString)) (\<lambda>error.
       preturn \<lparr>nra_node_id = node_id, nra_session_id = session_id,
         nra_coordinator_epoch = coordinator_epoch, nra_session_epoch = session_epoch,
         nra_error = error\<rparr>)))))"

definition node_register_ack_fits :: "NodeRegisterAck \<Rightarrow> bool" where
  "node_register_ack_fits m = (str_fits (nra_error m))"

definition serialize_executor_snapshot :: "ExecutorRuntimeSnapshot \<Rightarrow> byte list" where
  "serialize_executor_snapshot m =
     put_string (ers_name m) @
     put_u32 (ers_active m)"

definition deserialize_executor_snapshot :: "ExecutorRuntimeSnapshot parser" where
  "deserialize_executor_snapshot =
     pbind (need ''hb exec name'' (read_string kMaxString)) (\<lambda>name.
     pbind (need ''hb exec active'' read_u32) (\<lambda>active.
       preturn \<lparr>ers_name = name, ers_active = active\<rparr>))"

definition executor_snapshot_fits :: "ExecutorRuntimeSnapshot \<Rightarrow> bool" where
  "executor_snapshot_fits m = (str_fits (ers_name m))"

definition serialize_node_heartbeat :: "NodeHeartbeat \<Rightarrow> byte list" where
  "serialize_node_heartbeat m =
     put_id (nhb_node_id m) @
     put_id (nhb_session_id m) @
     put_u64 (nhb_session_epoch m) @
     put_u64 (nhb_coordinator_epoch m) @
     put_u32 (nhb_active_cpu_slots m) @
     put_u32 (nhb_active_gpu_slots m) @
     put_list serialize_executor_snapshot (nhb_executors m)"

definition deserialize_node_heartbeat :: "NodeHeartbeat parser" where
  "deserialize_node_heartbeat =
     pbind (need ''hb node id'' read_id) (\<lambda>node_id.
     pbind (need ''hb session id'' read_id) (\<lambda>session_id.
     pbind (need ''hb session epoch'' read_u64) (\<lambda>session_epoch.
     pbind (need ''hb epoch'' read_u64) (\<lambda>coordinator_epoch.
     pbind (need ''hb cpu'' read_u32) (\<lambda>active_cpu_slots.
     pbind (need ''hb gpu'' read_u32) (\<lambda>active_gpu_slots.
     pbind (get_list ''hb executors'' deserialize_executor_snapshot) (\<lambda>executors.
       preturn \<lparr>nhb_node_id = node_id, nhb_session_id = session_id, nhb_session_epoch = session_epoch,
         nhb_coordinator_epoch = coordinator_epoch, nhb_active_cpu_slots = active_cpu_slots,
         nhb_active_gpu_slots = active_gpu_slots, nhb_executors = executors\<rparr>)))))))"

definition node_heartbeat_fits :: "NodeHeartbeat \<Rightarrow> bool" where
  "node_heartbeat_fits m = (list_fits executor_snapshot_fits (nhb_executors m))"

definition serialize_node_heartbeat_ack :: "NodeHeartbeatAck \<Rightarrow> byte list" where
  "serialize_node_heartbeat_ack m =
     put_bool (nha_accepted m) @
     put_string (nha_error m)"

definition deserialize_node_heartbeat_ack :: "NodeHeartbeatAck parser" where
  "deserialize_node_heartbeat_ack =
     pbind (need ''hb ack accepted'' read_bool) (\<lambda>accepted.
     pbind (need ''hb ack error'' (read_string kMaxString)) (\<lambda>error.
       preturn \<lparr>nha_accepted = accepted, nha_error = error\<rparr>))"

definition node_heartbeat_ack_fits :: "NodeHeartbeatAck \<Rightarrow> bool" where
  "node_heartbeat_ack_fits m = (str_fits (nha_error m))"

definition serialize_node_shutdown :: "NodeShutdown \<Rightarrow> byte list" where
  "serialize_node_shutdown m =
     put_id (nsd_node_id m) @
     put_id (nsd_session_id m)"

definition deserialize_node_shutdown :: "NodeShutdown parser" where
  "deserialize_node_shutdown =
     pbind (need ''shutdown node id'' read_id) (\<lambda>node_id.
     pbind (need ''shutdown session id'' read_id) (\<lambda>session_id.
       preturn \<lparr>nsd_node_id = node_id, nsd_session_id = session_id\<rparr>))"

definition serialize_node_shutdown_ack :: "NodeShutdownAck \<Rightarrow> byte list" where
  "serialize_node_shutdown_ack m =
     put_bool (nsa_accepted m)"

definition deserialize_node_shutdown_ack :: "NodeShutdownAck parser" where
  "deserialize_node_shutdown_ack =
     pbind (need ''shutdown ack'' read_bool) (\<lambda>accepted.
       preturn \<lparr>nsa_accepted = accepted\<rparr>)"

definition serialize_task_submit :: "TaskSubmit \<Rightarrow> byte list" where
  "serialize_task_submit m =
     put_id (tsu_workload_id m) @
     put_string (tsu_workload_name m) @
     serialize_task (tsu_task m)"

definition deserialize_task_submit :: "TaskSubmit parser" where
  "deserialize_task_submit =
     pbind (need ''submit workload'' read_id) (\<lambda>workload_id.
     pbind (need ''submit workload name'' (read_string kMaxString)) (\<lambda>workload_name.
     pbind (deserialize_task) (\<lambda>task.
       preturn \<lparr>tsu_workload_id = workload_id, tsu_workload_name = workload_name, tsu_task = task\<rparr>)))"

definition task_submit_fits :: "TaskSubmit \<Rightarrow> bool" where
  "task_submit_fits m = (str_fits (tsu_workload_name m) \<and>
     task_fits (tsu_task m))"

definition serialize_task_submit_response :: "TaskSubmitResponse \<Rightarrow> byte list" where
  "serialize_task_submit_response m =
     put_bool (tsr_accepted m) @
     put_id (tsr_task_id m) @
     put_string (tsr_error m)"

definition deserialize_task_submit_response :: "TaskSubmitResponse parser" where
  "deserialize_task_submit_response =
     pbind (need ''submit resp accepted'' read_bool) (\<lambda>accepted.
     pbind (need ''submit resp task'' read_id) (\<lambda>task_id.
     pbind (need ''submit resp error'' (read_string kMaxString)) (\<lambda>error.
       preturn \<lparr>tsr_accepted = accepted, tsr_task_id = task_id, tsr_error = error\<rparr>)))"

definition task_submit_response_fits :: "TaskSubmitResponse \<Rightarrow> bool" where
  "task_submit_response_fits m = (str_fits (tsr_error m))"

definition serialize_task_inspect :: "TaskInspect \<Rightarrow> byte list" where
  "serialize_task_inspect m =
     put_id (tin_task_id m)"

definition deserialize_task_inspect :: "TaskInspect parser" where
  "deserialize_task_inspect =
     pbind (need ''inspect task id'' read_id) (\<lambda>task_id.
       preturn \<lparr>tin_task_id = task_id\<rparr>)"

definition serialize_task_inspect_response :: "TaskInspectResponse \<Rightarrow> byte list" where
  "serialize_task_inspect_response m =
     put_bool (tir_found m) @
     put_id (tir_task_id m) @
     put_string (tir_name m) @
     put_u8 (task_class_to_u8 (tir_task_class m)) @
     put_u8 (task_state_to_u8 (tir_state m)) @
     put_string (tir_error m) @
     put_list serialize_attempt (tir_attempts m) @
     put_u32 (tir_retry_count m) @
     put_string (tir_workload_id_hex m)"

definition deserialize_task_inspect_response :: "TaskInspectResponse parser" where
  "deserialize_task_inspect_response =
     pbind (need ''inspect found'' read_bool) (\<lambda>found.
     pbind (need ''inspect task id'' read_id) (\<lambda>task_id.
     pbind (need ''inspect name'' (read_string kMaxString)) (\<lambda>name.
     pbind (need ''inspect class'' read_u8) (\<lambda>tc.
     pbind (need ''inspect state'' read_u8) (\<lambda>st.
     pbind (need ''inspect error'' (read_string kMaxString)) (\<lambda>error.
     pbind (get_list ''inspect attempts'' deserialize_attempt) (\<lambda>attempts.
     pbind (need ''inspect retry'' read_u32) (\<lambda>retry_count.
     pbind (need ''inspect workload'' (read_string kMaxString)) (\<lambda>workload_id_hex.
       preturn \<lparr>tir_found = found, tir_task_id = task_id, tir_name = name,
         tir_task_class = task_class_of_u8 tc, tir_state = task_state_of_u8 st, tir_error = error,
         tir_attempts = attempts, tir_retry_count = retry_count,
         tir_workload_id_hex = workload_id_hex\<rparr>)))))))))"

definition task_inspect_response_fits :: "TaskInspectResponse \<Rightarrow> bool" where
  "task_inspect_response_fits m = (str_fits (tir_name m) \<and>
     task_class_ok (tir_task_class m) \<and>
     task_state_ok (tir_state m) \<and>
     str_fits (tir_error m) \<and>
     list_fits attempt_fits (tir_attempts m) \<and>
     str_fits (tir_workload_id_hex m))"

definition serialize_task_list :: "TaskList \<Rightarrow> byte list" where
  "serialize_task_list m =
     put_string (tl_filter_state m)"

definition deserialize_task_list :: "TaskList parser" where
  "deserialize_task_list =
     pbind (need ''task list filter'' (read_string kMaxString)) (\<lambda>filter_state.
       preturn \<lparr>tl_filter_state = filter_state\<rparr>)"

definition task_list_fits :: "TaskList \<Rightarrow> bool" where
  "task_list_fits m = (str_fits (tl_filter_state m))"

definition serialize_task_list_entry :: "TaskListEntry \<Rightarrow> byte list" where
  "serialize_task_list_entry m =
     put_id (tle_task_id m) @
     put_string (tle_name m) @
     put_u8 (task_state_to_u8 (tle_state m)) @
     put_u8 (task_class_to_u8 (tle_task_class m)) @
     put_u8 (priority_to_u8 (tle_priority m))"

definition deserialize_task_list_entry :: "TaskListEntry parser" where
  "deserialize_task_list_entry =
     pbind (need ''list entry id'' read_id) (\<lambda>task_id.
     pbind (need ''list entry name'' (read_string kMaxString)) (\<lambda>name.
     pbind (need ''list entry state'' (read_both read_u8 (read_both read_u8 read_u8))) (\<lambda>b3.
       preturn \<lparr>tle_task_id = task_id, tle_name = name, tle_state = task_state_of_u8 (fst b3),
         tle_task_class = task_class_of_u8 (fst (snd b3)),
         tle_priority = priority_of_u8 (snd (snd b3))\<rparr>)))"

definition task_list_entry_fits :: "TaskListEntry \<Rightarrow> bool" where
  "task_list_entry_fits m = (str_fits (tle_name m) \<and>
     task_state_ok (tle_state m) \<and>
     task_class_ok (tle_task_class m) \<and>
     priority_ok (tle_priority m))"

definition serialize_task_list_response :: "TaskListResponse \<Rightarrow> byte list" where
  "serialize_task_list_response m =
     put_list serialize_task_list_entry (tlr_tasks m)"

definition deserialize_task_list_response :: "TaskListResponse parser" where
  "deserialize_task_list_response =
     pbind (get_list ''list resp count'' deserialize_task_list_entry) (\<lambda>tasks.
       preturn \<lparr>tlr_tasks = tasks\<rparr>)"

definition task_list_response_fits :: "TaskListResponse \<Rightarrow> bool" where
  "task_list_response_fits m = (list_fits task_list_entry_fits (tlr_tasks m))"

definition serialize_task_cancel :: "TaskCancel \<Rightarrow> byte list" where
  "serialize_task_cancel m =
     put_id (tca_task_id m)"

definition deserialize_task_cancel :: "TaskCancel parser" where
  "deserialize_task_cancel =
     pbind (need ''cancel task id'' read_id) (\<lambda>task_id.
       preturn \<lparr>tca_task_id = task_id\<rparr>)"

definition serialize_task_cancel_response :: "TaskCancelResponse \<Rightarrow> byte list" where
  "serialize_task_cancel_response m =
     put_bool (tcr_found m) @
     put_bool (tcr_cancelled m) @
     put_string (tcr_error m)"

definition deserialize_task_cancel_response :: "TaskCancelResponse parser" where
  "deserialize_task_cancel_response =
     pbind (need ''cancel found'' read_bool) (\<lambda>found.
     pbind (need ''cancel flag'' read_bool) (\<lambda>cancelled.
     pbind (need ''cancel error'' (read_string kMaxString)) (\<lambda>error.
       preturn \<lparr>tcr_found = found, tcr_cancelled = cancelled, tcr_error = error\<rparr>)))"

definition task_cancel_response_fits :: "TaskCancelResponse \<Rightarrow> bool" where
  "task_cancel_response_fits m = (str_fits (tcr_error m))"

definition serialize_workload_inspect :: "WorkloadInspect \<Rightarrow> byte list" where
  "serialize_workload_inspect m =
     put_id (wi_workload_id m)"

definition deserialize_workload_inspect :: "WorkloadInspect parser" where
  "deserialize_workload_inspect =
     pbind (need ''workload inspect id'' read_id) (\<lambda>workload_id.
       preturn \<lparr>wi_workload_id = workload_id\<rparr>)"

definition serialize_workload_inspect_response :: "WorkloadInspectResponse \<Rightarrow> byte list" where
  "serialize_workload_inspect_response m =
     put_bool (wir_found m) @
     put_id (wir_workload_id m) @
     put_string (wir_name m) @
     put_list serialize_task_list_entry (wir_tasks m) @
     put_string (wir_error m)"

definition deserialize_workload_inspect_response :: "WorkloadInspectResponse parser" where
  "deserialize_workload_inspect_response =
     pbind (need ''workload found'' read_bool) (\<lambda>found.
     pbind (need ''workload id'' read_id) (\<lambda>workload_id.
     pbind (need ''workload name'' (read_string kMaxString)) (\<lambda>name.
     pbind (get_list ''workload tasks'' deserialize_task_list_entry) (\<lambda>tasks.
     pbind (need ''workload error'' (read_string kMaxString)) (\<lambda>error.
       preturn \<lparr>wir_found = found, wir_workload_id = workload_id, wir_name = name, wir_tasks = tasks,
         wir_error = error\<rparr>)))))"

definition workload_inspect_response_fits :: "WorkloadInspectResponse \<Rightarrow> bool" where
  "workload_inspect_response_fits m = (str_fits (wir_name m) \<and>
     list_fits task_list_entry_fits (wir_tasks m) \<and>
     str_fits (wir_error m))"

definition serialize_fabric_status :: "FabricStatus \<Rightarrow> byte list" where
  "serialize_fabric_status m =
     put_string (fst_detail m)"

definition deserialize_fabric_status :: "FabricStatus parser" where
  "deserialize_fabric_status =
     pbind (need ''fabric detail'' (read_string kMaxString)) (\<lambda>detail.
       preturn \<lparr>fst_detail = detail\<rparr>)"

definition fabric_status_fits :: "FabricStatus \<Rightarrow> bool" where
  "fabric_status_fits m = (str_fits (fst_detail m))"

definition serialize_node_status_entry :: "NodeStatusEntry \<Rightarrow> byte list" where
  "serialize_node_status_entry m =
     put_id (nse_node_id m) @
     put_string (nse_label m) @
     put_string (nse_address m) @
     put_u8 (node_health_to_u8 (nse_health m)) @
     put_bool (nse_connected m) @
     put_u32 (nse_cpu_slots m) @
     put_u32 (nse_cpu_used m) @
     put_u64 (nse_session_epoch m) @
     put_list put_string (nse_executors m)"

definition deserialize_node_status_entry :: "NodeStatusEntry parser" where
  "deserialize_node_status_entry =
     pbind (need ''node status id'' read_id) (\<lambda>node_id.
     pbind (need ''node status label'' (read_string kMaxString)) (\<lambda>label.
     pbind (need ''node status address'' (read_string kMaxString)) (\<lambda>address.
     pbind (need ''node status health'' read_u8) (\<lambda>h.
     pbind (need ''node status connected'' read_bool) (\<lambda>connected.
     pbind (need ''node status cpu slots'' read_u32) (\<lambda>cpu_slots.
     pbind (need ''node status cpu used'' read_u32) (\<lambda>cpu_used.
     pbind (need ''node status session epoch'' read_u64) (\<lambda>session_epoch.
     pbind (get_list ''node status executors'' (need ''node status executor'' (read_string kMaxString))) (\<lambda>executors.
       preturn \<lparr>nse_node_id = node_id, nse_label = label, nse_address = address,
         nse_health = node_health_of_u8 h, nse_connected = connected, nse_cpu_slots = cpu_slots,
         nse_cpu_used = cpu_used, nse_session_epoch = session_epoch, nse_executors = executors\<rparr>)))))))))"

definition node_status_entry_fits :: "NodeStatusEntry \<Rightarrow> bool" where
  "node_status_entry_fits m = (str_fits (nse_label m) \<and>
     str_fits (nse_address m) \<and>
     node_health_ok (nse_health m) \<and>
     list_fits str_fits (nse_executors m))"

definition serialize_fabric_status_response :: "FabricStatusResponse \<Rightarrow> byte list" where
  "serialize_fabric_status_response m =
     put_u64 (fsr_coordinator_epoch m) @
     put_string (fsr_policy m) @
     put_u32 (fsr_node_count m) @
     put_u32 (fsr_task_count m) @
     put_u32 (fsr_running_count m) @
     put_u32 (fsr_reserved_count m) @
     put_u32 (fsr_completed_count m) @
     put_list serialize_node_status_entry (fsr_nodes m) @
     put_string (fsr_error m)"

definition deserialize_fabric_status_response :: "FabricStatusResponse parser" where
  "deserialize_fabric_status_response =
     pbind (need ''status epoch'' read_u64) (\<lambda>coordinator_epoch.
     pbind (need ''status policy'' (read_string kMaxString)) (\<lambda>policy.
     pbind (need ''status nodes'' read_u32) (\<lambda>node_count.
     pbind (need ''status tasks'' read_u32) (\<lambda>task_count.
     pbind (need ''status running'' read_u32) (\<lambda>running_count.
     pbind (need ''status reserved'' read_u32) (\<lambda>reserved_count.
     pbind (need ''status completed'' read_u32) (\<lambda>completed_count.
     pbind (get_list ''status node list'' deserialize_node_status_entry) (\<lambda>nodes.
     pbind (need ''status error'' (read_string kMaxString)) (\<lambda>error.
       preturn \<lparr>fsr_coordinator_epoch = coordinator_epoch, fsr_policy = policy,
         fsr_node_count = node_count, fsr_task_count = task_count, fsr_running_count = running_count,
         fsr_reserved_count = reserved_count, fsr_completed_count = completed_count, fsr_nodes = nodes,
         fsr_error = error\<rparr>)))))))))"

definition fabric_status_response_fits :: "FabricStatusResponse \<Rightarrow> bool" where
  "fabric_status_response_fits m = (str_fits (fsr_policy m) \<and>
     list_fits node_status_entry_fits (fsr_nodes m) \<and>
     str_fits (fsr_error m))"

definition serialize_placement_query :: "PlacementQuery \<Rightarrow> byte list" where
  "serialize_placement_query m =
     serialize_task (plq_task m)"

definition deserialize_placement_query :: "PlacementQuery parser" where
  "deserialize_placement_query =
     pbind (deserialize_task) (\<lambda>task.
       preturn \<lparr>plq_task = task\<rparr>)"

definition placement_query_fits :: "PlacementQuery \<Rightarrow> bool" where
  "placement_query_fits m = (task_fits (plq_task m))"

definition serialize_placement_response :: "PlacementResponse \<Rightarrow> byte list" where
  "serialize_placement_response m =
     put_bool (plr_found m) @
     serialize_placement (plr_decision m) @
     put_string (plr_error m)"

definition deserialize_placement_response :: "PlacementResponse parser" where
  "deserialize_placement_response =
     pbind (need ''placement found'' read_bool) (\<lambda>found.
     pbind (deserialize_placement) (\<lambda>decision.
     pbind (need ''placement error'' (read_string kMaxString)) (\<lambda>error.
       preturn \<lparr>plr_found = found, plr_decision = decision, plr_error = error\<rparr>)))"

definition placement_response_fits :: "PlacementResponse \<Rightarrow> bool" where
  "placement_response_fits m = (placement_fits (plr_decision m) \<and>
     str_fits (plr_error m))"

definition serialize_node_list :: "NodeList \<Rightarrow> byte list" where
  "serialize_node_list m = []"

definition deserialize_node_list :: "NodeList parser" where
  "deserialize_node_list = preturn NodeList"

definition serialize_node_list_response :: "NodeListResponse \<Rightarrow> byte list" where
  "serialize_node_list_response m =
     put_list serialize_node_status_entry (nlr_nodes m)"

definition deserialize_node_list_response :: "NodeListResponse parser" where
  "deserialize_node_list_response =
     pbind (get_list ''node list count'' deserialize_node_status_entry) (\<lambda>nodes.
       preturn \<lparr>nlr_nodes = nodes\<rparr>)"

definition node_list_response_fits :: "NodeListResponse \<Rightarrow> bool" where
  "node_list_response_fits m = (list_fits node_status_entry_fits (nlr_nodes m))"

definition serialize_node_drain :: "NodeDrain \<Rightarrow> byte list" where
  "serialize_node_drain m =
     put_id (ndr_node_id m) @
     put_bool (ndr_drain m)"

definition deserialize_node_drain :: "NodeDrain parser" where
  "deserialize_node_drain =
     pbind (need ''drain node id'' read_id) (\<lambda>node_id.
     pbind (need ''drain flag'' read_bool) (\<lambda>drain.
       preturn \<lparr>ndr_node_id = node_id, ndr_drain = drain\<rparr>))"

definition serialize_node_drain_response :: "NodeDrainResponse \<Rightarrow> byte list" where
  "serialize_node_drain_response m =
     put_bool (ndrr_found m) @
     put_bool (ndrr_accepted m) @
     put_string (ndrr_error m)"

definition deserialize_node_drain_response :: "NodeDrainResponse parser" where
  "deserialize_node_drain_response =
     pbind (need ''drain found'' read_bool) (\<lambda>found.
     pbind (need ''drain accepted'' read_bool) (\<lambda>accepted.
     pbind (need ''drain error'' (read_string kMaxString)) (\<lambda>error.
       preturn \<lparr>ndrr_found = found, ndrr_accepted = accepted, ndrr_error = error\<rparr>)))"

definition node_drain_response_fits :: "NodeDrainResponse \<Rightarrow> bool" where
  "node_drain_response_fits m = (str_fits (ndrr_error m))"

definition serialize_coordinator_shutdown :: "CoordinatorShutdown \<Rightarrow> byte list" where
  "serialize_coordinator_shutdown m = []"

definition deserialize_coordinator_shutdown :: "CoordinatorShutdown parser" where
  "deserialize_coordinator_shutdown = preturn CoordinatorShutdown"

definition serialize_coordinator_shutdown_response :: "CoordinatorShutdownResponse \<Rightarrow> byte list" where
  "serialize_coordinator_shutdown_response m =
     put_bool (csr_accepted m) @
     put_string (csr_error m)"

definition deserialize_coordinator_shutdown_response :: "CoordinatorShutdownResponse parser" where
  "deserialize_coordinator_shutdown_response =
     pbind (need ''cood shutdown accepted'' read_bool) (\<lambda>accepted.
     pbind (need ''coor shutdown error'' (read_string kMaxString)) (\<lambda>error.
       preturn \<lparr>csr_accepted = accepted, csr_error = error\<rparr>))"

definition coordinator_shutdown_response_fits :: "CoordinatorShutdownResponse \<Rightarrow> bool" where
  "coordinator_shutdown_response_fits m = (str_fits (csr_error m))"

definition serialize_dispatch_attempt :: "DispatchAttempt \<Rightarrow> byte list" where
  "serialize_dispatch_attempt m =
     serialize_task (dpa_task m) @
     put_id (dpa_attempt_id m) @
     put_id (dpa_reservation_id m) @
     put_u64 (dpa_coordinator_epoch m) @
     put_u32 (dpa_attempt_number m)"

definition deserialize_dispatch_attempt :: "DispatchAttempt parser" where
  "deserialize_dispatch_attempt =
     pbind (deserialize_task) (\<lambda>task.
     pbind (need ''dispatch attempt id'' read_id) (\<lambda>attempt_id.
     pbind (need ''dispatch reservation'' read_id) (\<lambda>reservation_id.
     pbind (need ''dispatch epoch'' read_u64) (\<lambda>coordinator_epoch.
     pbind (need ''dispatch attempt num'' read_u32) (\<lambda>attempt_number.
       preturn \<lparr>dpa_task = task, dpa_attempt_id = attempt_id, dpa_reservation_id = reservation_id,
         dpa_coordinator_epoch = coordinator_epoch, dpa_attempt_number = attempt_number\<rparr>)))))"

definition dispatch_attempt_fits :: "DispatchAttempt \<Rightarrow> bool" where
  "dispatch_attempt_fits m = (task_fits (dpa_task m))"

definition serialize_dispatch_ack :: "DispatchAck \<Rightarrow> byte list" where
  "serialize_dispatch_ack m =
     put_id (dpk_attempt_id m) @
     put_bool (dpk_accepted m) @
     put_string (dpk_error m)"

definition deserialize_dispatch_ack :: "DispatchAck parser" where
  "deserialize_dispatch_ack =
     pbind (need ''dispatch ack id'' read_id) (\<lambda>attempt_id.
     pbind (need ''dispatch ack flag'' read_bool) (\<lambda>accepted.
     pbind (need ''dispatch ack error'' (read_string kMaxString)) (\<lambda>error.
       preturn \<lparr>dpk_attempt_id = attempt_id, dpk_accepted = accepted, dpk_error = error\<rparr>)))"

definition dispatch_ack_fits :: "DispatchAck \<Rightarrow> bool" where
  "dispatch_ack_fits m = (str_fits (dpk_error m))"

definition serialize_attempt_started :: "AttemptStarted \<Rightarrow> byte list" where
  "serialize_attempt_started m =
     put_id (ats_attempt_id m) @
     put_i64 (ats_started_at_ms m) @
     put_string (ats_device m)"

definition deserialize_attempt_started :: "AttemptStarted parser" where
  "deserialize_attempt_started =
     pbind (need ''started id'' read_id) (\<lambda>attempt_id.
     pbind (need ''started at'' read_i64) (\<lambda>started_at_ms.
     pbind (need ''started device'' (read_string kMaxString)) (\<lambda>device.
       preturn \<lparr>ats_attempt_id = attempt_id, ats_started_at_ms = started_at_ms, ats_device = device\<rparr>)))"

definition attempt_started_fits :: "AttemptStarted \<Rightarrow> bool" where
  "attempt_started_fits m = (str_fits (ats_device m))"

definition serialize_attempt_progress :: "AttemptProgress \<Rightarrow> byte list" where
  "serialize_attempt_progress m =
     put_id (atp_attempt_id m) @
     put_u32 (atp_percent m)"

definition deserialize_attempt_progress :: "AttemptProgress parser" where
  "deserialize_attempt_progress =
     pbind (need ''progress id'' read_id) (\<lambda>attempt_id.
     pbind (need ''progress pct'' read_u32) (\<lambda>percent.
       preturn \<lparr>atp_attempt_id = attempt_id, atp_percent = percent\<rparr>))"

definition serialize_attempt_complete :: "AttemptComplete \<Rightarrow> byte list" where
  "serialize_attempt_complete m =
     put_id (atc_attempt_id m) @
     put_id (atc_task_id m) @
     put_id (atc_reservation_id m) @
     put_u64 (atc_coordinator_epoch m) @
     put_u8 (atc_result_code m) @
     put_u64 (atc_output_size m) @
     put_string (atc_output_integrity m) @
     put_f64 (atc_duration_ms m) @
     put_f64 (atc_cpu_millis m) @
     put_u64 (atc_bytes_transferred m) @
     put_string (atc_device m) @
     put_list put_string (atc_notes m)"

definition deserialize_attempt_complete :: "AttemptComplete parser" where
  "deserialize_attempt_complete =
     pbind (need ''complete id'' read_id) (\<lambda>attempt_id.
     pbind (need ''complete task'' read_id) (\<lambda>task_id.
     pbind (need ''complete resv'' read_id) (\<lambda>reservation_id.
     pbind (need ''complete epoch'' read_u64) (\<lambda>coordinator_epoch.
     pbind (need ''complete code'' read_u8) (\<lambda>result_code.
     pbind (need ''complete size'' read_u64) (\<lambda>output_size.
     pbind (need ''complete integrity'' (read_string kMaxString)) (\<lambda>output_integrity.
     pbind (need ''complete duration'' read_f64) (\<lambda>duration_ms.
     pbind (need ''complete cpu'' read_f64) (\<lambda>cpu_millis.
     pbind (need ''complete bytes'' read_u64) (\<lambda>bytes_transferred.
     pbind (need ''complete device'' (read_string kMaxString)) (\<lambda>device.
     pbind (get_list ''complete notes'' (need ''complete note'' (read_string kMaxString))) (\<lambda>notes.
       preturn \<lparr>atc_attempt_id = attempt_id, atc_task_id = task_id, atc_reservation_id = reservation_id,
         atc_coordinator_epoch = coordinator_epoch, atc_result_code = result_code,
         atc_output_size = output_size, atc_output_integrity = output_integrity,
         atc_duration_ms = duration_ms, atc_cpu_millis = cpu_millis,
         atc_bytes_transferred = bytes_transferred, atc_device = device, atc_notes = notes\<rparr>))))))))))))"

definition attempt_complete_fits :: "AttemptComplete \<Rightarrow> bool" where
  "attempt_complete_fits m = (str_fits (atc_output_integrity m) \<and>
     str_fits (atc_device m) \<and>
     list_fits str_fits (atc_notes m))"

definition serialize_attempt_failed :: "AttemptFailed \<Rightarrow> byte list" where
  "serialize_attempt_failed m =
     put_id (atf_attempt_id m) @
     put_id (atf_task_id m) @
     put_id (atf_reservation_id m) @
     put_u64 (atf_coordinator_epoch m) @
     put_u8 (atf_failure_kind m) @
     put_string (atf_failure_reason m) @
     put_f64 (atf_duration_ms m)"

definition deserialize_attempt_failed :: "AttemptFailed parser" where
  "deserialize_attempt_failed =
     pbind (need ''fail id'' read_id) (\<lambda>attempt_id.
     pbind (need ''fail task'' read_id) (\<lambda>task_id.
     pbind (need ''fail resv'' read_id) (\<lambda>reservation_id.
     pbind (need ''fail epoch'' read_u64) (\<lambda>coordinator_epoch.
     pbind (need ''fail kind'' read_u8) (\<lambda>failure_kind.
     pbind (need ''fail reason'' (read_string kMaxString)) (\<lambda>failure_reason.
     pbind (need ''fail duration'' read_f64) (\<lambda>duration_ms.
       preturn \<lparr>atf_attempt_id = attempt_id, atf_task_id = task_id, atf_reservation_id = reservation_id,
         atf_coordinator_epoch = coordinator_epoch, atf_failure_kind = failure_kind,
         atf_failure_reason = failure_reason, atf_duration_ms = duration_ms\<rparr>)))))))"

definition attempt_failed_fits :: "AttemptFailed \<Rightarrow> bool" where
  "attempt_failed_fits m = (str_fits (atf_failure_reason m))"

definition serialize_attempt_cancelled :: "AttemptCancelled \<Rightarrow> byte list" where
  "serialize_attempt_cancelled m =
     put_id (atx_attempt_id m) @
     put_id (atx_task_id m) @
     put_id (atx_reservation_id m) @
     put_u64 (atx_coordinator_epoch m) @
     put_string (atx_reason m)"

definition deserialize_attempt_cancelled :: "AttemptCancelled parser" where
  "deserialize_attempt_cancelled =
     pbind (need ''cancelled id'' read_id) (\<lambda>attempt_id.
     pbind (need ''cancelled task'' read_id) (\<lambda>task_id.
     pbind (need ''cancelled resv'' read_id) (\<lambda>reservation_id.
     pbind (need ''cancelled epoch'' read_u64) (\<lambda>coordinator_epoch.
     pbind (need ''cancelled reason'' (read_string kMaxString)) (\<lambda>reason.
       preturn \<lparr>atx_attempt_id = attempt_id, atx_task_id = task_id, atx_reservation_id = reservation_id,
         atx_coordinator_epoch = coordinator_epoch, atx_reason = reason\<rparr>)))))"

definition attempt_cancelled_fits :: "AttemptCancelled \<Rightarrow> bool" where
  "attempt_cancelled_fits m = (str_fits (atx_reason m))"

definition serialize_attempt_cancel :: "AttemptCancel \<Rightarrow> byte list" where
  "serialize_attempt_cancel m =
     put_id (atk_attempt_id m) @
     put_string (atk_reason m)"

definition deserialize_attempt_cancel :: "AttemptCancel parser" where
  "deserialize_attempt_cancel =
     pbind (need ''cancel attempt id'' read_id) (\<lambda>attempt_id.
     pbind (need ''cancel attempt reason'' (read_string kMaxString)) (\<lambda>reason.
       preturn \<lparr>atk_attempt_id = attempt_id, atk_reason = reason\<rparr>))"

definition attempt_cancel_fits :: "AttemptCancel \<Rightarrow> bool" where
  "attempt_cancel_fits m = (str_fits (atk_reason m))"

definition serialize_attempt_cancel_ack :: "AttemptCancelAck \<Rightarrow> byte list" where
  "serialize_attempt_cancel_ack m =
     put_id (atka_attempt_id m) @
     put_bool (atka_accepted m)"

definition deserialize_attempt_cancel_ack :: "AttemptCancelAck parser" where
  "deserialize_attempt_cancel_ack =
     pbind (need ''cancel ack id'' read_id) (\<lambda>attempt_id.
     pbind (need ''cancel ack flag'' read_bool) (\<lambda>accepted.
       preturn \<lparr>atka_attempt_id = attempt_id, atka_accepted = accepted\<rparr>))"

definition serialize_attempt_ack :: "AttemptAck \<Rightarrow> byte list" where
  "serialize_attempt_ack m =
     put_id (ata_attempt_id m) @
     put_bool (ata_accepted m) @
     put_string (ata_error m)"

definition deserialize_attempt_ack :: "AttemptAck parser" where
  "deserialize_attempt_ack =
     pbind (need ''ack id'' read_id) (\<lambda>attempt_id.
     pbind (need ''ack flag'' read_bool) (\<lambda>accepted.
     pbind (need ''ack error'' (read_string kMaxString)) (\<lambda>error.
       preturn \<lparr>ata_attempt_id = attempt_id, ata_accepted = accepted, ata_error = error\<rparr>)))"

definition attempt_ack_fits :: "AttemptAck \<Rightarrow> bool" where
  "attempt_ack_fits m = (str_fits (ata_error m))"

definition serialize_reservation_grant :: "ReservationGrant \<Rightarrow> byte list" where
  "serialize_reservation_grant m =
     put_id (rsg_reservation_id m) @
     put_id (rsg_task_id m) @
     put_u8 (executor_type_to_u8 (rsg_executor m)) @
     put_u32 (rsg_slots m)"

definition deserialize_reservation_grant :: "ReservationGrant parser" where
  "deserialize_reservation_grant =
     pbind (need ''grant resv'' read_id) (\<lambda>reservation_id.
     pbind (need ''grant task'' read_id) (\<lambda>task_id.
     pbind (need ''grant executor'' read_u8) (\<lambda>e.
     pbind (need ''grant slots'' read_u32) (\<lambda>slots.
       preturn \<lparr>rsg_reservation_id = reservation_id, rsg_task_id = task_id,
         rsg_executor = executor_type_of_u8 e, rsg_slots = slots\<rparr>))))"

definition reservation_grant_fits :: "ReservationGrant \<Rightarrow> bool" where
  "reservation_grant_fits m = (executor_type_ok (rsg_executor m))"

definition serialize_reservation_release :: "ReservationRelease \<Rightarrow> byte list" where
  "serialize_reservation_release m =
     put_id (rsr_reservation_id m) @
     put_id (rsr_task_id m) @
     put_id (rsr_node_id m) @
     put_id (rsr_session_id m) @
     put_u64 (rsr_coordinator_epoch m)"

definition deserialize_reservation_release :: "ReservationRelease parser" where
  "deserialize_reservation_release =
     pbind (need ''release resv'' read_id) (\<lambda>reservation_id.
     pbind (need ''release task'' read_id) (\<lambda>task_id.
     pbind (need ''release node'' read_id) (\<lambda>node_id.
     pbind (need ''release session'' read_id) (\<lambda>session_id.
     pbind (need ''release epoch'' read_u64) (\<lambda>coordinator_epoch.
       preturn \<lparr>rsr_reservation_id = reservation_id, rsr_task_id = task_id, rsr_node_id = node_id,
         rsr_session_id = session_id, rsr_coordinator_epoch = coordinator_epoch\<rparr>)))))"

definition serialize_reservation_release_ack :: "ReservationReleaseAck \<Rightarrow> byte list" where
  "serialize_reservation_release_ack m =
     put_id (rsra_reservation_id m) @
     put_bool (rsra_accepted m) @
     put_string (rsra_error m)"

definition deserialize_reservation_release_ack :: "ReservationReleaseAck parser" where
  "deserialize_reservation_release_ack =
     pbind (need ''release ack resv'' read_id) (\<lambda>reservation_id.
     pbind (need ''release ack flag'' read_bool) (\<lambda>accepted.
     pbind (need ''release ack error'' (read_string kMaxString)) (\<lambda>error.
       preturn \<lparr>rsra_reservation_id = reservation_id, rsra_accepted = accepted, rsra_error = error\<rparr>)))"

definition reservation_release_ack_fits :: "ReservationReleaseAck \<Rightarrow> bool" where
  "reservation_release_ack_fits m = (str_fits (rsra_error m))"

definition serialize_error_response :: "ErrorResponse \<Rightarrow> byte list" where
  "serialize_error_response m =
     put_u16 (err_for_message_type m) @
     put_string (err_error m)"

definition deserialize_error_response :: "ErrorResponse parser" where
  "deserialize_error_response =
     pbind (need ''error for type'' read_u16) (\<lambda>for_message_type.
     pbind (need ''error msg'' (read_string kMaxString)) (\<lambda>error.
       preturn \<lparr>err_for_message_type = for_message_type, err_error = error\<rparr>))"

definition error_response_fits :: "ErrorResponse \<Rightarrow> bool" where
  "error_response_fits m = (str_fits (err_error m))"

section \<open>Round trips\<close>

lemma reads_three: "reads (read_both read_u8 (read_both read_u8 read_u8)) (put_u8 a @ put_u8 b @ put_u8 c) (a, b, c)"
  by (intro reads_both reads_u8)

lemma parses_three:
  assumes "parses (f (a, b, c)) [] y"
  shows "parses (pbind (need what (read_both read_u8 (read_both read_u8 read_u8))) f) (put_u8 a @ put_u8 b @ put_u8 c) y"
  using parses_bind [OF parses_need [OF reads_three], of f a b c "[]" y] assms by simp

lemmas msg_intros = parses_three seq_intros

lemma parses_hello [codec_intros]: "hello_fits m \<Longrightarrow> parses deserialize_hello (serialize_hello m) m"
  unfolding deserialize_hello_def serialize_hello_def hello_fits_def
  by (rule msg_intros codec_intros | assumption | simp add: enum_simps)+

lemma bounded_hello [bounded_intros]: "bounded deserialize_hello"
  unfolding deserialize_hello_def by (intro bounded_intros)

interpretation hello_codec: codec serialize_hello deserialize_hello hello_fits
  by unfold_locales (auto intro: bounded_intros codec_intros)

lemma parses_executor_cap [codec_intros]: "executor_cap_fits c \<Longrightarrow> parses deserialize_executor_cap (serialize_executor_cap c) c"
  unfolding deserialize_executor_cap_def serialize_executor_cap_def executor_cap_fits_def
  by (elim conjE) (rule msg_intros codec_intros | assumption | simp add: enum_simps)+

lemma bounded_executor_cap [bounded_intros]: "bounded deserialize_executor_cap"
  unfolding deserialize_executor_cap_def by (intro bounded_intros)

interpretation executor_cap_codec: codec serialize_executor_cap deserialize_executor_cap executor_cap_fits
  by unfold_locales (auto intro: bounded_intros codec_intros)

lemma parses_capacity [codec_intros]: "capacity_fits c \<Longrightarrow> parses deserialize_capacity (serialize_capacity c) c"
  unfolding deserialize_capacity_def serialize_capacity_def capacity_fits_def
  by (elim conjE) (rule msg_intros codec_intros | assumption | simp add: enum_simps)+

lemma bounded_capacity [bounded_intros]: "bounded deserialize_capacity"
  unfolding deserialize_capacity_def by (intro bounded_intros)

interpretation capacity_codec: codec serialize_capacity deserialize_capacity capacity_fits
  by unfold_locales (auto intro: bounded_intros codec_intros)

lemma parses_node_register [codec_intros]: "node_register_fits m \<Longrightarrow> parses deserialize_node_register (serialize_node_register m) m"
  unfolding deserialize_node_register_def serialize_node_register_def node_register_fits_def
  by (elim conjE) (rule msg_intros codec_intros | assumption | simp add: enum_simps)+

lemma bounded_node_register [bounded_intros]: "bounded deserialize_node_register"
  unfolding deserialize_node_register_def by (intro bounded_intros)

interpretation node_register_codec: codec serialize_node_register deserialize_node_register node_register_fits
  by unfold_locales (auto intro: bounded_intros codec_intros)

lemma parses_node_register_ack [codec_intros]: "node_register_ack_fits m \<Longrightarrow> parses deserialize_node_register_ack (serialize_node_register_ack m) m"
  unfolding deserialize_node_register_ack_def serialize_node_register_ack_def node_register_ack_fits_def
  by (rule msg_intros codec_intros | assumption | simp add: enum_simps)+

lemma bounded_node_register_ack [bounded_intros]: "bounded deserialize_node_register_ack"
  unfolding deserialize_node_register_ack_def by (intro bounded_intros)

interpretation node_register_ack_codec: codec serialize_node_register_ack deserialize_node_register_ack node_register_ack_fits
  by unfold_locales (auto intro: bounded_intros codec_intros)

lemma parses_executor_snapshot [codec_intros]: "executor_snapshot_fits m \<Longrightarrow> parses deserialize_executor_snapshot (serialize_executor_snapshot m) m"
  unfolding deserialize_executor_snapshot_def serialize_executor_snapshot_def executor_snapshot_fits_def
  by (rule msg_intros codec_intros | assumption | simp add: enum_simps)+

lemma bounded_executor_snapshot [bounded_intros]: "bounded deserialize_executor_snapshot"
  unfolding deserialize_executor_snapshot_def by (intro bounded_intros)

interpretation executor_snapshot_codec: codec serialize_executor_snapshot deserialize_executor_snapshot executor_snapshot_fits
  by unfold_locales (auto intro: bounded_intros codec_intros)

lemma parses_node_heartbeat [codec_intros]: "node_heartbeat_fits m \<Longrightarrow> parses deserialize_node_heartbeat (serialize_node_heartbeat m) m"
  unfolding deserialize_node_heartbeat_def serialize_node_heartbeat_def node_heartbeat_fits_def
  by (rule msg_intros codec_intros | assumption | simp add: enum_simps)+

lemma bounded_node_heartbeat [bounded_intros]: "bounded deserialize_node_heartbeat"
  unfolding deserialize_node_heartbeat_def by (intro bounded_intros)

interpretation node_heartbeat_codec: codec serialize_node_heartbeat deserialize_node_heartbeat node_heartbeat_fits
  by unfold_locales (auto intro: bounded_intros codec_intros)

lemma parses_node_heartbeat_ack [codec_intros]: "node_heartbeat_ack_fits m \<Longrightarrow> parses deserialize_node_heartbeat_ack (serialize_node_heartbeat_ack m) m"
  unfolding deserialize_node_heartbeat_ack_def serialize_node_heartbeat_ack_def node_heartbeat_ack_fits_def
  by (rule msg_intros codec_intros | assumption | simp add: enum_simps)+

lemma bounded_node_heartbeat_ack [bounded_intros]: "bounded deserialize_node_heartbeat_ack"
  unfolding deserialize_node_heartbeat_ack_def by (intro bounded_intros)

interpretation node_heartbeat_ack_codec: codec serialize_node_heartbeat_ack deserialize_node_heartbeat_ack node_heartbeat_ack_fits
  by unfold_locales (auto intro: bounded_intros codec_intros)

lemma parses_node_shutdown [codec_intros]: "parses deserialize_node_shutdown (serialize_node_shutdown m) m"
  unfolding deserialize_node_shutdown_def serialize_node_shutdown_def
  by (rule msg_intros codec_intros | assumption | simp add: enum_simps)+

lemma bounded_node_shutdown [bounded_intros]: "bounded deserialize_node_shutdown"
  unfolding deserialize_node_shutdown_def by (intro bounded_intros)

interpretation node_shutdown_codec: codec serialize_node_shutdown deserialize_node_shutdown "\<lambda>_. True"
  by unfold_locales (auto intro: bounded_intros codec_intros)

lemma parses_node_shutdown_ack [codec_intros]: "parses deserialize_node_shutdown_ack (serialize_node_shutdown_ack m) m"
  unfolding deserialize_node_shutdown_ack_def serialize_node_shutdown_ack_def
  by (rule msg_intros codec_intros | assumption | simp add: enum_simps)+

lemma bounded_node_shutdown_ack [bounded_intros]: "bounded deserialize_node_shutdown_ack"
  unfolding deserialize_node_shutdown_ack_def by (intro bounded_intros)

interpretation node_shutdown_ack_codec: codec serialize_node_shutdown_ack deserialize_node_shutdown_ack "\<lambda>_. True"
  by unfold_locales (auto intro: bounded_intros codec_intros)

lemma parses_task_submit [codec_intros]: "task_submit_fits m \<Longrightarrow> parses deserialize_task_submit (serialize_task_submit m) m"
  unfolding deserialize_task_submit_def serialize_task_submit_def task_submit_fits_def
  by (elim conjE) (rule msg_intros codec_intros | assumption | simp add: enum_simps)+

lemma bounded_task_submit [bounded_intros]: "bounded deserialize_task_submit"
  unfolding deserialize_task_submit_def by (intro bounded_intros)

interpretation task_submit_codec: codec serialize_task_submit deserialize_task_submit task_submit_fits
  by unfold_locales (auto intro: bounded_intros codec_intros)

lemma parses_task_submit_response [codec_intros]: "task_submit_response_fits m \<Longrightarrow> parses deserialize_task_submit_response (serialize_task_submit_response m) m"
  unfolding deserialize_task_submit_response_def serialize_task_submit_response_def task_submit_response_fits_def
  by (rule msg_intros codec_intros | assumption | simp add: enum_simps)+

lemma bounded_task_submit_response [bounded_intros]: "bounded deserialize_task_submit_response"
  unfolding deserialize_task_submit_response_def by (intro bounded_intros)

interpretation task_submit_response_codec: codec serialize_task_submit_response deserialize_task_submit_response task_submit_response_fits
  by unfold_locales (auto intro: bounded_intros codec_intros)

lemma parses_task_inspect [codec_intros]: "parses deserialize_task_inspect (serialize_task_inspect m) m"
  unfolding deserialize_task_inspect_def serialize_task_inspect_def
  by (rule msg_intros codec_intros | assumption | simp add: enum_simps)+

lemma bounded_task_inspect [bounded_intros]: "bounded deserialize_task_inspect"
  unfolding deserialize_task_inspect_def by (intro bounded_intros)

interpretation task_inspect_codec: codec serialize_task_inspect deserialize_task_inspect "\<lambda>_. True"
  by unfold_locales (auto intro: bounded_intros codec_intros)

lemma parses_task_inspect_response [codec_intros]: "task_inspect_response_fits m \<Longrightarrow> parses deserialize_task_inspect_response (serialize_task_inspect_response m) m"
  unfolding deserialize_task_inspect_response_def serialize_task_inspect_response_def task_inspect_response_fits_def
  by (elim conjE) (rule msg_intros codec_intros | assumption | simp add: enum_simps)+

lemma bounded_task_inspect_response [bounded_intros]: "bounded deserialize_task_inspect_response"
  unfolding deserialize_task_inspect_response_def by (intro bounded_intros)

interpretation task_inspect_response_codec: codec serialize_task_inspect_response deserialize_task_inspect_response task_inspect_response_fits
  by unfold_locales (auto intro: bounded_intros codec_intros)

lemma parses_task_list [codec_intros]: "task_list_fits m \<Longrightarrow> parses deserialize_task_list (serialize_task_list m) m"
  unfolding deserialize_task_list_def serialize_task_list_def task_list_fits_def
  by (rule msg_intros codec_intros | assumption | simp add: enum_simps)+

lemma bounded_task_list [bounded_intros]: "bounded deserialize_task_list"
  unfolding deserialize_task_list_def by (intro bounded_intros)

interpretation task_list_codec: codec serialize_task_list deserialize_task_list task_list_fits
  by unfold_locales (auto intro: bounded_intros codec_intros)

lemma parses_task_list_entry [codec_intros]: "task_list_entry_fits m \<Longrightarrow> parses deserialize_task_list_entry (serialize_task_list_entry m) m"
  unfolding deserialize_task_list_entry_def serialize_task_list_entry_def task_list_entry_fits_def
  by (elim conjE) (rule msg_intros codec_intros | assumption | simp add: enum_simps)+

lemma bounded_task_list_entry [bounded_intros]: "bounded deserialize_task_list_entry"
  unfolding deserialize_task_list_entry_def by (intro bounded_intros)

interpretation task_list_entry_codec: codec serialize_task_list_entry deserialize_task_list_entry task_list_entry_fits
  by unfold_locales (auto intro: bounded_intros codec_intros)

lemma parses_task_list_response [codec_intros]: "task_list_response_fits m \<Longrightarrow> parses deserialize_task_list_response (serialize_task_list_response m) m"
  unfolding deserialize_task_list_response_def serialize_task_list_response_def task_list_response_fits_def
  by (rule msg_intros codec_intros | assumption | simp add: enum_simps)+

lemma bounded_task_list_response [bounded_intros]: "bounded deserialize_task_list_response"
  unfolding deserialize_task_list_response_def by (intro bounded_intros)

interpretation task_list_response_codec: codec serialize_task_list_response deserialize_task_list_response task_list_response_fits
  by unfold_locales (auto intro: bounded_intros codec_intros)

lemma parses_task_cancel [codec_intros]: "parses deserialize_task_cancel (serialize_task_cancel m) m"
  unfolding deserialize_task_cancel_def serialize_task_cancel_def
  by (rule msg_intros codec_intros | assumption | simp add: enum_simps)+

lemma bounded_task_cancel [bounded_intros]: "bounded deserialize_task_cancel"
  unfolding deserialize_task_cancel_def by (intro bounded_intros)

interpretation task_cancel_codec: codec serialize_task_cancel deserialize_task_cancel "\<lambda>_. True"
  by unfold_locales (auto intro: bounded_intros codec_intros)

lemma parses_task_cancel_response [codec_intros]: "task_cancel_response_fits m \<Longrightarrow> parses deserialize_task_cancel_response (serialize_task_cancel_response m) m"
  unfolding deserialize_task_cancel_response_def serialize_task_cancel_response_def task_cancel_response_fits_def
  by (rule msg_intros codec_intros | assumption | simp add: enum_simps)+

lemma bounded_task_cancel_response [bounded_intros]: "bounded deserialize_task_cancel_response"
  unfolding deserialize_task_cancel_response_def by (intro bounded_intros)

interpretation task_cancel_response_codec: codec serialize_task_cancel_response deserialize_task_cancel_response task_cancel_response_fits
  by unfold_locales (auto intro: bounded_intros codec_intros)

lemma parses_workload_inspect [codec_intros]: "parses deserialize_workload_inspect (serialize_workload_inspect m) m"
  unfolding deserialize_workload_inspect_def serialize_workload_inspect_def
  by (rule msg_intros codec_intros | assumption | simp add: enum_simps)+

lemma bounded_workload_inspect [bounded_intros]: "bounded deserialize_workload_inspect"
  unfolding deserialize_workload_inspect_def by (intro bounded_intros)

interpretation workload_inspect_codec: codec serialize_workload_inspect deserialize_workload_inspect "\<lambda>_. True"
  by unfold_locales (auto intro: bounded_intros codec_intros)

lemma parses_workload_inspect_response [codec_intros]: "workload_inspect_response_fits m \<Longrightarrow> parses deserialize_workload_inspect_response (serialize_workload_inspect_response m) m"
  unfolding deserialize_workload_inspect_response_def serialize_workload_inspect_response_def workload_inspect_response_fits_def
  by (elim conjE) (rule msg_intros codec_intros | assumption | simp add: enum_simps)+

lemma bounded_workload_inspect_response [bounded_intros]: "bounded deserialize_workload_inspect_response"
  unfolding deserialize_workload_inspect_response_def by (intro bounded_intros)

interpretation workload_inspect_response_codec: codec serialize_workload_inspect_response deserialize_workload_inspect_response workload_inspect_response_fits
  by unfold_locales (auto intro: bounded_intros codec_intros)

lemma parses_fabric_status [codec_intros]: "fabric_status_fits m \<Longrightarrow> parses deserialize_fabric_status (serialize_fabric_status m) m"
  unfolding deserialize_fabric_status_def serialize_fabric_status_def fabric_status_fits_def
  by (rule msg_intros codec_intros | assumption | simp add: enum_simps)+

lemma bounded_fabric_status [bounded_intros]: "bounded deserialize_fabric_status"
  unfolding deserialize_fabric_status_def by (intro bounded_intros)

interpretation fabric_status_codec: codec serialize_fabric_status deserialize_fabric_status fabric_status_fits
  by unfold_locales (auto intro: bounded_intros codec_intros)

lemma parses_node_status_entry [codec_intros]: "node_status_entry_fits m \<Longrightarrow> parses deserialize_node_status_entry (serialize_node_status_entry m) m"
  unfolding deserialize_node_status_entry_def serialize_node_status_entry_def node_status_entry_fits_def
  by (elim conjE) (rule msg_intros codec_intros | assumption | simp add: enum_simps)+

lemma bounded_node_status_entry [bounded_intros]: "bounded deserialize_node_status_entry"
  unfolding deserialize_node_status_entry_def by (intro bounded_intros)

interpretation node_status_entry_codec: codec serialize_node_status_entry deserialize_node_status_entry node_status_entry_fits
  by unfold_locales (auto intro: bounded_intros codec_intros)

lemma parses_fabric_status_response [codec_intros]: "fabric_status_response_fits m \<Longrightarrow> parses deserialize_fabric_status_response (serialize_fabric_status_response m) m"
  unfolding deserialize_fabric_status_response_def serialize_fabric_status_response_def fabric_status_response_fits_def
  by (elim conjE) (rule msg_intros codec_intros | assumption | simp add: enum_simps)+

lemma bounded_fabric_status_response [bounded_intros]: "bounded deserialize_fabric_status_response"
  unfolding deserialize_fabric_status_response_def by (intro bounded_intros)

interpretation fabric_status_response_codec: codec serialize_fabric_status_response deserialize_fabric_status_response fabric_status_response_fits
  by unfold_locales (auto intro: bounded_intros codec_intros)

lemma parses_placement_query [codec_intros]: "placement_query_fits m \<Longrightarrow> parses deserialize_placement_query (serialize_placement_query m) m"
  unfolding deserialize_placement_query_def serialize_placement_query_def placement_query_fits_def
  by (rule msg_intros codec_intros | assumption | simp add: enum_simps)+

lemma bounded_placement_query [bounded_intros]: "bounded deserialize_placement_query"
  unfolding deserialize_placement_query_def by (intro bounded_intros)

interpretation placement_query_codec: codec serialize_placement_query deserialize_placement_query placement_query_fits
  by unfold_locales (auto intro: bounded_intros codec_intros)

lemma parses_placement_response [codec_intros]: "placement_response_fits m \<Longrightarrow> parses deserialize_placement_response (serialize_placement_response m) m"
  unfolding deserialize_placement_response_def serialize_placement_response_def placement_response_fits_def
  by (elim conjE) (rule msg_intros codec_intros | assumption | simp add: enum_simps)+

lemma bounded_placement_response [bounded_intros]: "bounded deserialize_placement_response"
  unfolding deserialize_placement_response_def by (intro bounded_intros)

interpretation placement_response_codec: codec serialize_placement_response deserialize_placement_response placement_response_fits
  by unfold_locales (auto intro: bounded_intros codec_intros)

lemma parses_node_list [codec_intros]: "parses deserialize_node_list (serialize_node_list m) m"
  by (cases m) (simp add: deserialize_node_list_def serialize_node_list_def parses_return)

lemma bounded_node_list [bounded_intros]: "bounded deserialize_node_list"
  unfolding deserialize_node_list_def by (intro bounded_intros)

interpretation node_list_codec: codec serialize_node_list deserialize_node_list "\<lambda>_. True"
  by unfold_locales (auto intro: bounded_intros codec_intros)

lemma parses_node_list_response [codec_intros]: "node_list_response_fits m \<Longrightarrow> parses deserialize_node_list_response (serialize_node_list_response m) m"
  unfolding deserialize_node_list_response_def serialize_node_list_response_def node_list_response_fits_def
  by (rule msg_intros codec_intros | assumption | simp add: enum_simps)+

lemma bounded_node_list_response [bounded_intros]: "bounded deserialize_node_list_response"
  unfolding deserialize_node_list_response_def by (intro bounded_intros)

interpretation node_list_response_codec: codec serialize_node_list_response deserialize_node_list_response node_list_response_fits
  by unfold_locales (auto intro: bounded_intros codec_intros)

lemma parses_node_drain [codec_intros]: "parses deserialize_node_drain (serialize_node_drain m) m"
  unfolding deserialize_node_drain_def serialize_node_drain_def
  by (rule msg_intros codec_intros | assumption | simp add: enum_simps)+

lemma bounded_node_drain [bounded_intros]: "bounded deserialize_node_drain"
  unfolding deserialize_node_drain_def by (intro bounded_intros)

interpretation node_drain_codec: codec serialize_node_drain deserialize_node_drain "\<lambda>_. True"
  by unfold_locales (auto intro: bounded_intros codec_intros)

lemma parses_node_drain_response [codec_intros]: "node_drain_response_fits m \<Longrightarrow> parses deserialize_node_drain_response (serialize_node_drain_response m) m"
  unfolding deserialize_node_drain_response_def serialize_node_drain_response_def node_drain_response_fits_def
  by (rule msg_intros codec_intros | assumption | simp add: enum_simps)+

lemma bounded_node_drain_response [bounded_intros]: "bounded deserialize_node_drain_response"
  unfolding deserialize_node_drain_response_def by (intro bounded_intros)

interpretation node_drain_response_codec: codec serialize_node_drain_response deserialize_node_drain_response node_drain_response_fits
  by unfold_locales (auto intro: bounded_intros codec_intros)

lemma parses_coordinator_shutdown [codec_intros]: "parses deserialize_coordinator_shutdown (serialize_coordinator_shutdown m) m"
  by (cases m) (simp add: deserialize_coordinator_shutdown_def serialize_coordinator_shutdown_def parses_return)

lemma bounded_coordinator_shutdown [bounded_intros]: "bounded deserialize_coordinator_shutdown"
  unfolding deserialize_coordinator_shutdown_def by (intro bounded_intros)

interpretation coordinator_shutdown_codec: codec serialize_coordinator_shutdown deserialize_coordinator_shutdown "\<lambda>_. True"
  by unfold_locales (auto intro: bounded_intros codec_intros)

lemma parses_coordinator_shutdown_response [codec_intros]: "coordinator_shutdown_response_fits m \<Longrightarrow> parses deserialize_coordinator_shutdown_response (serialize_coordinator_shutdown_response m) m"
  unfolding deserialize_coordinator_shutdown_response_def serialize_coordinator_shutdown_response_def coordinator_shutdown_response_fits_def
  by (rule msg_intros codec_intros | assumption | simp add: enum_simps)+

lemma bounded_coordinator_shutdown_response [bounded_intros]: "bounded deserialize_coordinator_shutdown_response"
  unfolding deserialize_coordinator_shutdown_response_def by (intro bounded_intros)

interpretation coordinator_shutdown_response_codec: codec serialize_coordinator_shutdown_response deserialize_coordinator_shutdown_response coordinator_shutdown_response_fits
  by unfold_locales (auto intro: bounded_intros codec_intros)

lemma parses_dispatch_attempt [codec_intros]: "dispatch_attempt_fits m \<Longrightarrow> parses deserialize_dispatch_attempt (serialize_dispatch_attempt m) m"
  unfolding deserialize_dispatch_attempt_def serialize_dispatch_attempt_def dispatch_attempt_fits_def
  by (rule msg_intros codec_intros | assumption | simp add: enum_simps)+

lemma bounded_dispatch_attempt [bounded_intros]: "bounded deserialize_dispatch_attempt"
  unfolding deserialize_dispatch_attempt_def by (intro bounded_intros)

interpretation dispatch_attempt_codec: codec serialize_dispatch_attempt deserialize_dispatch_attempt dispatch_attempt_fits
  by unfold_locales (auto intro: bounded_intros codec_intros)

lemma parses_dispatch_ack [codec_intros]: "dispatch_ack_fits m \<Longrightarrow> parses deserialize_dispatch_ack (serialize_dispatch_ack m) m"
  unfolding deserialize_dispatch_ack_def serialize_dispatch_ack_def dispatch_ack_fits_def
  by (rule msg_intros codec_intros | assumption | simp add: enum_simps)+

lemma bounded_dispatch_ack [bounded_intros]: "bounded deserialize_dispatch_ack"
  unfolding deserialize_dispatch_ack_def by (intro bounded_intros)

interpretation dispatch_ack_codec: codec serialize_dispatch_ack deserialize_dispatch_ack dispatch_ack_fits
  by unfold_locales (auto intro: bounded_intros codec_intros)

lemma parses_attempt_started [codec_intros]: "attempt_started_fits m \<Longrightarrow> parses deserialize_attempt_started (serialize_attempt_started m) m"
  unfolding deserialize_attempt_started_def serialize_attempt_started_def attempt_started_fits_def
  by (rule msg_intros codec_intros | assumption | simp add: enum_simps)+

lemma bounded_attempt_started [bounded_intros]: "bounded deserialize_attempt_started"
  unfolding deserialize_attempt_started_def by (intro bounded_intros)

interpretation attempt_started_codec: codec serialize_attempt_started deserialize_attempt_started attempt_started_fits
  by unfold_locales (auto intro: bounded_intros codec_intros)

lemma parses_attempt_progress [codec_intros]: "parses deserialize_attempt_progress (serialize_attempt_progress m) m"
  unfolding deserialize_attempt_progress_def serialize_attempt_progress_def
  by (rule msg_intros codec_intros | assumption | simp add: enum_simps)+

lemma bounded_attempt_progress [bounded_intros]: "bounded deserialize_attempt_progress"
  unfolding deserialize_attempt_progress_def by (intro bounded_intros)

interpretation attempt_progress_codec: codec serialize_attempt_progress deserialize_attempt_progress "\<lambda>_. True"
  by unfold_locales (auto intro: bounded_intros codec_intros)

lemma parses_attempt_complete [codec_intros]: "attempt_complete_fits m \<Longrightarrow> parses deserialize_attempt_complete (serialize_attempt_complete m) m"
  unfolding deserialize_attempt_complete_def serialize_attempt_complete_def attempt_complete_fits_def
  by (elim conjE) (rule msg_intros codec_intros | assumption | simp add: enum_simps)+

lemma bounded_attempt_complete [bounded_intros]: "bounded deserialize_attempt_complete"
  unfolding deserialize_attempt_complete_def by (intro bounded_intros)

interpretation attempt_complete_codec: codec serialize_attempt_complete deserialize_attempt_complete attempt_complete_fits
  by unfold_locales (auto intro: bounded_intros codec_intros)

lemma parses_attempt_failed [codec_intros]: "attempt_failed_fits m \<Longrightarrow> parses deserialize_attempt_failed (serialize_attempt_failed m) m"
  unfolding deserialize_attempt_failed_def serialize_attempt_failed_def attempt_failed_fits_def
  by (rule msg_intros codec_intros | assumption | simp add: enum_simps)+

lemma bounded_attempt_failed [bounded_intros]: "bounded deserialize_attempt_failed"
  unfolding deserialize_attempt_failed_def by (intro bounded_intros)

interpretation attempt_failed_codec: codec serialize_attempt_failed deserialize_attempt_failed attempt_failed_fits
  by unfold_locales (auto intro: bounded_intros codec_intros)

lemma parses_attempt_cancelled [codec_intros]: "attempt_cancelled_fits m \<Longrightarrow> parses deserialize_attempt_cancelled (serialize_attempt_cancelled m) m"
  unfolding deserialize_attempt_cancelled_def serialize_attempt_cancelled_def attempt_cancelled_fits_def
  by (rule msg_intros codec_intros | assumption | simp add: enum_simps)+

lemma bounded_attempt_cancelled [bounded_intros]: "bounded deserialize_attempt_cancelled"
  unfolding deserialize_attempt_cancelled_def by (intro bounded_intros)

interpretation attempt_cancelled_codec: codec serialize_attempt_cancelled deserialize_attempt_cancelled attempt_cancelled_fits
  by unfold_locales (auto intro: bounded_intros codec_intros)

lemma parses_attempt_cancel [codec_intros]: "attempt_cancel_fits m \<Longrightarrow> parses deserialize_attempt_cancel (serialize_attempt_cancel m) m"
  unfolding deserialize_attempt_cancel_def serialize_attempt_cancel_def attempt_cancel_fits_def
  by (rule msg_intros codec_intros | assumption | simp add: enum_simps)+

lemma bounded_attempt_cancel [bounded_intros]: "bounded deserialize_attempt_cancel"
  unfolding deserialize_attempt_cancel_def by (intro bounded_intros)

interpretation attempt_cancel_codec: codec serialize_attempt_cancel deserialize_attempt_cancel attempt_cancel_fits
  by unfold_locales (auto intro: bounded_intros codec_intros)

lemma parses_attempt_cancel_ack [codec_intros]: "parses deserialize_attempt_cancel_ack (serialize_attempt_cancel_ack m) m"
  unfolding deserialize_attempt_cancel_ack_def serialize_attempt_cancel_ack_def
  by (rule msg_intros codec_intros | assumption | simp add: enum_simps)+

lemma bounded_attempt_cancel_ack [bounded_intros]: "bounded deserialize_attempt_cancel_ack"
  unfolding deserialize_attempt_cancel_ack_def by (intro bounded_intros)

interpretation attempt_cancel_ack_codec: codec serialize_attempt_cancel_ack deserialize_attempt_cancel_ack "\<lambda>_. True"
  by unfold_locales (auto intro: bounded_intros codec_intros)

lemma parses_attempt_ack [codec_intros]: "attempt_ack_fits m \<Longrightarrow> parses deserialize_attempt_ack (serialize_attempt_ack m) m"
  unfolding deserialize_attempt_ack_def serialize_attempt_ack_def attempt_ack_fits_def
  by (rule msg_intros codec_intros | assumption | simp add: enum_simps)+

lemma bounded_attempt_ack [bounded_intros]: "bounded deserialize_attempt_ack"
  unfolding deserialize_attempt_ack_def by (intro bounded_intros)

interpretation attempt_ack_codec: codec serialize_attempt_ack deserialize_attempt_ack attempt_ack_fits
  by unfold_locales (auto intro: bounded_intros codec_intros)

lemma parses_reservation_grant [codec_intros]: "reservation_grant_fits m \<Longrightarrow> parses deserialize_reservation_grant (serialize_reservation_grant m) m"
  unfolding deserialize_reservation_grant_def serialize_reservation_grant_def reservation_grant_fits_def
  by (rule msg_intros codec_intros | assumption | simp add: enum_simps)+

lemma bounded_reservation_grant [bounded_intros]: "bounded deserialize_reservation_grant"
  unfolding deserialize_reservation_grant_def by (intro bounded_intros)

interpretation reservation_grant_codec: codec serialize_reservation_grant deserialize_reservation_grant reservation_grant_fits
  by unfold_locales (auto intro: bounded_intros codec_intros)

lemma parses_reservation_release [codec_intros]: "parses deserialize_reservation_release (serialize_reservation_release m) m"
  unfolding deserialize_reservation_release_def serialize_reservation_release_def
  by (rule msg_intros codec_intros | assumption | simp add: enum_simps)+

lemma bounded_reservation_release [bounded_intros]: "bounded deserialize_reservation_release"
  unfolding deserialize_reservation_release_def by (intro bounded_intros)

interpretation reservation_release_codec: codec serialize_reservation_release deserialize_reservation_release "\<lambda>_. True"
  by unfold_locales (auto intro: bounded_intros codec_intros)

lemma parses_reservation_release_ack [codec_intros]: "reservation_release_ack_fits m \<Longrightarrow> parses deserialize_reservation_release_ack (serialize_reservation_release_ack m) m"
  unfolding deserialize_reservation_release_ack_def serialize_reservation_release_ack_def reservation_release_ack_fits_def
  by (rule msg_intros codec_intros | assumption | simp add: enum_simps)+

lemma bounded_reservation_release_ack [bounded_intros]: "bounded deserialize_reservation_release_ack"
  unfolding deserialize_reservation_release_ack_def by (intro bounded_intros)

interpretation reservation_release_ack_codec: codec serialize_reservation_release_ack deserialize_reservation_release_ack reservation_release_ack_fits
  by unfold_locales (auto intro: bounded_intros codec_intros)

lemma parses_error_response [codec_intros]: "error_response_fits m \<Longrightarrow> parses deserialize_error_response (serialize_error_response m) m"
  unfolding deserialize_error_response_def serialize_error_response_def error_response_fits_def
  by (rule msg_intros codec_intros | assumption | simp add: enum_simps)+

lemma bounded_error_response [bounded_intros]: "bounded deserialize_error_response"
  unfolding deserialize_error_response_def by (intro bounded_intros)

interpretation error_response_codec: codec serialize_error_response deserialize_error_response error_response_fits
  by unfold_locales (auto intro: bounded_intros codec_intros)

section \<open>Properties\<close>


definition sample_dispatch :: DispatchAttempt where
  "sample_dispatch = \<lparr>dpa_task = default_task, dpa_attempt_id = id_zero, dpa_reservation_id = id_zero,
     dpa_coordinator_epoch = 3, dpa_attempt_number = 1\<rparr>"




end
