(* ===== verification/Connection.thy ===== *)
theory Connection
  imports Messages
begin

text \<open>
  The coordinator's side of a connection (\<open>coordinator.h\<close>: \<open>NodeConn\<close>, \<open>ClientConn\<close>;
  \<open>coordinator.cpp\<close>: \<open>stop_connection\<close>, \<open>queue_outbound\<close>, the two writer threads) and the cache of
  answered requests (\<open>IdempotencyCache\<close>).

  Node and client connections share the code that handles their outbound queue, a template in the
  source; they are one record here. The socket itself is not modelled: sending a frame succeeds or
  fails, and closing is the \<open>stop\<close> flag.
\<close>

section \<open>Outbound queues\<close>

record Conn =
  conn_id :: Id128
  conn_session :: NodeSessionId
  conn_outbound :: "Frame list"
  conn_outbound_bytes :: nat
  conn_in_flight :: bool
  conn_stop :: bool
  conn_retired :: bool

definition new_conn :: "Id128 \<Rightarrow> Conn" where
  "new_conn i = \<lparr>conn_id = i, conn_session = id_zero, conn_outbound = [], conn_outbound_bytes = 0,
     conn_in_flight = False, conn_stop = False, conn_retired = False\<rparr>"

definition kMaxOutboundFrames :: nat where "kMaxOutboundFrames = 256"

definition kMaxOutboundBytes :: nat where "kMaxOutboundBytes = 16 * 2 ^ 20"

definition frame_wire_size :: "Frame \<Rightarrow> nat" where
  "frame_wire_size frame = kHeaderSize + length (f_payload frame)"

definition stop_conn :: "Conn \<Rightarrow> Conn" where
  "stop_conn c = c\<lparr>conn_stop := True, conn_outbound := [], conn_outbound_bytes := 0\<rparr>"

definition queue_outbound :: "Frame \<Rightarrow> Conn \<Rightarrow> bool \<times> Conn" where
  "queue_outbound frame c =
     (if conn_stop c then (False, c)
      else
        let frame_bytes = frame_wire_size frame;
            overflow = (kMaxOutboundFrames \<le> length (conn_outbound c) \<or> kMaxOutboundBytes < frame_bytes \<or>
                        kMaxOutboundBytes - frame_bytes < conn_outbound_bytes c)
        in if overflow then (False, stop_conn c)
           else (True, c\<lparr>conn_outbound := conn_outbound c @ [frame],
                         conn_outbound_bytes := conn_outbound_bytes c + frame_bytes\<rparr>))"

text \<open>
  A writer thread: under the lock it takes the oldest frame and adjusts the byte count; after the
  send it clears the in-flight flag, and stops the connection when the send failed.
\<close>

definition writer_take :: "Conn \<Rightarrow> (Frame \<times> Conn) option" where
  "writer_take c =
     (if conn_stop c then None
      else case conn_outbound c of
        [] \<Rightarrow> None
      | frame # rest \<Rightarrow>
          let frame_bytes = frame_wire_size frame in
          Some (frame, c\<lparr>conn_outbound := rest,
            conn_outbound_bytes := (if frame_bytes \<le> conn_outbound_bytes c then conn_outbound_bytes c - frame_bytes else 0),
            conn_in_flight := True\<rparr>))"

definition writer_sent :: "bool \<Rightarrow> Conn \<Rightarrow> Conn" where
  "writer_sent ok c =
     (let c' = c\<lparr>conn_in_flight := False\<rparr> in if ok then c' else stop_conn c')"

text \<open>
  The writer's loop: one round per entry of the list, which says whether the send of that round
  succeeds. A round with nothing to send is one expiry of the wait.
\<close>

fun node_writer :: "bool list \<Rightarrow> Conn \<Rightarrow> Frame list \<times> Conn" where
  "node_writer [] c = ([], c)"
| "node_writer (ok # oks) c =
     (if conn_stop c then ([], c)
      else case writer_take c of
        None \<Rightarrow> node_writer oks c
      | Some (frame, c') \<Rightarrow>
          if ok then (case node_writer oks (writer_sent True c') of (fs, c'') \<Rightarrow> (frame # fs, c''))
          else ([], writer_sent False c'))"

definition outbound_drained :: "Conn \<Rightarrow> bool" where
  "outbound_drained c = (conn_outbound c = [] \<and> \<not> conn_in_flight c)"

text \<open>What can happen to a connection, in any order: the core thread, the writer, a stop.\<close>

inductive conn_step :: "Conn \<Rightarrow> Frame list \<Rightarrow> Conn \<Rightarrow> bool" where
  conn_queue: "conn_step c [] (snd (queue_outbound frame c))"
| conn_take: "writer_take c = Some (frame, c') \<Longrightarrow> conn_step c [frame] c'"
| conn_sent: "conn_step c [] (writer_sent ok c)"
| conn_close: "conn_step c [] (stop_conn c)"

inductive_cases conn_stepE: "conn_step c fs c'"

inductive conn_run :: "Conn \<Rightarrow> Frame list \<Rightarrow> Conn \<Rightarrow> bool" where
  conn_run_refl: "conn_run c [] c"
| conn_run_step: "conn_run c fs c' \<Longrightarrow> conn_step c' gs c'' \<Longrightarrow> conn_run c (fs @ gs) c''"

definition conn_ok :: "Conn \<Rightarrow> bool" where
  "conn_ok c =
     (length (conn_outbound c) \<le> kMaxOutboundFrames \<and> conn_outbound_bytes c \<le> kMaxOutboundBytes \<and>
      conn_outbound_bytes c = sum_list (map frame_wire_size (conn_outbound c)))"

lemma new_conn_ok [simp]: "conn_ok (new_conn i)"
  by (simp add: conn_ok_def new_conn_def)

lemma stop_conn_ok [simp]: "conn_ok (stop_conn c)"
  by (simp add: conn_ok_def stop_conn_def)

lemma queue_outbound_ok [simp]: "conn_ok c \<Longrightarrow> conn_ok (snd (queue_outbound frame c))"
  by (auto simp: conn_ok_def queue_outbound_def Let_def stop_conn_def)

lemma writer_take_ok: "conn_ok c \<Longrightarrow> writer_take c = Some (frame, c') \<Longrightarrow> conn_ok c'"
  by (auto simp: conn_ok_def writer_take_def Let_def split: if_splits list.splits)

lemma writer_sent_ok [simp]: "conn_ok c \<Longrightarrow> conn_ok (writer_sent ok c)"
  by (auto simp: writer_sent_def Let_def conn_ok_def stop_conn_def)

lemma conn_step_ok: "conn_step c fs c' \<Longrightarrow> conn_ok c \<Longrightarrow> conn_ok c'"
  by (erule conn_stepE) (auto intro: writer_take_ok)

lemma conn_run_ok: "conn_run c fs c' \<Longrightarrow> conn_ok c \<Longrightarrow> conn_ok c'"
  by (induction rule: conn_run.induct) (auto intro: conn_step_ok)

text \<open>
  Frames leave in the order they were queued: the frames sent so far followed by the queue only
  ever grows at the end, or loses its unsent tail when the connection is stopped.
\<close>

lemma conn_step_fifo:
  "conn_step c fs c' \<Longrightarrow>
   (\<exists>new. fs @ conn_outbound c' = conn_outbound c @ new \<and> length new \<le> 1) \<or> (fs = [] \<and> conn_outbound c' = [] \<and> conn_stop c')"
  by (erule conn_stepE)
    (auto simp: queue_outbound_def Let_def stop_conn_def writer_take_def writer_sent_def split: if_splits list.splits)

lemma conn_step_stopped: "conn_step c fs c' \<Longrightarrow> conn_stop c \<Longrightarrow> conn_stop c' \<and> fs = []"
  by (erule conn_stepE)
    (auto simp: queue_outbound_def Let_def stop_conn_def writer_take_def writer_sent_def split: if_splits)

section \<open>Answered requests\<close>

record IdempotencyCache =
  ic_entries :: "(string, u16 \<times> byte list) omap"
  ic_order :: "string list"

definition ic_empty :: IdempotencyCache where
  "ic_empty = \<lparr>ic_entries = [], ic_order = []\<rparr>"

definition kMaxEntries :: nat where "kMaxEntries = 512"

function ic_evict :: "IdempotencyCache \<Rightarrow> IdempotencyCache" where
  "ic_evict c =
     (if kMaxEntries < length (ic_order c)
      then ic_evict (c\<lparr>ic_entries := omap_del (hd (ic_order c)) (ic_entries c), ic_order := tl (ic_order c)\<rparr>)
      else c)"
  by pat_completeness auto

termination ic_evict
  by (relation "measure (\<lambda>c. length (ic_order c))") auto

declare ic_evict.simps [simp del]

definition ic_put :: "string \<Rightarrow> u16 \<Rightarrow> byte list \<Rightarrow> IdempotencyCache \<Rightarrow> IdempotencyCache" where
  "ic_put key message_type payload c =
     (if omap_has (ic_entries c) key then c
      else ic_evict (c\<lparr>ic_entries := omap_put key (message_type, payload) (ic_entries c),
                       ic_order := ic_order c @ [key]\<rparr>))"

definition ic_get :: "string \<Rightarrow> IdempotencyCache \<Rightarrow> (u16 \<times> byte list) option" where
  "ic_get key c = map_of (ic_entries c) key"

definition idem_key :: "Id128 \<Rightarrow> u64 \<Rightarrow> string" where
  "idem_key sender request_id = id_to_hex sender @ '':'' @ u64_to_string request_id"

text \<open>
  What the cache promises: the last 512 distinct keys with their first answers, oldest first. The
  record implements it when its order lists exactly the keys of its entries, once each.
\<close>

definition ic_inv :: "IdempotencyCache \<Rightarrow> bool" where
  "ic_inv c = (omap_ok (ic_entries c) \<and> distinct (ic_order c) \<and>
     set (ic_order c) = fst ` set (ic_entries c) \<and> length (ic_order c) \<le> kMaxEntries)"

definition ic_abs :: "IdempotencyCache \<Rightarrow> (string \<times> u16 \<times> byte list) list" where
  "ic_abs c = map (\<lambda>k. (k, the (map_of (ic_entries c) k))) (ic_order c)"

definition fifo_put :: "string \<Rightarrow> u16 \<times> byte list \<Rightarrow> (string \<times> u16 \<times> byte list) list \<Rightarrow> (string \<times> u16 \<times> byte list) list" where
  "fifo_put k v q = (if k \<in> fst ` set q then q else drop (Suc (length q) - 512) (q @ [(k, v)]))"

lemma ic_evict_small: "length (ic_order c) \<le> kMaxEntries \<Longrightarrow> ic_evict c = c"
  by (simp add: ic_evict.simps [of c])

lemma ic_evict_one:
  assumes "length (ic_order c) = Suc kMaxEntries"
  shows "ic_evict c = c\<lparr>ic_entries := omap_del (hd (ic_order c)) (ic_entries c), ic_order := tl (ic_order c)\<rparr>"
  using assms by (simp add: ic_evict.simps [of c] ic_evict_small)

lemma ic_keys_abs: "fst ` set (ic_abs c) = set (ic_order c)"
  by (force simp: ic_abs_def)

lemma ic_put_refines:
  assumes "ic_inv c"
  shows "ic_inv (ic_put k mt p c) \<and> ic_abs (ic_put k mt p c) = fifo_put k (mt, p) (ic_abs c)"
proof (cases "omap_has (ic_entries c) k")
  case True
  then show ?thesis using assms ic_keys_abs [of c] by (simp add: ic_put_def fifo_put_def ic_inv_def omap_has_keys)
next
  case False
  let ?c = "c\<lparr>ic_entries := omap_put k (mt, p) (ic_entries c), ic_order := ic_order c @ [k]\<rparr>"
  have k: "k \<notin> set (ic_order c)" using False assms by (simp add: ic_inv_def omap_has_keys)
  have abs: "ic_abs ?c = ic_abs c @ [(k, mt, p)]" using k by (auto simp: ic_abs_def)
  have fifo: "fifo_put k (mt, p) (ic_abs c) = drop (Suc (length (ic_order c)) - 512) (ic_abs c @ [(k, mt, p)])"
    using k ic_keys_abs [of c] by (simp add: fifo_put_def ic_abs_def)
  show ?thesis
  proof (cases "length (ic_order c) < kMaxEntries")
    case True
    then have "ic_put k mt p c = ?c" using False by (simp add: ic_put_def ic_evict_small)
    then show ?thesis using assms abs fifo True k by (auto simp: ic_inv_def kMaxEntries_def)
  next
    case full: False
    then have len: "length (ic_order c) = kMaxEntries" using assms by (simp add: ic_inv_def)
    then obtain h t where ht: "ic_order c = h # t" by (cases "ic_order c") (auto simp: kMaxEntries_def)
    have put: "ic_put k mt p c = ?c\<lparr>ic_entries := omap_del h (omap_put k (mt, p) (ic_entries c)), ic_order := t @ [k]\<rparr>"
      using False len ht by (simp add: ic_put_def ic_evict_one)
    have h: "h \<notin> set t" "h \<noteq> k" using assms ht k by (auto simp: ic_inv_def)
    have "ic_abs (ic_put k mt p c) = tl (ic_abs c) @ [(k, mt, p)]"
      using h ht k by (auto simp: put ic_abs_def)
    then show ?thesis
      using assms ht h k len fifo by (auto simp: put ic_inv_def ic_abs_def kMaxEntries_def drop_Suc)
  qed
qed

lemma ic_get_refines: "ic_inv c \<Longrightarrow> ic_get k c = map_of (ic_abs c) k"
proof -
  assume inv: "ic_inv c"
  have "map_of (map (\<lambda>k. (k, f k)) ks) k = (if k \<in> set ks then Some (f k) else None)" for ks and f :: "string \<Rightarrow> u16 \<times> byte list"
    by (induction ks) auto
  moreover have "k \<in> set (ic_order c) \<longleftrightarrow> map_of (ic_entries c) k \<noteq> None"
    using inv by (simp add: ic_inv_def map_of_eq_None_iff)
  ultimately show ?thesis by (auto simp: ic_get_def ic_abs_def)
qed

lemma node_writer_drains:
  "\<not> conn_stop c \<Longrightarrow> conn_outbound c = fs \<Longrightarrow> \<not> conn_in_flight c \<Longrightarrow>
   \<exists>c'. node_writer (replicate (length fs) True) c = (fs, c') \<and> outbound_drained c' \<and> \<not> conn_stop c'"
proof (induction fs arbitrary: c)
  case Nil
  then show ?case by (simp add: outbound_drained_def)
next
  case (Cons f fs)
  let ?c = "writer_sent True (c\<lparr>conn_outbound := fs, conn_outbound_bytes :=
    (if frame_wire_size f \<le> conn_outbound_bytes c then conn_outbound_bytes c - frame_wire_size f else 0),
    conn_in_flight := True\<rparr>)"
  have take: "writer_take c = Some (f, c\<lparr>conn_outbound := fs, conn_outbound_bytes :=
      (if frame_wire_size f \<le> conn_outbound_bytes c then conn_outbound_bytes c - frame_wire_size f else 0),
      conn_in_flight := True\<rparr>)"
    using Cons.prems by (simp add: writer_take_def Let_def)
  obtain c' where "node_writer (replicate (length fs) True) ?c = (fs, c')" "outbound_drained c'" "\<not> conn_stop c'"
    using Cons.IH [of ?c] Cons.prems by (auto simp: writer_sent_def)
  then show ?case using take Cons.prems by simp
qed

section \<open>Properties\<close>

text \<open>
  C34: the memory held for a peer is bounded. Whatever the order in which the core thread queues
  frames, the writer takes and sends them and the connection is stopped, a connection never holds
  more than 256 frames or 16 MiB, its byte count is exact (the writer's subtraction never has to be
  clamped), and a stopped connection sends nothing more.
\<close>

theorem outbound_queue_bounded:
  assumes "conn_run (new_conn i) fs c"
  shows "length (conn_outbound c) \<le> 256 \<and> conn_outbound_bytes c \<le> 16 * 1024 * 1024 \<and>
    conn_outbound_bytes c = sum_list (map frame_wire_size (conn_outbound c)) \<and>
    (conn_step c gs c' \<and> conn_stop c \<longrightarrow> gs = [] \<and> conn_stop c')"
  using conn_run_ok [OF assms new_conn_ok] conn_step_stopped [of c gs c']
  by (auto simp: conn_ok_def kMaxOutboundFrames_def kMaxOutboundBytes_def)

theorem outbound_queue_bounded_witness:
  "let c = snd (queue_outbound (make_frame 5 SK_Coordinator id_zero 1 [1, 2]) (new_conn id_zero)) in
   length (conn_outbound c) \<le> 256 \<and> conn_outbound_bytes c = 47 \<and> length (conn_outbound c) = 1"
proof -
  let ?f = "make_frame 5 SK_Coordinator id_zero 1 [1, 2]"
  have "conn_run (new_conn id_zero) ([] @ []) (snd (queue_outbound ?f (new_conn id_zero)))"
    by (rule conn_run_step [OF conn_run_refl conn_queue])
  then have "length (conn_outbound (snd (queue_outbound ?f (new_conn id_zero)))) \<le> 256"
    using outbound_queue_bounded by fastforce
  then show ?thesis
    by (simp add: Let_def queue_outbound_def new_conn_def kMaxOutboundFrames_def kMaxOutboundBytes_def
        frame_wire_size_def kHeaderSize_def make_frame_def)
qed

text \<open>
  C35: queued frames are delivered. As long as its sends succeed, the writer of a live connection
  empties a queue of any length in as many rounds as there are frames, sending them in the order
  they were queued, and leaves the connection drained and usable.
\<close>

theorem writer_delivers:
  assumes "\<not> conn_stop c" "\<not> conn_in_flight c"
  shows "fst (node_writer (replicate (length (conn_outbound c)) True) c) = conn_outbound c \<and>
    outbound_drained (snd (node_writer (replicate (length (conn_outbound c)) True) c))"
  using node_writer_drains [OF assms(1) refl assms(2)] by auto

theorem writer_delivers_witness:
  "let c = (new_conn id_zero)\<lparr>conn_outbound := [make_frame 5 SK_Coordinator id_zero 1 [1], make_frame 7 SK_Coordinator id_zero 2 []]\<rparr>
   in fst (node_writer [True, True] c) = conn_outbound c"
  using writer_delivers [of "(new_conn id_zero)\<lparr>conn_outbound :=
    [make_frame 5 SK_Coordinator id_zero 1 [1], make_frame 7 SK_Coordinator id_zero 2 []]\<rparr>"]
  by (simp add: Let_def new_conn_def del: node_writer.simps)

text \<open>
  C38: the cache of answered requests implements a bounded first-in-first-out table. Seen as the list
  of its keys with their answers in order of arrival, \<open>put\<close> ignores a key already present, otherwise
  appends it and drops the oldest entries beyond 512; \<open>get\<close> is look-up in that list; the invariant
  that ties the map to the queue is kept.
\<close>

theorem idempotency_cache_refines_fifo:
  assumes "ic_inv c"
  shows "ic_inv (ic_put k mt p c) \<and> ic_abs (ic_put k mt p c) = fifo_put k (mt, p) (ic_abs c) \<and>
    ic_get k' c = map_of (ic_abs c) k' \<and> length (ic_abs (ic_put k mt p c)) \<le> 512"
proof -
  have "length (ic_abs c') \<le> 512" if "ic_inv c'" for c'
    using that by (simp add: ic_inv_def ic_abs_def kMaxEntries_def)
  then show ?thesis using ic_put_refines [OF assms] ic_get_refines [OF assms] by blast
qed

theorem idempotency_cache_refines_fifo_witness:
  "ic_get ''k'' (ic_put ''k'' 11 [1] ic_empty) = Some (11, [1])"
proof -
  have inv: "ic_inv ic_empty" by (simp add: ic_inv_def ic_empty_def)
  have "ic_abs (ic_put ''k'' 11 [1] ic_empty) = fifo_put ''k'' (11, [1]) (ic_abs ic_empty)" "ic_inv (ic_put ''k'' 11 [1] ic_empty)"
    using idempotency_cache_refines_fifo [OF inv] by blast+
  then show ?thesis
    using idempotency_cache_refines_fifo [of "ic_put ''k'' 11 [1] ic_empty" _ _ _ "''k''"]
    by (simp add: fifo_put_def ic_abs_def ic_empty_def)
qed

end
