(* ===== verification/Coordinator_State.thy ===== *)
theory Coordinator_State
  imports Dag Store Connection
begin

text \<open>
  The coordinator core (\<open>coordinator/coordinator.h\<close>, \<open>coordinator/coordinator.cpp\<close>): one state record
  and one function per handler of the core thread, which owns all of it. Connections are referred to
  by handles (the shared pointers of the source); \<open>co_conns\<close> maps a live handle to its connection, so
  comparing two shared pointers is comparing two handles.

  What the core reads from outside is explicit: \<open>co_clock\<close> gives the value of the \<open>n\<close>-th call of
  \<open>now_millis\<close> made by the modelled code, \<open>co_random\<close> the result of the \<open>n\<close>-th \<open>Id128::random\<close> and \<open>co_writes\<close> the fate of the
  \<open>n\<close>-th write of the store file. Telemetry, logging and waiting for a writer to drain have no effect
  on this state and are left out.
\<close>

section \<open>State\<close>

record CoordinatorConfig =
  cfg_policy :: SchedulerPolicy
  cfg_heartbeat_timeout_ms :: i64
  cfg_store_dir :: string

type_synonym handle = nat

datatype CoreCommand =
    CK_NodeRegister "handle option" u64 NodeRegister
  | CK_NodeHeartbeat "handle option" u64 NodeHeartbeat
  | CK_NodeShutdownMsg "handle option" u64 NodeId
  | CK_NodeDisconnected "handle option" NodeId
  | CK_DispatchAck "handle option" u64 DispatchAck
  | CK_AttemptStarted "handle option" u64 AttemptStarted
  | CK_AttemptProgress "handle option" u64 AttemptProgress
  | CK_AttemptComplete "handle option" u64 AttemptComplete
  | CK_AttemptFailed "handle option" u64 AttemptFailed
  | CK_AttemptCancelled "handle option" u64 AttemptCancelled
  | CK_ReservationRelease "handle option" u64 ReservationRelease
  | CK_ClientConnected "handle option" Id128
  | CK_ClientTaskSubmit "handle option" u64 TaskSubmit
  | CK_ClientTaskInspect "handle option" u64 TaskInspect
  | CK_ClientTaskList "handle option" u64 TaskList
  | CK_ClientTaskCancel "handle option" u64 TaskCancel
  | CK_ClientWorkloadInspect "handle option" u64 WorkloadInspect
  | CK_ClientFabricStatus "handle option" u64 FabricStatus
  | CK_ClientPlacementQuery "handle option" u64 PlacementQuery
  | CK_ClientNodeList "handle option" u64
  | CK_ClientNodeDrain "handle option" u64 NodeDrain
  | CK_ClientCoordinatorShutdown "handle option" u64
  | CK_ClientDisconnected "handle option" Id128
  | CK_Sweep
  | CK_Shutdown

record Coordinator =
  co_config :: CoordinatorConfig
  co_durable :: DurableState
  co_graph :: TaskGraph
  co_reservations :: ReservationRegistry
  co_state_locality :: StateLocalityRegistry
  co_scheduler :: SchedulerPolicyEngine
  co_nodes :: "(NodeId, NodeRecord) omap"
  co_attempts :: "(ComputeTaskId, ExecutionAttempt list) omap"
  co_retry_ready_at_ms :: "(ComputeTaskId, i64) omap"
  co_ready_at_ms :: "(ComputeTaskId, i64) omap"
  co_dispatch_at_ms :: "(ComputeTaskId, i64) omap"
  co_cancel_requested :: "(ComputeTaskId, bool) omap"
  co_last_placements :: "(ComputeTaskId, PlacementDecision) omap"
  co_placement_records :: "(ComputeTaskId, StoredPlacement) omap"
  co_task_reservation :: "(ComputeTaskId, ReservationId) omap"
  co_attempt_by_reservation :: "(ReservationId, ExecutionAttempt) omap"
  co_node_conns :: "(NodeId, handle) omap"
  co_client_conns :: "(Id128, handle) omap"
  co_conns :: "(handle, Conn) omap"
  co_queue :: "CoreCommand list"
  co_stopping :: bool
  co_core_running :: bool
  co_last_sweep :: i64
  co_placement_sequence :: u64
  co_fs :: FileSystem
  co_clock :: "nat \<Rightarrow> i64"
  co_ticks :: nat
  co_random :: "nat \<Rightarrow> Id128"
  co_drawn :: nat
  co_writes :: "nat \<Rightarrow> write_outcome"
  co_saves :: nat

definition now_millis :: "Coordinator \<Rightarrow> i64" where
  "now_millis s = co_clock s (co_ticks s)"

definition tick :: "Coordinator \<Rightarrow> Coordinator" where
  "tick s = s\<lparr>co_ticks := Suc (co_ticks s)\<rparr>"

definition random_id :: "Coordinator \<Rightarrow> Id128" where
  "random_id s = co_random s (co_drawn s)"

definition draw :: "Coordinator \<Rightarrow> Coordinator" where
  "draw s = s\<lparr>co_drawn := Suc (co_drawn s)\<rparr>"

definition epoch :: "Coordinator \<Rightarrow> CoordinatorEpoch" where
  "epoch s = ds_epoch (co_durable s)"

section \<open>Helpers\<close>

definition conn_live :: "Coordinator \<Rightarrow> handle \<Rightarrow> bool" where
  "conn_live s h = (case map_of (co_conns s) h of None \<Rightarrow> False | Some c \<Rightarrow> \<not> conn_stop c)"

definition update_conn :: "handle \<Rightarrow> (Conn \<Rightarrow> Conn) \<Rightarrow> Coordinator \<Rightarrow> Coordinator" where
  "update_conn h f s =
     (case map_of (co_conns s) h of None \<Rightarrow> s | Some c \<Rightarrow> s\<lparr>co_conns := omap_put h (f c) (co_conns s)\<rparr>)"

definition stop_connection :: "handle \<Rightarrow> Coordinator \<Rightarrow> Coordinator" where
  "stop_connection h s = update_conn h stop_conn s"

definition send_frame_to :: "handle \<Rightarrow> Frame \<Rightarrow> Coordinator \<Rightarrow> Coordinator" where
  "send_frame_to h frame s = update_conn h (\<lambda>c. snd (queue_outbound frame c)) s"

definition respond_node :: "handle option \<Rightarrow> u64 \<Rightarrow> u16 \<Rightarrow> byte list \<Rightarrow> Coordinator \<Rightarrow> Coordinator" where
  "respond_node conn rid message_type payload s =
     (case conn of None \<Rightarrow> s
      | Some h \<Rightarrow> send_frame_to h (make_frame message_type SK_Coordinator id_zero rid payload) s)"

definition respond_client :: "handle option \<Rightarrow> u64 \<Rightarrow> u16 \<Rightarrow> byte list \<Rightarrow> Coordinator \<Rightarrow> Coordinator" where
  "respond_client conn rid message_type payload s =
     (case conn of None \<Rightarrow> s
      | Some h \<Rightarrow>
          (case map_of (co_conns s) h of None \<Rightarrow> s
           | Some c \<Rightarrow>
               if map_of (co_client_conns s) (conn_id c) \<noteq> Some h then s
               else send_frame_to h (make_frame message_type SK_Coordinator id_zero rid payload) s))"

definition send_to_node :: "NodeId \<Rightarrow> u16 \<Rightarrow> byte list \<Rightarrow> Coordinator \<Rightarrow> Coordinator" where
  "send_to_node node message_type payload s =
     (case map_of (co_node_conns s) node of None \<Rightarrow> s
      | Some h \<Rightarrow>
          if \<not> conn_live s h then s
          else send_frame_to h (make_frame message_type SK_Coordinator id_zero 0 payload) s)"

definition set_task :: "ComputeTaskId \<Rightarrow> TaskState \<Rightarrow> Coordinator \<Rightarrow> Coordinator" where
  "set_task i st s = s\<lparr>co_graph := snd (set_state i st (co_graph s))\<rparr>"

definition graph_to_tasks :: "TaskGraph \<Rightarrow> (ComputeTaskId, ComputeTask) omap" where
  "graph_to_tasks g =
     omap_of_entries (concat (map (\<lambda>i. case find_task g i of None \<Rightarrow> [] | Some t \<Rightarrow> [(i, t)]) (task_ids g)))"

definition graph_states :: "TaskGraph \<Rightarrow> (ComputeTaskId, TaskState) omap" where
  "graph_states g = omap_of_entries (map (\<lambda>i. (i, task_state g i)) (task_ids g))"

definition committed_attempts :: "(ComputeTaskId, ExecutionAttempt list) omap \<Rightarrow> (ComputeTaskId, ExecutionAttempt list) omap" where
  "committed_attempts m =
     omap_of_entries (filter (\<lambda>e. snd e \<noteq> []) (map (\<lambda>e. (fst e, filter a_committed (snd e))) m))"

definition persist :: "Coordinator \<Rightarrow> Coordinator" where
  "persist s =
     (let d = (co_durable s)\<lparr>
            ds_tasks := graph_to_tasks (co_graph s),
            ds_task_states := graph_states (co_graph s),
            ds_attempts := committed_attempts (co_attempts s),
            ds_retry_counts := omap_of_entries (map (\<lambda>e. (fst e, of_nat (length (snd e)))) (co_attempts s)),
            ds_placements := map snd (co_placement_records s)\<rparr>
      in s\<lparr>co_durable := d,
           co_fs := snd (store_save (cfg_store_dir (co_config s) @ ''/coordinator.store'') (co_writes s (co_saves s)) d (co_fs s)),
           co_saves := Suc (co_saves s)\<rparr>)"

text \<open>
  A pointer to an attempt inside \<open>attempts_\<close> is the task it is filed under and its index there.
  \<open>find_active_attempt\<close> returns the first attempt with the id, in map order.
\<close>

type_synonym attempt_ref = "ComputeTaskId \<times> nat"

definition attempt_at :: "(ComputeTaskId, ExecutionAttempt list) omap \<Rightarrow> attempt_ref \<Rightarrow> ExecutionAttempt" where
  "attempt_at m p = omap_get_or [] m (fst p) ! snd p"

definition attempt_refs :: "(ComputeTaskId, ExecutionAttempt list) omap \<Rightarrow> attempt_ref list" where
  "attempt_refs m = concat (map (\<lambda>e. map (Pair (fst e)) [0..<length (snd e)]) m)"

definition find_active_attempt :: "ExecutionAttemptId \<Rightarrow> (ComputeTaskId, ExecutionAttempt list) omap \<Rightarrow> attempt_ref option" where
  "find_active_attempt i m = find (\<lambda>p. a_id (attempt_at m p) = i) (attempt_refs m)"

definition update_attempt :: "attempt_ref \<Rightarrow> (ExecutionAttempt \<Rightarrow> ExecutionAttempt) \<Rightarrow> Coordinator \<Rightarrow> Coordinator" where
  "update_attempt p f s =
     s\<lparr>co_attempts := omap_put (fst p)
         ((omap_get_or [] (co_attempts s) (fst p))[snd p := f (attempt_at (co_attempts s) p)]) (co_attempts s)\<rparr>"

definition release_task_reservation :: "ComputeTaskId \<Rightarrow> Coordinator \<Rightarrow> Coordinator" where
  "release_task_reservation task s =
     (case map_of (co_task_reservation s) task of
        None \<Rightarrow> s
      | Some r \<Rightarrow> s\<lparr>co_reservations := snd (release r (co_reservations s)),
                     co_attempt_by_reservation := omap_del r (co_attempt_by_reservation s),
                     co_task_reservation := omap_del task (co_task_reservation s)\<rparr>)"

definition set_ready_at :: "ComputeTaskId \<Rightarrow> i64 \<Rightarrow> Coordinator \<Rightarrow> Coordinator" where
  "set_ready_at i t s = s\<lparr>co_ready_at_ms := omap_put i t (co_ready_at_ms s)\<rparr>"

definition set_retry_at :: "ComputeTaskId \<Rightarrow> i64 \<Rightarrow> Coordinator \<Rightarrow> Coordinator" where
  "set_retry_at i t s = s\<lparr>co_retry_ready_at_ms := omap_put i t (co_retry_ready_at_ms s)\<rparr>"

text \<open>
  \<open>on_task_succeeded_recursive\<close>: the loop over the dependents of a task, with the recursive call for
  a dependent whose dependencies failed. The fuel bounds the depth of the recursion; running out is
  \<open>None\<close>, and the dependency graph being acyclic it never does (\<open>succeed_loop_total\<close>).
\<close>

definition unblock :: "ComputeTaskId \<Rightarrow> Coordinator \<Rightarrow> Coordinator" where
  "unblock dep s =
     (if task_state (co_graph s) dep = TS_Blocked \<and> dependencies_satisfied (co_graph s) dep
      then tick (set_ready_at dep (now_millis s) (set_task dep TS_Ready s))
      else s)"

definition doomed :: "ComputeTaskId \<Rightarrow> Coordinator \<Rightarrow> bool" where
  "doomed dep s = (dependency_poisoned (co_graph s) dep \<and>
     (task_state (co_graph s) dep = TS_Blocked \<or> task_state (co_graph s) dep = TS_Submitted))"

fun succeed_loop :: "nat \<Rightarrow> ComputeTaskId list \<Rightarrow> Coordinator \<Rightarrow> Coordinator option" where
  "succeed_loop fuel [] s = Some s"
| "succeed_loop 0 (dep # deps) s = None"
| "succeed_loop (Suc fuel) (dep # deps) s =
     (let s1 = unblock dep s in
      if doomed dep s1 then
        let s2 = set_task dep TS_Failed (set_task dep TS_Lost s1) in
        (case succeed_loop fuel (dependents (co_graph s2) dep) s2 of
           None \<Rightarrow> None
         | Some s3 \<Rightarrow> succeed_loop (Suc fuel) deps s3)
      else succeed_loop (Suc fuel) deps s1)"

definition on_task_succeeded_recursive :: "ComputeTaskId \<Rightarrow> Coordinator \<Rightarrow> Coordinator option" where
  "on_task_succeeded_recursive i s = succeed_loop (Suc (graph_size (co_graph s))) (dependents (co_graph s) i) s"

end
