(* ===== verification/Coordinator.thy ===== *)
theory Coordinator
  imports Coordinator_State
begin

text \<open>
  The handlers of the coordinator's core thread, the dispatch over commands, the periodic sweep with
  the scheduler loop, the core loop, start and stop, and what the reader threads turn frames into.
\<close>

section \<open>Nodes\<close>

definition register_ack :: "NodeId \<Rightarrow> NodeSessionId \<Rightarrow> CoordinatorEpoch \<Rightarrow> SessionEpoch \<Rightarrow> byte list" where
  "register_ack node session ep session_epoch = serialize_node_register_ack
     \<lparr>nra_node_id = node, nra_session_id = session, nra_coordinator_epoch = ep,
      nra_session_epoch = session_epoch, nra_error = []\<rparr>"

text \<open>A registration that is not a replay: the old transport is stopped and a new session opened.\<close>

definition register_session :: "handle \<Rightarrow> u64 \<Rightarrow> NodeRegister \<Rightarrow> Coordinator \<Rightarrow> Coordinator" where
  "register_session h rid reg s =
     (let node = nr_node_id reg;
          session_epoch = (case map_of (co_nodes s) node of Some r \<Rightarrow> n_session_epoch r + 1 | None \<Rightarrow> 1);
          s1 = (case map_of (co_node_conns s) node of
                  Some old \<Rightarrow> if old \<noteq> h then stop_connection old s else s
                | None \<Rightarrow> s);
          session = random_id s1; s2 = draw s1;
          beat = now_millis s2; s3 = tick s2;
          registered = now_millis s3; s4 = tick s3;
          rec = \<lparr>n_id = node, n_session = session, n_epoch = epoch s, n_session_epoch = session_epoch,
                 n_health = NH_Online, n_capacity = nr_capacity reg, n_last_heartbeat_ms = beat,
                 n_register_ms = registered, n_connected = True\<rparr>;
          s5 = s4\<lparr>co_nodes := omap_put node rec (co_nodes s4)\<rparr>;
          s6 = update_conn h (\<lambda>c. c\<lparr>conn_id := node, conn_session := session\<rparr>) s5;
          s7 = s6\<lparr>co_node_conns := omap_put node h (co_node_conns s6)\<rparr>
      in respond_node (Some h) rid kNodeRegisterAck (register_ack node session (epoch s) session_epoch) s7)"

definition handle_node_register :: "handle option \<Rightarrow> u64 \<Rightarrow> NodeRegister \<Rightarrow> Coordinator \<Rightarrow> Coordinator" where
  "handle_node_register conn rid reg s =
     (case conn of None \<Rightarrow> s
      | Some h \<Rightarrow>
        if \<not> conn_live s h then s
        else case map_of (co_nodes s) (nr_node_id reg) of
          Some r \<Rightarrow>
            if n_connected r \<and> map_of (co_node_conns s) (nr_node_id reg) = Some h
            then respond_node conn rid kNodeRegisterAck
                   (register_ack (nr_node_id reg) (n_session r) (epoch s) (n_session_epoch r)) s
            else register_session h rid reg s
        | None \<Rightarrow> register_session h rid reg s)"

definition handle_node_heartbeat :: "handle option \<Rightarrow> u64 \<Rightarrow> NodeHeartbeat \<Rightarrow> Coordinator \<Rightarrow> Coordinator" where
  "handle_node_heartbeat conn rid hb s =
     (let ack = (\<lambda>accepted error s. respond_node conn rid kNodeHeartbeatAck
            (serialize_node_heartbeat_ack \<lparr>nha_accepted = accepted, nha_error = error\<rparr>) s)
      in case map_of (co_nodes s) (nhb_node_id hb) of
        None \<Rightarrow> ack False ''unknown node'' s
      | Some r \<Rightarrow>
          if n_session r \<noteq> nhb_session_id hb \<or> n_session_epoch r \<noteq> nhb_session_epoch hb
          then ack False ''stale session; re-register'' s
          else if nhb_coordinator_epoch hb \<noteq> epoch s
          then ack False ''stale coordinator epoch; re-register'' s
          else ack True [] (tick (s\<lparr>co_nodes := omap_put (nhb_node_id hb)
                 (r\<lparr>n_last_heartbeat_ms := now_millis s, n_health := NH_Online\<rparr>) (co_nodes s)\<rparr>)))"

definition handle_node_disconnect :: "NodeId \<Rightarrow> handle option \<Rightarrow> Coordinator \<Rightarrow> Coordinator" where
  "handle_node_disconnect node conn s =
     (if map_of (co_node_conns s) node = None \<or> map_of (co_node_conns s) node \<noteq> conn then s
      else
        let s1 = s\<lparr>co_node_conns := omap_del node (co_node_conns s)\<rparr> in
        case map_of (co_nodes s1) node of
          None \<Rightarrow> s1
        | Some r \<Rightarrow>
            if n_health r = NH_Offline then s1
            else tick (s1\<lparr>co_nodes := omap_put node
                   (r\<lparr>n_connected := False,
                      n_last_heartbeat_ms := now_millis s1 - cfg_heartbeat_timeout_ms (co_config s1) + 100\<rparr>) (co_nodes s1)\<rparr>))"

definition handle_node_shutdown_msg :: "handle option \<Rightarrow> u64 \<Rightarrow> NodeId \<Rightarrow> Coordinator \<Rightarrow> Coordinator" where
  "handle_node_shutdown_msg conn rid node s =
     (case map_of (co_node_conns s) node of
        None \<Rightarrow> s
      | Some h \<Rightarrow>
          if conn \<noteq> Some h then s
          else stop_connection h (respond_node conn rid kNodeShutdownAck
                 (serialize_node_shutdown_ack \<lparr>nsa_accepted = True\<rparr>) s))"

section \<open>Scheduling\<close>

definition ready_before :: "TaskGraph \<Rightarrow> ComputeTaskId \<times> i64 \<Rightarrow> ComputeTaskId \<times> i64 \<Rightarrow> bool" where
  "ready_before g a b =
     (let prio = (\<lambda>i. case find_task g i of Some t \<Rightarrow> priority_to_u8 (t_priority t) | None \<Rightarrow> priority_to_u8 PR_Normal) in
      if prio (fst a) \<noteq> prio (fst b) then prio (fst a) < prio (fst b)
      else if snd a \<noteq> snd b then sint (snd a) < sint (snd b)
      else fst a < fst b)"

definition ready_tasks :: "Coordinator \<Rightarrow> (ComputeTaskId \<times> i64) list" where
  "ready_tasks s = std_sort (ready_before (co_graph s))
     (map (\<lambda>i. (i, omap_get_or 0 (co_ready_at_ms s) i))
       (filter (\<lambda>i. task_state (co_graph s) i = TS_Ready) (task_ids (co_graph s))))"

text \<open>
  The end of one scheduling round, once a reservation has been granted and the task is Reserved: the
  attempt is recorded and dispatched.
\<close>

definition dispatch_attempt :: "ComputeTaskId \<Rightarrow> ComputeTask \<Rightarrow> NodeId \<Rightarrow> NodeRecord \<Rightarrow> PlacementDecision \<Rightarrow> ExecutorType \<Rightarrow> Reservation \<Rightarrow>
    Coordinator \<Rightarrow> Coordinator" where
  "dispatch_attempt task_id task node_id node decision executor resv s =
     (let s1 = s\<lparr>co_task_reservation := omap_put task_id (r_id resv) (co_task_reservation s)\<rparr>;
          earlier = omap_get_or [] (co_attempts s1) task_id;
          a = default_attempt\<lparr>a_id := random_id s1, a_task_id := task_id, a_node_id := node_id,
                a_node_session := n_session node, a_coordinator_epoch := epoch s1, a_reservation_id := r_id resv,
                a_executor := executor, a_attempt_number := of_nat (length earlier),
                a_dispatched_at_ms := now_millis s1, a_state := AS_Dispatched, a_device := pd_chosen_device decision\<rparr>;
          s2 = tick (draw s1);
          s3 = s2\<lparr>co_attempts := omap_put task_id (earlier @ [a]) (co_attempts s2),
                  co_attempt_by_reservation := omap_put (r_id resv) a (co_attempt_by_reservation s2),
                  co_dispatch_at_ms := omap_put task_id (a_dispatched_at_ms a) (co_dispatch_at_ms s2)\<rparr>;
          s4 = send_to_node node_id kDispatchAttempt (serialize_dispatch_attempt
                 \<lparr>dpa_task = task, dpa_attempt_id = a_id a, dpa_reservation_id = r_id resv,
                  dpa_coordinator_epoch = epoch s3, dpa_attempt_number = a_attempt_number a\<rparr>) s3
      in persist (set_task task_id TS_Dispatching s4))"

text \<open>
  A task whose placement names a connected node: reserve, then walk the task through Planning and
  Reserved. \<open>try_reserve\<close> draws an id and reads the clock only when it grants.
\<close>

definition reserve_and_dispatch :: "ComputeTaskId \<Rightarrow> ComputeTask \<Rightarrow> NodeId \<Rightarrow> NodeRecord \<Rightarrow> PlacementDecision \<Rightarrow> Coordinator \<Rightarrow> Coordinator" where
  "reserve_and_dispatch task_id task node_id node decision s =
     (let executor = (case pd_chosen_executor decision of Some e \<Rightarrow> e | None \<Rightarrow> t_required_executor task);
          slots = (if executor = ET_Cuda then t_required_gpu_slots task else t_required_cpu_slots task)
      in case try_reserve (random_id s) (now_millis s) node (epoch s) task_id executor slots
              (t_scratch_memory_bytes task) (co_reservations s) of
        (rr, reg) \<Rightarrow>
          (case rr_reservation rr of
             None \<Rightarrow> s
           | Some resv \<Rightarrow>
               let s1 = tick (draw (s\<lparr>co_reservations := reg\<rparr>)) in
               case set_state task_id TS_Planning (co_graph s1) of
                 (Inl _, g) \<Rightarrow> s1\<lparr>co_graph := g, co_reservations := snd (release (r_id resv) (co_reservations s1))\<rparr>
               | (Inr _, g) \<Rightarrow>
                   let s2 = s1\<lparr>co_graph := g\<rparr> in
                   case set_state task_id TS_Reserved (co_graph s2) of
                     (Inl _, g) \<Rightarrow> s2\<lparr>co_graph := g, co_reservations := snd (release (r_id resv) (co_reservations s2))\<rparr>
                   | (Inr _, g) \<Rightarrow> dispatch_attempt task_id task node_id node decision executor resv (s2\<lparr>co_graph := g\<rparr>)))"

definition schedule_one :: "ComputeTaskId \<Rightarrow> Coordinator \<Rightarrow> Coordinator" where
  "schedule_one task_id s =
     (case find_task (co_graph s) task_id of
        None \<Rightarrow> s
      | Some task \<Rightarrow>
          if task_state (co_graph s) task_id \<noteq> TS_Ready then s
          else if t_has_deadline task \<and> sint (t_deadline_epoch_ms task) \<le> sint (now_millis s)
          then persist (set_task task_id TS_Expired (tick s))
          else
            let s1 = (if t_has_deadline task then tick s else s);
                decision = place (co_scheduler s1) task (co_nodes s1) (co_reservations s1) (co_state_locality s1);
                seq = co_placement_sequence s1 + 1;
                s2 = s1\<lparr>co_last_placements := omap_put task_id decision (co_last_placements s1),
                        co_placement_sequence := seq,
                        co_placement_records := omap_put task_id
                          \<lparr>sp_task_id = task_id, sp_sequence = seq, sp_decision = decision\<rparr> (co_placement_records s1)\<rparr>
            in if \<not> pd_feasible decision then s2
               else case pd_chosen_node decision of
                 None \<Rightarrow> s2
               | Some node_id \<Rightarrow>
                   (case map_of (co_nodes s2) node_id of
                      None \<Rightarrow> s2
                    | Some node \<Rightarrow> if \<not> n_connected node then s2 else reserve_and_dispatch task_id task node_id node decision s2))"

fun schedule_loop :: "(ComputeTaskId \<times> i64) list \<Rightarrow> Coordinator \<Rightarrow> Coordinator" where
  "schedule_loop [] s = s"
| "schedule_loop (r # rs) s = (if co_stopping s then s else schedule_loop rs (schedule_one (fst r) s))"

definition schedule_ready_tasks :: "Coordinator \<Rightarrow> Coordinator" where
  "schedule_ready_tasks s = schedule_loop (ready_tasks s) s"

section \<open>Attempts\<close>

definition handle_dispatch_ack :: "DispatchAck \<Rightarrow> Coordinator \<Rightarrow> Coordinator" where
  "handle_dispatch_ack da s =
     (if dpk_accepted da then s
      else case find_active_attempt (dpk_attempt_id da) (co_attempts s) of
        None \<Rightarrow> s
      | Some p \<Rightarrow> persist (set_task (fst p) TS_Ready (release_task_reservation (fst p) s)))"

definition handle_attempt_started :: "AttemptStarted \<Rightarrow> Coordinator \<Rightarrow> Coordinator" where
  "handle_attempt_started st s =
     (case find_active_attempt (ats_attempt_id st) (co_attempts s) of
        None \<Rightarrow> s
      | Some p \<Rightarrow>
          let a = attempt_at (co_attempts s) p in
          if a_coordinator_epoch a \<noteq> epoch s then s
          else persist (set_task (a_task_id a) TS_Running
                 (update_attempt p (\<lambda>a. a\<lparr>a_state := AS_Started, a_started_at_ms := ats_started_at_ms st,
                    a_device := ats_device st\<rparr>) s)))"

definition attempt_ack :: "ExecutionAttemptId \<Rightarrow> bool \<Rightarrow> string \<Rightarrow> byte list" where
  "attempt_ack i accepted error = serialize_attempt_ack \<lparr>ata_attempt_id = i, ata_accepted = accepted, ata_error = error\<rparr>"

definition completion_refused :: "AttemptComplete \<Rightarrow> ExecutionAttempt \<Rightarrow> Coordinator \<Rightarrow> string option" where
  "completion_refused co a s =
     (let st = task_state (co_graph s) (a_task_id a) in
      if a_coordinator_epoch a \<noteq> epoch s then Some ''stale coordinator epoch''
      else if a_state a \<noteq> AS_Started \<and> a_state a \<noteq> AS_Dispatched then Some ''attempt not active''
      else if a_reservation_id a \<noteq> atc_reservation_id co then Some ''reservation token mismatch''
      else if st \<noteq> TS_Running \<and> st \<noteq> TS_Dispatching then Some ''task lifecycle invalid for completion''
      else None)"

definition cancel_attempt :: "attempt_ref \<Rightarrow> string \<Rightarrow> Coordinator \<Rightarrow> Coordinator" where
  "cancel_attempt p reason s =
     tick (update_attempt p (\<lambda>a. a\<lparr>a_state := AS_Cancelled, a_failure_kind := FK_Cancelled,
       a_failure_reason := reason, a_completed_at_ms := now_millis s\<rparr>) s)"

definition commit_attempt :: "attempt_ref \<Rightarrow> AttemptComplete \<Rightarrow> Coordinator \<Rightarrow> Coordinator" where
  "commit_attempt p co s =
     tick (update_attempt p (\<lambda>a. a\<lparr>a_state := AS_Succeeded, a_committed := True,
       a_completed_at_ms := now_millis s, a_output_size := atc_output_size co,
       a_output_integrity := atc_output_integrity co, a_cpu_millis := atc_duration_ms co,
       a_bytes_transferred := atc_bytes_transferred co, a_device := atc_device co\<rparr>) s)"

definition record_success :: "ExecutionAttempt \<Rightarrow> AttemptComplete \<Rightarrow> Coordinator \<Rightarrow> Coordinator" where
  "record_success a co s =
     (case find_task (co_graph s) (a_task_id a) of
        None \<Rightarrow> s
      | Some task \<Rightarrow> s\<lparr>co_scheduler := record_history (history_key (t_task_class task) (a_executor a) (a_node_id a))
          (atc_duration_ms co / f64_lit 1000 1) True (atc_bytes_transferred co) (co_scheduler s)\<rparr>)"

definition handle_attempt_complete :: "handle option \<Rightarrow> u64 \<Rightarrow> AttemptComplete \<Rightarrow> Coordinator \<Rightarrow> Coordinator" where
  "handle_attempt_complete conn rid co s =
     (let ack = (\<lambda>accepted error s. respond_node conn rid kAttemptCompleteAck
            (attempt_ack (atc_attempt_id co) accepted error) s)
      in case find_active_attempt (atc_attempt_id co) (co_attempts s) of
        None \<Rightarrow> ack False ''stale_attempt'' s
      | Some p \<Rightarrow>
          let a = attempt_at (co_attempts s) p; task_id = a_task_id a in
          if a_committed a then ack True [] s
          else
            let refused = completion_refused co a s;
                cancelled = omap_get_or False (co_cancel_requested s) task_id;
                s1 = s\<lparr>co_cancel_requested := omap_put task_id cancelled (co_cancel_requested s)\<rparr>
            in if cancelled then
                 ack False ''task cancelled'' (persist (release_task_reservation task_id
                   (set_task task_id TS_Preempted (cancel_attempt p ''cancelled'' s1))))
               else case refused of
                 Some reason \<Rightarrow> ack False reason s1
               | None \<Rightarrow>
                   let s2 = release_task_reservation task_id (set_task task_id TS_Succeeded (commit_attempt p co s1));
                       s3 = s2\<lparr>co_cancel_requested := omap_del task_id (co_cancel_requested s2)\<rparr>;
                       s4 = ack True [] (record_success a co s3)
                   in case on_task_succeeded_recursive task_id s4 of
                        None \<Rightarrow> s4
                      | Some s5 \<Rightarrow> persist s5)"

definition can_retry :: "ComputeTask option \<Rightarrow> ExecutionAttempt \<Rightarrow> bool" where
  "can_retry task a =
     (case task of None \<Rightarrow> False
      | Some t \<Rightarrow> 1 < rp_max_attempts (t_retry t) \<and> a_attempt_number a + 1 < rp_max_attempts (t_retry t) \<and>
          (a_failure_kind a \<noteq> FK_NodeLost \<or> rp_retry_on_node_loss (t_retry t)) \<and>
          (a_failure_kind a \<noteq> FK_ExecutorFailed \<or> rp_retry_on_executor_failure (t_retry t)))"

definition schedule_retry :: "ComputeTaskId \<Rightarrow> ComputeTask \<Rightarrow> Coordinator \<Rightarrow> Coordinator" where
  "schedule_retry task_id task s =
     (let s1 = set_task task_id TS_RetryPending s in
      tick (set_retry_at task_id (now_millis s1 + rp_retry_backoff_ms (t_retry task)) s1))"

definition handle_attempt_failed :: "handle option \<Rightarrow> u64 \<Rightarrow> AttemptFailed \<Rightarrow> Coordinator \<Rightarrow> Coordinator" where
  "handle_attempt_failed conn rid fa s =
     (let ack = (\<lambda>accepted error s. respond_node conn rid kAttemptFailedAck
            (attempt_ack (atf_attempt_id fa) accepted error) s)
      in case find_active_attempt (atf_attempt_id fa) (co_attempts s) of
        None \<Rightarrow> ack False ''stale_attempt'' s
      | Some p \<Rightarrow>
          let a0 = attempt_at (co_attempts s) p in
          if a_coordinator_epoch a0 \<noteq> epoch s then s
          else if a_state a0 = AS_Succeeded \<or> a_committed a0 then s
          else
            let a = a0\<lparr>a_state := AS_Failed, a_failure_kind := failure_kind_of_u8 (atf_failure_kind fa),
                       a_failure_reason := atf_failure_reason fa, a_completed_at_ms := now_millis s\<rparr>;
                s1 = tick (update_attempt p (\<lambda>_. a) s);
                task_id = a_task_id a;
                task = find_task (co_graph s1) task_id;
                current = task_state (co_graph s1) task_id;
                s2 = release_task_reservation task_id s1;
                s3 = (if current = TS_Succeeded then s2
                      else case task of
                        Some t \<Rightarrow> if can_retry task a then schedule_retry task_id t s2 else set_task task_id TS_Failed s2
                      | None \<Rightarrow> set_task task_id TS_Failed s2)
            in persist (ack True [] s3))"

definition handle_attempt_cancelled :: "AttemptCancelled \<Rightarrow> Coordinator \<Rightarrow> Coordinator" where
  "handle_attempt_cancelled ca s =
     (case find_active_attempt (atx_attempt_id ca) (co_attempts s) of
        None \<Rightarrow> s
      | Some p \<Rightarrow>
          let a = attempt_at (co_attempts s) p in
          if a_coordinator_epoch a \<noteq> epoch s then s
          else persist (set_task (a_task_id a) TS_Preempted
                 (release_task_reservation (a_task_id a) (cancel_attempt p (atx_reason ca) s))))"

definition handle_reservation_release :: "handle option \<Rightarrow> u64 \<Rightarrow> ReservationRelease \<Rightarrow> Coordinator \<Rightarrow> Coordinator" where
  "handle_reservation_release conn rid rel s =
     (let s1 = (case find_reservation (co_reservations s) (rsr_reservation_id rel) of
            Some r \<Rightarrow> if r_coordinator_epoch r = epoch s
              then s\<lparr>co_reservations := snd (release (rsr_reservation_id rel) (co_reservations s))\<rparr> else s
          | None \<Rightarrow> s)
      in respond_node conn rid kReservationReleaseAck (serialize_reservation_release_ack
           \<lparr>rsra_reservation_id = rsr_reservation_id rel, rsra_accepted = True, rsra_error = []\<rparr>) s1)"

section \<open>Clients\<close>

definition submit_response :: "bool \<Rightarrow> ComputeTaskId \<Rightarrow> string \<Rightarrow> byte list" where
  "submit_response accepted task error = serialize_task_submit_response
     \<lparr>tsr_accepted = accepted, tsr_task_id = task, tsr_error = error\<rparr>"

definition state_location_of :: "StateDependency \<Rightarrow> StateLocation" where
  "state_location_of dep =
     \<lparr>sl_state_id = sd_state_id dep, sl_generation = sd_generation dep, sl_size_bytes = sd_size_bytes dep,
      sl_resident_nodes = sd_resident_nodes dep, sl_locality_quality = sd_locality_quality dep,
      sl_transfer_estimate_seconds = sd_transfer_estimate_seconds dep,
      sl_recompute_estimate_seconds = sd_recompute_estimate_seconds dep, sl_compatibility = []\<rparr>"

definition record_workload :: "TaskSubmit \<Rightarrow> DurableState \<Rightarrow> DurableState" where
  "record_workload submit d =
     (if omap_has (ds_workloads d) (tsu_workload_id submit) then d
      else d\<lparr>ds_workloads := omap_put (tsu_workload_id submit)
             \<lparr>wl_id = tsu_workload_id submit, wl_name = tsu_workload_name submit, wl_user_tags = []\<rparr> (ds_workloads d)\<rparr>)"

definition accept_task :: "TaskSubmit \<Rightarrow> TaskGraph \<Rightarrow> Coordinator \<Rightarrow> Coordinator" where
  "accept_task submit g s =
     (let task = tsu_task submit;
          s1 = s\<lparr>co_graph := g, co_durable := record_workload submit (co_durable s),
                 co_state_locality := fold (sl_upsert \<circ> state_location_of) (t_state_dependencies task) (co_state_locality s)\<rparr>;
          initial = (if t_dependencies task = [] then TS_Ready else TS_Blocked);
          s2 = set_task (t_id task) initial s1
      in persist (tick (set_ready_at (t_id task) (now_millis s2) s2)))"

definition handle_task_submit :: "handle option \<Rightarrow> u64 \<Rightarrow> TaskSubmit \<Rightarrow> Coordinator \<Rightarrow> Coordinator" where
  "handle_task_submit conn rid submit s =
     (let task = tsu_task submit;
          reply = (\<lambda>accepted error s. respond_client conn rid kTaskSubmitResponse
            (submit_response accepted (t_id task) error) s)
      in if has_task (co_graph s) (t_id task) then reply True [] s
         else if co_stopping s then reply False ''coordinator shutting down'' s
         else if id_is_zero (t_id task) then reply False ''task id must be nonzero'' s
         else case find (\<lambda>d. \<not> has_task (co_graph s) d) (t_dependencies task) of
           Some d \<Rightarrow> reply False (''missing dependency: '' @ id_to_hex d) s
         | None \<Rightarrow>
             (case add_task task (co_graph s) of
                (Inl e, g) \<Rightarrow> reply False (err_message e) (s\<lparr>co_graph := g\<rparr>)
              | (Inr _, g) \<Rightarrow> reply True [] (accept_task submit g s)))"

definition handle_task_inspect :: "handle option \<Rightarrow> u64 \<Rightarrow> TaskInspect \<Rightarrow> Coordinator \<Rightarrow> Coordinator" where
  "handle_task_inspect conn rid inspect s =
     (let i = tin_task_id inspect;
          reply = (\<lambda>m s. respond_client conn rid kTaskInspectResponse (serialize_task_inspect_response m) s)
      in case find_task (co_graph s) i of
        None \<Rightarrow> reply \<lparr>tir_found = False, tir_task_id = i, tir_name = [], tir_task_class = TC_Generic,
            tir_state = TS_Submitted, tir_error = ''task not found'', tir_attempts = [], tir_retry_count = 0,
            tir_workload_id_hex = []\<rparr> s
      | Some task \<Rightarrow>
          let list = omap_get_or [] (co_attempts s) i;
              s1 = s\<lparr>co_attempts := omap_put i list (co_attempts s)\<rparr>
          in reply \<lparr>tir_found = True, tir_task_id = i, tir_name = t_name task, tir_task_class = t_task_class task,
               tir_state = task_state (co_graph s) i, tir_error = [], tir_attempts = list,
               tir_retry_count = of_nat (length list), tir_workload_id_hex = id_to_hex (t_workload task)\<rparr> s1)"

definition list_entry :: "TaskGraph \<Rightarrow> ComputeTaskId \<Rightarrow> ComputeTask \<Rightarrow> TaskListEntry" where
  "list_entry g i task =
     \<lparr>tle_task_id = i, tle_name = t_name task, tle_state = task_state g i, tle_task_class = t_task_class task,
      tle_priority = t_priority task\<rparr>"

definition list_tasks :: "TaskGraph \<Rightarrow> (ComputeTaskId \<Rightarrow> ComputeTask \<Rightarrow> bool) \<Rightarrow> TaskListEntry list" where
  "list_tasks g keep = concat (map (\<lambda>i. case find_task g i of None \<Rightarrow> []
     | Some task \<Rightarrow> if keep i task then [list_entry g i task] else []) (task_ids g))"

definition handle_task_list :: "handle option \<Rightarrow> u64 \<Rightarrow> TaskList \<Rightarrow> Coordinator \<Rightarrow> Coordinator" where
  "handle_task_list conn rid m s =
     (let filter_state = (if tl_filter_state m = [] then None else parse_task_state (tl_filter_state m));
          keep = (\<lambda>i _. case filter_state of None \<Rightarrow> True | Some st \<Rightarrow> task_state (co_graph s) i = st)
      in respond_client conn rid kTaskListResponse
           (serialize_task_list_response \<lparr>tlr_tasks = list_tasks (co_graph s) keep\<rparr>) s)"

definition live_attempt :: "ExecutionAttempt \<Rightarrow> bool" where
  "live_attempt a = (a_state a = AS_Started \<or> a_state a = AS_Dispatched)"

definition handle_task_cancel :: "handle option \<Rightarrow> u64 \<Rightarrow> TaskCancel \<Rightarrow> Coordinator \<Rightarrow> Coordinator" where
  "handle_task_cancel conn rid m s =
     (let i = tca_task_id m; st = task_state (co_graph s) i;
          reply = (\<lambda>found cancelled error s. respond_client conn rid kTaskCancelResponse
            (serialize_task_cancel_response \<lparr>tcr_found = found, tcr_cancelled = cancelled, tcr_error = error\<rparr>) s)
      in case find_task (co_graph s) i of
        None \<Rightarrow> reply False False ''task not found'' s
      | Some task \<Rightarrow>
          if is_terminal st then reply True False (''task already '' @ task_state_name st) s
          else if st = TS_Running then
            let list = omap_get_or [] (co_attempts s) i;
                s1 = s\<lparr>co_cancel_requested := omap_put i True (co_cancel_requested s),
                       co_attempts := omap_put i list (co_attempts s)\<rparr>;
                s2 = (case find live_attempt list of
                        None \<Rightarrow> s1
                      | Some a \<Rightarrow> send_to_node (a_node_id a) kAttemptCancel (serialize_attempt_cancel
                          \<lparr>atk_attempt_id = a_id a, atk_reason = ''task cancelled by client''\<rparr>) s1)
            in reply True True ''cancel requested; will take effect cooperatively'' s2
          else case set_state i TS_Cancelled (co_graph s) of
            (Inl e, g) \<Rightarrow> reply True False (err_message e) (s\<lparr>co_graph := g\<rparr>)
          | (Inr _, g) \<Rightarrow>
              let s1 = release_task_reservation i (s\<lparr>co_graph := g\<rparr>);
                  s2 = s1\<lparr>co_cancel_requested := omap_del i (co_cancel_requested s1)\<rparr>
              in reply True True [] (persist s2))"

definition handle_workload_inspect :: "handle option \<Rightarrow> u64 \<Rightarrow> WorkloadInspect \<Rightarrow> Coordinator \<Rightarrow> Coordinator" where
  "handle_workload_inspect conn rid m s =
     (let w = wi_workload_id m;
          reply = (\<lambda>r s. respond_client conn rid kWorkloadInspectResponse (serialize_workload_inspect_response r) s)
      in case map_of (ds_workloads (co_durable s)) w of
        None \<Rightarrow> reply \<lparr>wir_found = False, wir_workload_id = w, wir_name = [], wir_tasks = [],
                       wir_error = ''workload not found''\<rparr> s
      | Some wl \<Rightarrow> reply \<lparr>wir_found = True, wir_workload_id = w, wir_name = wl_name wl,
                       wir_tasks = list_tasks (co_graph s) (\<lambda>_ task. t_workload task = w), wir_error = []\<rparr> s)"

definition node_status :: "Coordinator \<Rightarrow> NodeId \<times> NodeRecord \<Rightarrow> NodeStatusEntry" where
  "node_status s e =
     (let i = fst e; rec = snd e in
      \<lparr>nse_node_id = i, nse_label = nc_label (n_capacity rec), nse_address = nc_address (n_capacity rec),
       nse_health = n_health rec, nse_connected = n_connected rec,
       nse_cpu_slots = nc_cpu_worker_slots (n_capacity rec), nse_cpu_used = used_slots (co_reservations s) i ET_Cpu,
       nse_session_epoch = n_session_epoch rec,
       nse_executors = map (\<lambda>cap. ec_name cap @ '':'' @ int_to_string (sint (ec_slots cap))) (nc_executors (n_capacity rec))\<rparr>)"

definition fabric_status :: "Coordinator \<Rightarrow> FabricStatusResponse" where
  "fabric_status s =
     (let g = co_graph s; count = (\<lambda>P. of_nat (length (filter (\<lambda>i. P (task_state g i)) (task_ids g)))) in
      \<lparr>fsr_coordinator_epoch = epoch s, fsr_policy = scheduler_policy_name (cfg_policy (co_config s)),
       fsr_node_count = of_nat (length (filter (\<lambda>e. n_connected (snd e)) (co_nodes s))),
       fsr_task_count = of_nat (graph_size g), fsr_running_count = count (\<lambda>st. st = TS_Running),
       fsr_reserved_count = of_nat (active_count (co_reservations s)), fsr_completed_count = count is_terminal,
       fsr_nodes = map (node_status s) (co_nodes s), fsr_error = []\<rparr>)"

definition handle_fabric_status :: "handle option \<Rightarrow> u64 \<Rightarrow> Coordinator \<Rightarrow> Coordinator" where
  "handle_fabric_status conn rid s =
     respond_client conn rid kFabricStatusResponse (serialize_fabric_status_response (fabric_status s)) s"

definition handle_placement_query :: "handle option \<Rightarrow> u64 \<Rightarrow> PlacementQuery \<Rightarrow> Coordinator \<Rightarrow> Coordinator" where
  "handle_placement_query conn rid pq s =
     respond_client conn rid kPlacementResponse (serialize_placement_response
       \<lparr>plr_found = True,
        plr_decision = place (co_scheduler s) (plq_task pq) (co_nodes s) (co_reservations s) (co_state_locality s),
        plr_error = []\<rparr>) s"

definition handle_node_list :: "handle option \<Rightarrow> u64 \<Rightarrow> Coordinator \<Rightarrow> Coordinator" where
  "handle_node_list conn rid s =
     respond_client conn rid kNodeListResponse
       (serialize_node_list_response \<lparr>nlr_nodes = map (node_status s) (co_nodes s)\<rparr>) s"

definition handle_node_drain :: "handle option \<Rightarrow> u64 \<Rightarrow> NodeDrain \<Rightarrow> Coordinator \<Rightarrow> Coordinator" where
  "handle_node_drain conn rid m s =
     (let i = ndr_node_id m;
          reply = (\<lambda>found accepted error s. respond_client conn rid kNodeDrainResponse
            (serialize_node_drain_response \<lparr>ndrr_found = found, ndrr_accepted = accepted, ndrr_error = error\<rparr>) s)
      in case map_of (co_nodes s) i of
        None \<Rightarrow> reply False False ''node not found'' s
      | Some rec \<Rightarrow>
          if n_health rec = NH_Offline then reply True False ''node offline'' s
          else reply True True [] (s\<lparr>co_nodes := omap_put i
                 (rec\<lparr>n_health := (if ndr_drain m then NH_Draining else NH_Online)\<rparr>) (co_nodes s)\<rparr>))"

definition shutdown_node :: "NodeId \<times> handle \<Rightarrow> Coordinator \<Rightarrow> Coordinator" where
  "shutdown_node e s =
     (case map_of (co_conns s) (snd e) of
        None \<Rightarrow> s
      | Some c \<Rightarrow>
          (case map_of (co_nodes s) (fst e) of
             None \<Rightarrow> s
           | Some rec \<Rightarrow>
               if conn_stop c \<or> \<not> n_connected rec then s
               else send_to_node (fst e) kNodeShutdown
                      (serialize_node_shutdown \<lparr>nsd_node_id = fst e, nsd_session_id = conn_session c\<rparr>) s))"

definition handle_coordinator_shutdown :: "handle option \<Rightarrow> u64 \<Rightarrow> Coordinator \<Rightarrow> Coordinator" where
  "handle_coordinator_shutdown conn rid s =
     (let s1 = respond_client conn rid kCoordinatorShutdownResponse
            (serialize_coordinator_shutdown_response \<lparr>csr_accepted = True, csr_error = []\<rparr>) s;
          s2 = fold shutdown_node (co_node_conns s1) s1;
          s3 = persist (s2\<lparr>co_stopping := True\<rparr>)
      in s3\<lparr>co_queue := CK_Shutdown # co_queue s3\<rparr>)"

section \<open>Sweep\<close>

definition kDispatchTimeoutMs :: int where "kDispatchTimeoutMs = 5000"

definition kSweepIntervalMs :: int where "kSweepIntervalMs = 20"

definition lost_attempt :: "NodeId \<Rightarrow> ExecutionAttempt \<Rightarrow> bool" where
  "lost_attempt node a = (a_node_id a = node \<and> \<not> a_committed a \<and> live_attempt a)"

definition lose_task :: "ComputeTaskId \<Rightarrow> Coordinator \<Rightarrow> Coordinator" where
  "lose_task task_id s =
     (case find_task (co_graph s) task_id of
        None \<Rightarrow> s
      | Some task \<Rightarrow>
          let s1 = set_task task_id TS_Lost s;
              s2 = (if rp_retry_on_node_loss (t_retry task) \<and> 1 < rp_max_attempts (t_retry task)
                    then schedule_retry task_id task s1 else set_task task_id TS_Failed s1)
          in release_task_reservation task_id s2)"

definition affected_tasks :: "NodeId \<Rightarrow> Coordinator \<Rightarrow> ComputeTaskId list" where
  "affected_tasks node s =
     concat (map (\<lambda>e. map (\<lambda>_. fst e) (filter (lost_attempt node) (snd e))) (co_attempts s))"

definition handle_node_loss :: "NodeId \<Rightarrow> Coordinator \<Rightarrow> Coordinator" where
  "handle_node_loss node s =
     (case map_of (co_nodes s) node of
        None \<Rightarrow> s
      | Some rec \<Rightarrow>
          if n_health rec = NH_Offline then s
          else
            let s1 = s\<lparr>co_nodes := omap_put node (rec\<lparr>n_health := NH_Offline, n_connected := False\<rparr>) (co_nodes s)\<rparr>;
                s2 = (if n_id rec = id_zero then s1
                      else case map_of (co_node_conns s1) node of None \<Rightarrow> s1 | Some h \<Rightarrow> stop_connection h s1);
                s3 = s2\<lparr>co_reservations := release_all_for_node node (co_reservations s2)\<rparr>
            in persist (fold lose_task (affected_tasks node s3) s3))"

definition lost_nodes :: "i64 \<Rightarrow> Coordinator \<Rightarrow> NodeId list" where
  "lost_nodes now s =
     concat (map (\<lambda>e. let rec = snd e;
          expired = sint (cfg_heartbeat_timeout_ms (co_config s)) < sint (now - n_last_heartbeat_ms rec) in
        (if n_connected rec \<and> expired then [fst e] else []) @
        (if \<not> n_connected rec \<and> expired \<and> n_health rec \<noteq> NH_Offline then [fst e] else [])) (co_nodes s))"

definition stale_dispatches :: "i64 \<Rightarrow> Coordinator \<Rightarrow> ComputeTaskId list" where
  "stale_dispatches now s = map fst (filter (\<lambda>e. task_state (co_graph s) (fst e) = TS_Dispatching \<and>
     kDispatchTimeoutMs < sint (now - snd e)) (co_dispatch_at_ms s))"

definition requeue_dispatch :: "i64 \<Rightarrow> ComputeTaskId \<Rightarrow> Coordinator \<Rightarrow> Coordinator" where
  "requeue_dispatch now i s = persist (set_ready_at i now (set_task i TS_Ready (release_task_reservation i s)))"

definition requeue_retry :: "i64 \<Rightarrow> ComputeTaskId \<times> i64 \<Rightarrow> Coordinator \<Rightarrow> Coordinator" where
  "requeue_retry now e s =
     (if task_state (co_graph s) (fst e) = TS_RetryPending \<and> sint (snd e) \<le> sint now
      then persist (set_ready_at (fst e) now (set_task (fst e) TS_Ready s))
      else s)"

definition expire_task :: "i64 \<Rightarrow> ComputeTaskId \<Rightarrow> Coordinator \<Rightarrow> Coordinator" where
  "expire_task now i s =
     (case find_task (co_graph s) i of
        None \<Rightarrow> s
      | Some t \<Rightarrow>
          if \<not> t_has_deadline t then s
          else if (task_state (co_graph s) i = TS_Ready \<or> task_state (co_graph s) i = TS_Blocked \<or>
                   task_state (co_graph s) i = TS_RetryPending) \<and> sint (t_deadline_epoch_ms t) \<le> sint now
          then persist (set_task i TS_Expired (release_task_reservation i s))
          else s)"

definition sweep :: "Coordinator \<Rightarrow> Coordinator" where
  "sweep s =
     (let now = now_millis s; s0 = tick s;
          s1 = fold handle_node_loss (lost_nodes now s0) s0;
          s2 = fold (requeue_dispatch now) (stale_dispatches now s1) s1;
          s3 = fold (requeue_retry now) (co_retry_ready_at_ms s2) s2;
          s4 = fold (expire_task now) (task_ids (co_graph s3)) s3
      in schedule_ready_tasks s4)"

section \<open>The core loop\<close>

definition process :: "CoreCommand \<Rightarrow> Coordinator \<Rightarrow> Coordinator" where
  "process cmd s =
     (case cmd of
        CK_NodeRegister conn rid m \<Rightarrow> handle_node_register conn rid m s
      | CK_NodeHeartbeat conn rid m \<Rightarrow> handle_node_heartbeat conn rid m s
      | CK_NodeShutdownMsg conn rid node \<Rightarrow> handle_node_shutdown_msg conn rid node s
      | CK_NodeDisconnected conn node \<Rightarrow> handle_node_disconnect node conn s
      | CK_DispatchAck conn rid m \<Rightarrow> handle_dispatch_ack m s
      | CK_AttemptStarted conn rid m \<Rightarrow> handle_attempt_started m s
      | CK_AttemptProgress conn rid m \<Rightarrow> s
      | CK_AttemptComplete conn rid m \<Rightarrow> handle_attempt_complete conn rid m s
      | CK_AttemptFailed conn rid m \<Rightarrow> handle_attempt_failed conn rid m s
      | CK_AttemptCancelled conn rid m \<Rightarrow> handle_attempt_cancelled m s
      | CK_ReservationRelease conn rid m \<Rightarrow> handle_reservation_release conn rid m s
      | CK_ClientConnected conn client \<Rightarrow>
          (case conn of None \<Rightarrow> s
           | Some h \<Rightarrow>
               if \<not> conn_live s h then s
               else
                 let s1 = (case map_of (co_client_conns s) client of
                        Some old \<Rightarrow> if old \<noteq> h then stop_connection old s else s | None \<Rightarrow> s)
                 in s1\<lparr>co_client_conns := omap_put client h (co_client_conns s1)\<rparr>)
      | CK_ClientTaskSubmit conn rid m \<Rightarrow> handle_task_submit conn rid m s
      | CK_ClientTaskInspect conn rid m \<Rightarrow> handle_task_inspect conn rid m s
      | CK_ClientTaskList conn rid m \<Rightarrow> handle_task_list conn rid m s
      | CK_ClientTaskCancel conn rid m \<Rightarrow> handle_task_cancel conn rid m s
      | CK_ClientWorkloadInspect conn rid m \<Rightarrow> handle_workload_inspect conn rid m s
      | CK_ClientFabricStatus conn rid m \<Rightarrow> handle_fabric_status conn rid s
      | CK_ClientPlacementQuery conn rid m \<Rightarrow> handle_placement_query conn rid m s
      | CK_ClientNodeList conn rid \<Rightarrow> handle_node_list conn rid s
      | CK_ClientNodeDrain conn rid m \<Rightarrow> handle_node_drain conn rid m s
      | CK_ClientCoordinatorShutdown conn rid \<Rightarrow> handle_coordinator_shutdown conn rid s
      | CK_ClientDisconnected conn client \<Rightarrow>
          if map_of (co_client_conns s) client \<noteq> None \<and> map_of (co_client_conns s) client = conn
          then s\<lparr>co_client_conns := omap_del client (co_client_conns s)\<rparr> else s
      | CK_Sweep \<Rightarrow> s
      | CK_Shutdown \<Rightarrow> s)"

definition maybe_sweep :: "Coordinator \<Rightarrow> Coordinator" where
  "maybe_sweep s =
     (let now = now_millis s; s1 = tick s in
      if kSweepIntervalMs \<le> sint (now - co_last_sweep s1) then sweep (s1\<lparr>co_last_sweep := now\<rparr>) else s1)"

text \<open>One iteration of \<open>core_loop\<close>.\<close>

definition core_iteration :: "Coordinator \<Rightarrow> Coordinator" where
  "core_iteration s =
     (case co_queue s of
        [] \<Rightarrow> maybe_sweep s
      | cmd # rest \<Rightarrow>
          let s1 = s\<lparr>co_queue := rest\<rparr> in
          if cmd = CK_Shutdown then s1\<lparr>co_core_running := False\<rparr> else maybe_sweep (process cmd s1))"

section \<open>Start and stop\<close>

definition add_all_tasks :: "ComputeTask list \<Rightarrow> TaskGraph \<Rightarrow> TaskGraph result" where
  "add_all_tasks ts g =
     foldl (\<lambda>r t. case r of Inl e \<Rightarrow> Inl e
       | Inr g \<Rightarrow> (case add_task t g of (Inl e, _) \<Rightarrow> Inl (corrupt (err_message e)) | (Inr _, g') \<Rightarrow> Inr g')) (Inr g) ts"

definition recover_task :: "ComputeTaskId \<times> ComputeTask \<Rightarrow> Coordinator \<Rightarrow> Coordinator" where
  "recover_task e s =
     (if \<not> is_active (task_state (co_graph s) (fst e)) then s
      else case set_state (fst e) TS_Lost (co_graph s) of
        (Inl _, g) \<Rightarrow> s\<lparr>co_graph := g\<rparr>
      | (Inr _, g) \<Rightarrow>
          let s1 = s\<lparr>co_graph := g\<rparr>; task = snd e in
          if rp_retry_on_node_loss (t_retry task) \<and> 1 < rp_max_attempts (t_retry task)
          then schedule_retry (fst e) task s1 else set_task (fst e) TS_Failed s1)"

text \<open>
  The members of a newly constructed coordinator: everything empty except the configured policy and
  what it reads from outside.
\<close>

definition new_coordinator :: "CoordinatorConfig \<Rightarrow> FileSystem \<Rightarrow> (nat \<Rightarrow> i64) \<Rightarrow> (nat \<Rightarrow> Id128) \<Rightarrow>
    (nat \<Rightarrow> write_outcome) \<Rightarrow> Coordinator" where
  "new_coordinator config fs clock random writes =
     \<lparr>co_config = config, co_durable = default_durable, co_graph = graph_empty, co_reservations = [],
      co_state_locality = [], co_scheduler = set_policy (cfg_policy config) default_engine, co_nodes = [],
      co_attempts = [], co_retry_ready_at_ms = [], co_ready_at_ms = [], co_dispatch_at_ms = [],
      co_cancel_requested = [], co_last_placements = [], co_placement_records = [], co_task_reservation = [],
      co_attempt_by_reservation = [], co_node_conns = [], co_client_conns = [], co_conns = [], co_queue = [],
      co_stopping = False, co_core_running = False, co_last_sweep = 0, co_placement_sequence = 0, co_fs = fs,
      co_clock = clock, co_ticks = 0, co_random = random, co_drawn = 0, co_writes = writes, co_saves = 0\<rparr>"

definition restore_durable :: "DurableState \<Rightarrow> TaskGraph \<Rightarrow> Coordinator \<Rightarrow> Coordinator" where
  "restore_durable d g s =
     (let g1 = fold (\<lambda>e g. if has_task g (fst e) then restore_state (fst e) (snd e) g else g) (ds_task_states d) g
      in s\<lparr>co_durable := d, co_graph := g1,
           co_attempts := foldl (\<lambda>m e. omap_put (fst e) (snd e) m) (co_attempts s) (ds_attempts d),
           co_last_placements := foldl (\<lambda>m sp. omap_put (sp_task_id sp) (sp_decision sp) m)
             (co_last_placements s) (ds_placements d)\<rparr>)"

text \<open>
  \<open>start\<close>, from opening the store to the first persist. The two sockets are bound in between; an error
  there ends the call before anything is written, and is the second argument.
\<close>

definition coordinator_start :: "bool \<Rightarrow> Error option \<Rightarrow> Coordinator \<Rightarrow> Coordinator result" where
  "coordinator_start mkdir_ok bind_error s =
     (let path = cfg_store_dir (co_config s) in
      case store_open path True mkdir_ok (co_writes s (co_saves s)) (co_fs s) of
        (Inl e, _) \<Rightarrow> Inl e
      | (Inr file, fs) \<Rightarrow>
          (case store_load file fs of
             Inl e \<Rightarrow> Inl e
           | Inr loaded \<Rightarrow>
               let d = loaded\<lparr>ds_epoch := (if ds_epoch loaded = 0 then 1 else ds_epoch loaded + 1)\<rparr> in
               (case add_all_tasks (map snd (ds_tasks d)) (co_graph s) of
                  Inl e \<Rightarrow> Inl e
                | Inr g \<Rightarrow>
                    let s1 = fold recover_task (ds_tasks d)
                          (restore_durable d g (s\<lparr>co_fs := fs, co_saves := Suc (co_saves s)\<rparr>)) in
                    (case bind_error of
                       Some e \<Rightarrow> Inl e
                     | None \<Rightarrow> Inr ((persist s1)\<lparr>co_core_running := True\<rparr>)))))"

text \<open>The core thread starts by noting the time.\<close>

definition core_loop_enter :: "Coordinator \<Rightarrow> Coordinator" where
  "core_loop_enter s = tick (s\<lparr>co_last_sweep := now_millis s\<rparr>)"

text \<open>
  \<open>stop\<close>: Shutdown goes to the front of the queue, every accepted connection is stopped, the core
  thread is waited for (it takes Shutdown next), and what is left in the queue is dropped.
\<close>

definition coordinator_stop :: "Coordinator \<Rightarrow> Coordinator" where
  "coordinator_stop s =
     (let s1 = s\<lparr>co_stopping := True, co_queue := CK_Shutdown # co_queue s\<rparr>;
          s2 = s1\<lparr>co_conns := omap_map stop_conn (co_conns s1)\<rparr>;
          s3 = (if co_core_running s2 then core_iteration s2 else s2)
      in s3\<lparr>co_queue := [], co_node_conns := [], co_client_conns := []\<rparr>)"

end
