(* ===== verification/Ledger.thy ===== *)
theory Ledger
  imports Coordinator
begin

text \<open>
  What the coordinator promises about tasks and their attempts, as an abstract specification: the
  ledger is the task graph with the attempts filed per task, and \<open>ledger_step\<close> lists the only ways
  it may change. Every command the core thread processes is a sequence of such steps; the invariant
  and the permanence of results are proved once, for the steps.
\<close>

section \<open>Specification\<close>

type_synonym attempts = "(ComputeTaskId, ExecutionAttempt list) omap"

type_synonym ledger = "TaskGraph \<times> attempts"

definition ledger_of :: "Coordinator \<Rightarrow> ledger" where
  "ledger_of s = (co_graph s, co_attempts s)"

definition attempts_of :: "attempts \<Rightarrow> ComputeTaskId \<Rightarrow> ExecutionAttempt list" where
  "attempts_of m i = omap_get_or [] m i"

text \<open>A task that has left the waiting states.\<close>

definition past_waiting :: "TaskState \<Rightarrow> bool" where
  "past_waiting st = (st \<noteq> TS_Submitted \<and> st \<noteq> TS_Blocked)"

text \<open>The same attempt, possibly further along; and a further state that leaves its result alone.\<close>

definition same_attempt :: "ExecutionAttempt \<Rightarrow> ExecutionAttempt \<Rightarrow> bool" where
  "same_attempt a b =
     (a_id b = a_id a \<and> a_task_id b = a_task_id a \<and> a_node_id b = a_node_id a \<and>
      a_node_session b = a_node_session a \<and> a_coordinator_epoch b = a_coordinator_epoch a \<and>
      a_reservation_id b = a_reservation_id a \<and> a_executor b = a_executor a \<and>
      a_attempt_number b = a_attempt_number a)"

definition same_result :: "ExecutionAttempt \<Rightarrow> ExecutionAttempt \<Rightarrow> bool" where
  "same_result a b =
     (a_committed b \<and> a_output_size b = a_output_size a \<and> a_output_integrity b = a_output_integrity a \<and>
      a_cpu_millis b = a_cpu_millis a \<and> a_bytes_transferred b = a_bytes_transferred a)"

definition revises :: "ExecutionAttempt \<Rightarrow> ExecutionAttempt \<Rightarrow> bool" where
  "revises a b = (same_attempt a b \<and> a_committed b = a_committed a \<and> (a_committed a \<longrightarrow> same_result a b))"

definition put_attempt :: "attempt_ref \<Rightarrow> ExecutionAttempt \<Rightarrow> attempts \<Rightarrow> attempts" where
  "put_attempt p a m = omap_put (fst p) ((attempts_of m (fst p))[snd p := a]) m"

text \<open>The flag says whether an attempt may be committed.\<close>

inductive ledger_step :: "bool \<Rightarrow> ledger \<Rightarrow> ledger \<Rightarrow> bool" for C where
  move: "st \<noteq> TS_Ready \<Longrightarrow> st \<noteq> TS_Succeeded \<Longrightarrow> ledger_step C (g, m) (snd (set_state i st g), m)"
| make_ready: "dependencies_satisfied g i \<or> past_waiting (task_state g i) \<Longrightarrow>
    ledger_step C (g, m) (snd (set_state i TS_Ready g), m)"
| add: "ledger_step C (g, m) (snd (add_task t g), m)"
| open_attempts: "has_task g i \<Longrightarrow> ledger_step C (g, m) (g, omap_put i (attempts_of m i) m)"
| new_attempt: "task_state g i = TS_Reserved \<Longrightarrow> a_task_id a = i \<Longrightarrow> \<not> a_committed a \<Longrightarrow>
    ledger_step C (g, m) (g, omap_put i (attempts_of m i @ [a]) m)"
| revise: "p \<in> set (attempt_refs m) \<Longrightarrow> revises (attempt_at m p) a \<Longrightarrow> ledger_step C (g, m) (g, put_attempt p a m)"
| commit: "C \<Longrightarrow> p \<in> set (attempt_refs m) \<Longrightarrow> same_attempt (attempt_at m p) a \<Longrightarrow> \<not> a_committed (attempt_at m p) \<Longrightarrow>
    a_committed a \<Longrightarrow> task_state g (a_task_id a) = TS_Running \<or> task_state g (a_task_id a) = TS_Dispatching \<Longrightarrow>
    ledger_step C (g, m) (snd (set_state (a_task_id a) TS_Succeeded g), put_attempt p a m)"

inductive_cases ledger_stepE: "ledger_step C l l'"

abbreviation ledger_steps :: "bool \<Rightarrow> ledger \<Rightarrow> ledger \<Rightarrow> bool" where
  "ledger_steps C \<equiv> (ledger_step C)\<^sup>*\<^sup>*"

section \<open>The invariant\<close>

definition filed :: "attempts \<Rightarrow> bool" where
  "filed m = (omap_ok m \<and> (\<forall>i. \<forall>a \<in> set (attempts_of m i). a_task_id a = i))"

definition attempted :: "ledger \<Rightarrow> bool" where
  "attempted l = (\<forall>i. attempts_of (snd l) i \<noteq> [] \<longrightarrow> has_task (fst l) i \<and> past_waiting (task_state (fst l) i))"

definition ordered :: "TaskGraph \<Rightarrow> bool" where
  "ordered g = (\<forall>i. has_task g i \<longrightarrow>
     task_state g i \<in> {TS_Submitted, TS_Blocked, TS_Cancelled, TS_Expired} \<or> dependencies_satisfied g i)"

definition results_kept :: "ledger \<Rightarrow> bool" where
  "results_kept l = (\<forall>i. task_state (fst l) i = TS_Succeeded \<longrightarrow> (\<exists>a \<in> set (attempts_of (snd l) i). a_committed a))"

definition ledger_inv :: "ledger \<Rightarrow> bool" where
  "ledger_inv l = (graph_inv (fst l) \<and> filed (snd l) \<and> attempted l \<and> ordered (fst l) \<and> results_kept l)"

section \<open>Lookups after a step\<close>

lemma attempts_of_put [simp]: "attempts_of (omap_put i v m) k = (if k = i then v else attempts_of m k)"
  by (simp add: attempts_of_def)

lemma attempts_of_put_attempt [simp]:
  "attempts_of (put_attempt p a m) k = (if k = fst p then (attempts_of m k)[snd p := a] else attempts_of m k)"
  by (simp add: put_attempt_def)

lemma attempt_at_nth: "attempt_at m p = attempts_of m (fst p) ! snd p"
  by (simp add: attempt_at_def attempts_of_def)

lemma attempt_refs_iff:
  assumes "omap_ok m"
  shows "p \<in> set (attempt_refs m) \<longleftrightarrow> snd p < length (attempts_of m (fst p))"
proof -
  have "p \<in> set (attempt_refs m) \<longleftrightarrow> (\<exists>l. (fst p, l) \<in> set m \<and> snd p < length l)"
    by (cases p) (force simp: attempt_refs_def image_iff)
  also have "\<dots> \<longleftrightarrow> snd p < length (attempts_of m (fst p))"
    by (auto simp: omap_in_set [OF assms] attempts_of_def omap_get_or_def split: option.splits)
  finally show ?thesis .
qed

lemma state_after_set:
  "task_state (snd (set_state i st g)) k =
     (if k = i \<and> omap_has (g_states g) i \<and> is_legal (task_state g i) st then st else task_state g k)"
  by (auto simp: set_state_def task_state_def omap_has_def split: option.splits)

lemma deps_after_set [simp]: "dependencies (snd (set_state i st g)) k = dependencies g k"
  by (simp add: dependencies_def set_state_simps)

lemma has_task_after_set [simp]: "has_task (snd (set_state i st g)) k = has_task g k"
  by (simp add: has_task_def set_state_simps)

lemma find_task_after_set [simp]: "find_task (snd (set_state i st g)) k = find_task g k"
  by (simp add: find_task_def set_state_simps)

lemma has_state:
  "graph_inv g \<Longrightarrow> omap_has (g_states g) i = has_task g i"
  by (simp add: graph_inv_def has_task_def)

lemma no_state: "graph_inv g \<Longrightarrow> \<not> has_task g i \<Longrightarrow> task_state g i = TS_Submitted"
  using graph_inv_fresh(2) by (simp add: task_state_def)

lemma satisfied_iff: "dependencies_satisfied g i \<longleftrightarrow> (\<forall>d \<in> set (dependencies g i). task_state g d = TS_Succeeded)"
  by (auto simp: dependencies_satisfied_def dependencies_def list_all_iff task_state_def split: option.splits)

lemma satisfied_mono:
  assumes "dependencies_satisfied g i" "set (dependencies g' i) = set (dependencies g i)"
    "\<And>d. task_state g d = TS_Succeeded \<Longrightarrow> task_state g' d = TS_Succeeded"
  shows "dependencies_satisfied g' i"
  using assms by (simp add: satisfied_iff)

lemma succeeded_stays [simp]: "is_legal TS_Succeeded st \<longleftrightarrow> st = TS_Succeeded"
  by (auto simp: is_legal_def)

lemma succeeded_after_set: "task_state g d = TS_Succeeded \<Longrightarrow> task_state (snd (set_state i st g)) d = TS_Succeeded"
  by (auto simp: state_after_set)

lemma past_waiting_legal: "past_waiting s \<Longrightarrow> is_legal s t \<Longrightarrow> past_waiting t"
  by (auto simp: past_waiting_def enum_simps)

lemma past_waiting_after_set: "past_waiting (task_state g k) \<Longrightarrow> past_waiting (task_state (snd (set_state i st g)) k)"
  using past_waiting_legal by (auto simp: state_after_set)

lemma add_task_graph:
  assumes "graph_inv g"
  obtains "g_tasks (snd (add_task t g)) = g_tasks g" "g_states (snd (add_task t g)) = g_states g"
    "g_deps (snd (add_task t g)) = g_deps g"
  | "\<not> has_task g (t_id t)" "snd (add_task t g) = insert_task t g"
  by (rule add_task_cases [OF assms, of t]) (simp_all add: rollback_simps [OF assms] del: erase_task_simps)

lemma add_task_lookups:
  assumes "graph_inv g"
  shows "has_task g k \<Longrightarrow> find_task (snd (add_task t g)) k = find_task g k"
    and "task_state (snd (add_task t g)) k = task_state g k"
    and "has_task g k \<Longrightarrow> set (dependencies (snd (add_task t g)) k) = set (dependencies g k)"
proof -
  have new: "task_state g (t_id t) = TS_Submitted" if "\<not> has_task g (t_id t)"
    by (rule no_state [OF assms that])
  have "(has_task g k \<longrightarrow> find_task (snd (add_task t g)) k = find_task g k) \<and>
      task_state (snd (add_task t g)) k = task_state g k \<and>
      (has_task g k \<longrightarrow> set (dependencies (snd (add_task t g)) k) = set (dependencies g k))"
  proof (rule add_task_graph [OF assms, of t])
    assume "\<not> has_task g (t_id t)" "snd (add_task t g) = insert_task t g"
    then show ?thesis using new
      by (auto simp: find_task_def task_state_def insert_task_simps [OF assms])
  qed (simp add: find_task_def task_state_def dependencies_def)
  then show "has_task g k \<Longrightarrow> find_task (snd (add_task t g)) k = find_task g k"
    and "task_state (snd (add_task t g)) k = task_state g k"
    and "has_task g k \<Longrightarrow> set (dependencies (snd (add_task t g)) k) = set (dependencies g k)"
    by blast+
qed

section \<open>Steps keep the invariant\<close>

lemma ordered_set:
  assumes "ordered g" "graph_inv g" "st \<noteq> TS_Ready \<and> st \<noteq> TS_Succeeded \<or> dependencies_satisfied g i \<or> past_waiting (task_state g i)"
  shows "ordered (snd (set_state i st g))"
  unfolding ordered_def
proof (intro allI impI)
  fix k
  assume k: "has_task (snd (set_state i st g)) k"
  let ?g = "snd (set_state i st g)"
  have keep: "dependencies_satisfied g k \<Longrightarrow> dependencies_satisfied ?g k"
    by (erule satisfied_mono) (auto intro: succeeded_after_set)
  have old: "task_state g k \<in> {TS_Submitted, TS_Blocked, TS_Cancelled, TS_Expired} \<or> dependencies_satisfied g k"
    using assms(1) k by (simp add: ordered_def)
  show "task_state ?g k \<in> {TS_Submitted, TS_Blocked, TS_Cancelled, TS_Expired} \<or> dependencies_satisfied ?g k"
  proof (cases "dependencies_satisfied g k")
    case False
    then show ?thesis using old assms(3)
      by (auto simp: state_after_set past_waiting_def is_legal_def)
  qed (simp add: keep)
qed

lemma ordered_add:
  assumes "ordered g" "graph_inv g"
  shows "ordered (snd (add_task t g))"
  unfolding ordered_def
proof (intro allI impI)
  fix k
  note look = add_task_lookups [OF assms(2), where t = t]
  have "dependencies_satisfied (snd (add_task t g)) k" if "has_task g k" "dependencies_satisfied g k"
    using that(2) by (rule satisfied_mono) (use that(1) look in auto)
  then show "task_state (snd (add_task t g)) k \<in> {TS_Submitted, TS_Blocked, TS_Cancelled, TS_Expired} \<or>
      dependencies_satisfied (snd (add_task t g)) k"
    using assms look(2) [of k] no_state [OF assms(2)] by (cases "has_task g k") (auto simp: ordered_def)
qed

lemma attempted_set: "attempted (g, m) \<Longrightarrow> attempted (snd (set_state i st g), m)"
  by (simp add: attempted_def past_waiting_after_set)

lemma attempted_add:
  assumes "attempted (g, m)" "graph_inv g"
  shows "attempted (snd (add_task t g), m)"
  using assms add_task_lookups(1,2) [OF assms(2), where t = t]
  by (auto simp: attempted_def has_task_def find_task_def omap_has_def)

lemma filed_put_attempt:
  assumes "filed m" "p \<in> set (attempt_refs m)" "same_attempt (attempt_at m p) a"
  shows "filed (put_attempt p a m)"
proof -
  have p: "snd p < length (attempts_of m (fst p))"
    using assms(1,2) by (simp add: filed_def attempt_refs_iff)
  then have "a_task_id a = fst p"
    using assms(1,3) nth_mem [OF p] by (simp add: filed_def same_attempt_def attempt_at_nth)
  then show ?thesis using assms(1)
    by (auto simp: filed_def put_attempt_def dest: set_update_subset_insert [THEN subsetD])
qed

lemma attempted_put_attempt: "attempted (g, m) \<Longrightarrow> attempted (g, put_attempt p a m)"
  by (simp add: attempted_def)

lemma in_set_update_other:
  assumes "x \<in> set xs" "\<not> (n < length xs \<and> x = xs ! n)"
  shows "x \<in> set (xs[n := y])"
proof -
  from assms obtain k where k: "k < length xs" "x = xs ! k" "k \<noteq> n" by (metis in_set_conv_nth)
  then have "xs[n := y] ! k = x" by simp
  with k show ?thesis by (metis length_list_update nth_mem)
qed

lemma results_put_attempt:
  assumes "results_kept (g, m)" "p \<in> set (attempt_refs m)" "filed m" "a_committed (attempt_at m p) \<Longrightarrow> a_committed a"
  shows "results_kept (g, put_attempt p a m)"
proof -
  have p: "snd p < length (attempts_of m (fst p))" using assms(2,3) by (simp add: filed_def attempt_refs_iff)
  have "\<exists>x \<in> set (attempts_of (put_attempt p a m) i). a_committed x"
    if x: "x \<in> set (attempts_of m i)" "a_committed x" for i x
  proof (cases "i = fst p \<and> x = attempt_at m p")
    case True
    then show ?thesis using assms(4) p x by (auto intro!: bexI [of _ a] set_update_memI)
  next
    case False
    then have "x \<in> set (attempts_of (put_attempt p a m) i)"
      using x p by (auto simp: attempt_at_nth intro: in_set_update_other)
    then show ?thesis using x by blast
  qed
  then show ?thesis using assms(1) unfolding results_kept_def by (metis fst_conv snd_conv)
qed

lemma results_set:
  assumes "results_kept (g, m)" "st = TS_Succeeded \<Longrightarrow> (\<exists>a \<in> set (attempts_of m i). a_committed a)"
  shows "results_kept (snd (set_state i st g), m)"
  using assms by (auto simp: results_kept_def state_after_set split: if_splits)

lemma ledger_step_inv:
  assumes "ledger_step C l l'" "ledger_inv l"
  shows "ledger_inv l'"
  using assms(1)
proof cases
  case (commit p m a g)
  have inv: "graph_inv g" "filed m" "attempted (g, m)" "ordered g" "results_kept (g, m)"
    using assms(2) commit(1) by (auto simp: ledger_inv_def)
  note f = filed_put_attempt [OF inv(2) commit(4,5)]
  have p: "snd p < length (attempts_of m (fst p))" using inv(2) commit(4) by (simp add: filed_def attempt_refs_iff)
  have "a_task_id a = fst p"
    using inv(2) commit(5) nth_mem [OF p] by (simp add: filed_def same_attempt_def attempt_at_nth)
  then have "\<exists>x \<in> set (attempts_of (put_attempt p a m) (a_task_id a)). a_committed x"
    using p commit(7) by (auto intro!: bexI [of _ a] set_update_memI)
  then show ?thesis unfolding commit(2) ledger_inv_def
    using inv f commit(4-8) by (auto intro!: set_state_inv attempted_set attempted_put_attempt ordered_set
        results_set results_put_attempt simp: past_waiting_def)
next
  case (new_attempt g i a m)
  then have "has_task g i" using no_state [of g i] assms(2) by (auto simp: ledger_inv_def)
  then show ?thesis using assms(2) new_attempt
    by (auto simp: ledger_inv_def filed_def attempted_def results_kept_def past_waiting_def)
next
  case (revise p m a g)
  then show ?thesis using assms(2)
    by (auto simp: ledger_inv_def revises_def intro!: filed_put_attempt attempted_put_attempt results_put_attempt)
next
  case (add g m t)
  then show ?thesis using assms(2)
    by (auto simp: ledger_inv_def results_kept_def add_task_lookups(2) intro!: add_task_inv attempted_add ordered_add)
next
  case (open_attempts g i m)
  then show ?thesis using assms(2)
    by (auto simp: ledger_inv_def filed_def attempted_def results_kept_def)
qed (use assms(2) in \<open>auto simp: ledger_inv_def intro!: set_state_inv attempted_set ordered_set results_set\<close>)

lemma ledger_steps_inv: "ledger_steps C l l' \<Longrightarrow> ledger_inv l \<Longrightarrow> ledger_inv l'"
  by (induction rule: rtranclp_induct) (auto intro: ledger_step_inv)

section \<open>Steps keep results\<close>

text \<open>
  What is never lost: accepted tasks, final states, attempts and what they were recorded with, and the
  result of a committed attempt. A succeeded task gets no further attempt and no further commit.
\<close>

definition attempt_kept :: "ExecutionAttempt \<Rightarrow> ExecutionAttempt \<Rightarrow> bool" where
  "attempt_kept a b = (same_attempt a b \<and> (a_committed a \<longrightarrow> same_result a b))"

definition ledger_keeps :: "ledger \<Rightarrow> ledger \<Rightarrow> bool" where
  "ledger_keeps l l' =
     ((\<forall>i t. find_task (fst l) i = Some t \<longrightarrow> find_task (fst l') i = Some t) \<and>
      (\<forall>i. has_task (fst l) i \<and> absorbing (task_state (fst l) i) \<longrightarrow> task_state (fst l') i = task_state (fst l) i) \<and>
      (\<forall>i. past_waiting (task_state (fst l) i) \<longrightarrow> past_waiting (task_state (fst l') i)) \<and>
      (\<forall>i n. n < length (attempts_of (snd l) i) \<longrightarrow> n < length (attempts_of (snd l') i) \<and>
         attempt_kept (attempts_of (snd l) i ! n) (attempts_of (snd l') i ! n)) \<and>
      (\<forall>i. task_state (fst l) i = TS_Succeeded \<longrightarrow>
         map a_committed (attempts_of (snd l') i) = map a_committed (attempts_of (snd l) i)))"

lemma attempt_kept_refl [simp]: "attempt_kept a a"
  by (simp add: attempt_kept_def same_attempt_def same_result_def)

lemma attempt_kept_trans: "attempt_kept a b \<Longrightarrow> attempt_kept b c \<Longrightarrow> attempt_kept a c"
  by (auto simp: attempt_kept_def same_attempt_def same_result_def)

lemma ledger_keeps_refl: "ledger_keeps l l"
  by (simp add: ledger_keeps_def)

lemma has_task_find: "has_task g i \<longleftrightarrow> (\<exists>t. find_task g i = Some t)"
  by (simp add: has_task_def find_task_def omap_has_def)

lemma ledger_keeps_trans:
  assumes "ledger_keeps l l'" "ledger_keeps l' l''" "graph_inv (fst l)"
  shows "ledger_keeps l l''"
proof -
  note k1 = assms(1) [unfolded ledger_keeps_def] and k2 = assms(2) [unfolded ledger_keeps_def]
  have has: "has_task (fst l') i" if "has_task (fst l) i" for i
    using k1 that by (auto simp: has_task_find)
  have suc: "task_state (fst l') i = TS_Succeeded" if "task_state (fst l) i = TS_Succeeded" for i
    using k1 that no_state [OF assms(3), of i] by (cases "has_task (fst l) i") (auto simp: absorbing_def)
  have "map a_committed (attempts_of (snd l'') i) = map a_committed (attempts_of (snd l) i)"
    if "task_state (fst l) i = TS_Succeeded" for i
    using k1 k2 that suc [OF that] by simp
  moreover have "task_state (fst l'') i = task_state (fst l) i"
    if "has_task (fst l) i \<and> absorbing (task_state (fst l) i)" for i
    using k1 k2 that has by simp
  moreover have "n < length (attempts_of (snd l'') i) \<and>
      attempt_kept (attempts_of (snd l) i ! n) (attempts_of (snd l'') i ! n)"
    if "n < length (attempts_of (snd l) i)" for i n
    using k1 k2 that attempt_kept_trans by blast
  ultimately show ?thesis using k1 k2 by (simp add: ledger_keeps_def)
qed

lemma keeps_set:
  assumes "graph_inv g"
  shows "ledger_keeps (g, m) (snd (set_state i st g), m)"
proof -
  have "absorbing (task_state g k) \<Longrightarrow> task_state (snd (set_state i st g)) k = task_state g k" for k
    using absorbing_iff [of "task_state g k"] by (auto simp: state_after_set)
  then show ?thesis by (auto simp: ledger_keeps_def intro: past_waiting_after_set)
qed

lemma keeps_put_attempt:
  assumes "filed m" "p \<in> set (attempt_refs m)" "same_attempt (attempt_at m p) a"
    "a_committed (attempt_at m p) \<Longrightarrow> same_result (attempt_at m p) a"
    "task_state g (a_task_id a) = TS_Succeeded \<Longrightarrow> a_committed a = a_committed (attempt_at m p)"
  shows "ledger_keeps (g, m) (g, put_attempt p a m)"
proof -
  have p: "snd p < length (attempts_of m (fst p))" using assms(1,2) by (simp add: filed_def attempt_refs_iff)
  then have t: "a_task_id a = fst p"
    using assms(1,3) nth_mem [OF p] by (simp add: filed_def same_attempt_def attempt_at_nth)
  have kept: "attempt_kept (attempts_of m (fst p) ! snd p) a"
    using assms(3,4) by (simp add: attempt_kept_def attempt_at_nth)
  have "map a_committed ((attempts_of m (fst p))[snd p := a]) = map a_committed (attempts_of m (fst p))"
    if "task_state g (fst p) = TS_Succeeded"
    using assms(5) that t p by (simp add: map_update attempt_at_nth list_update_same_conv)
  moreover have "attempt_kept (attempts_of m (fst p) ! n) ((attempts_of m (fst p))[snd p := a] ! n)" for n
    using kept p by (cases "n = snd p") simp_all
  ultimately show ?thesis by (simp add: ledger_keeps_def)
qed

lemma ledger_step_keeps:
  assumes "ledger_step C l l'" "ledger_inv l"
  shows "ledger_keeps l l'"
  using assms(1)
proof cases
  case (commit p m a g)
  have inv: "graph_inv g" "filed m" using assms(2) commit(1) by (auto simp: ledger_inv_def)
  have "ledger_keeps (g, m) (g, put_attempt p a m)"
    by (rule keeps_put_attempt [OF inv(2) commit(4,5)]) (use commit in auto)
  then show ?thesis unfolding commit(1,2)
    by (rule ledger_keeps_trans) (auto intro: keeps_set simp: inv)
next
  case (revise p m a g)
  then show ?thesis using assms(2) by (auto simp: ledger_inv_def revises_def intro!: keeps_put_attempt)
next
  case (add g m t)
  then have g: "graph_inv g" using assms(2) by (simp add: ledger_inv_def)
  have "find_task g i = Some x \<Longrightarrow> has_task g i" for i x by (simp add: find_task_def has_task_def omap_has_def)
  then show ?thesis unfolding add using add_task_lookups(1,2) [OF g, where t = t] by (simp add: ledger_keeps_def)
next
  case (new_attempt g i a m)
  then show ?thesis by (auto simp: ledger_keeps_def nth_append)
qed (use assms(2) in \<open>auto intro!: keeps_set simp: ledger_inv_def ledger_keeps_def [of "(g, m)" "(g, m')" for g m m']\<close>)

lemma ledger_steps_keep: "ledger_steps C l l' \<Longrightarrow> ledger_inv l \<Longrightarrow> ledger_keeps l l'"
proof (induction rule: rtranclp_induct)
  case (step l' l'')
  then have "ledger_inv l'" by (blast intro: ledger_steps_inv)
  then show ?case using step
    by (blast intro: ledger_keeps_trans ledger_step_keeps dest: ledger_inv_def [THEN iffD1])
qed (simp add: ledger_keeps_refl)

end
