(* ===== verification/Coordinator_Refinement.thy ===== *)
theory Coordinator_Refinement
  imports Ledger
begin

text \<open>
  Every operation of the core thread changes the ledger only by ledger steps. Operations that leave
  the ledger alone are simplification rules of \<open>ledger_of\<close>; the others are refinement lemmas, composed
  the way the code composes the operations.
\<close>

section \<open>Operations that leave the ledger alone\<close>

named_theorems ledger_simps
named_theorems refine_intros

lemma ledger_of_fields [ledger_simps]:
  "ledger_of (s\<lparr>co_reservations := r\<rparr>) = ledger_of s" "ledger_of (s\<lparr>co_nodes := n\<rparr>) = ledger_of s"
  "ledger_of (s\<lparr>co_conns := c\<rparr>) = ledger_of s" "ledger_of (s\<lparr>co_node_conns := nc\<rparr>) = ledger_of s"
  "ledger_of (s\<lparr>co_client_conns := cc\<rparr>) = ledger_of s" "ledger_of (s\<lparr>co_cancel_requested := b\<rparr>) = ledger_of s"
  "ledger_of (s\<lparr>co_queue := q\<rparr>) = ledger_of s" "ledger_of (s\<lparr>co_stopping := st\<rparr>) = ledger_of s"
  "ledger_of (s\<lparr>co_core_running := st\<rparr>) = ledger_of s" "ledger_of (s\<lparr>co_last_sweep := t\<rparr>) = ledger_of s"
  "ledger_of (s\<lparr>co_scheduler := e\<rparr>) = ledger_of s"
  "ledger_of (s\<lparr>co_task_reservation := tr\<rparr>) = ledger_of s"
  "ledger_of (s\<lparr>co_last_placements := lp, co_placement_sequence := sq, co_placement_records := pr\<rparr>) = ledger_of s"
  by (simp_all add: ledger_of_def)

lemma ledger_of_helpers [ledger_simps]:
  "ledger_of (tick s) = ledger_of s" "ledger_of (draw s) = ledger_of s" "ledger_of (persist s) = ledger_of s"
  "ledger_of (set_ready_at i t s) = ledger_of s" "ledger_of (set_retry_at i t s) = ledger_of s"
  "ledger_of (update_conn h f s) = ledger_of s"
  "ledger_of (release_task_reservation i s) = ledger_of s"
  by (simp_all add: ledger_of_def tick_def draw_def persist_def set_ready_at_def set_retry_at_def
      update_conn_def release_task_reservation_def Let_def split: option.split)

lemma ledger_of_sends [ledger_simps]:
  "ledger_of (stop_connection h s) = ledger_of s" "ledger_of (send_frame_to h f s) = ledger_of s"
  "ledger_of (respond_node c rid ty p s) = ledger_of s" "ledger_of (respond_client c rid ty p s) = ledger_of s"
  "ledger_of (send_to_node n ty p s) = ledger_of s"
  by (simp_all add: stop_connection_def send_frame_to_def respond_node_def respond_client_def send_to_node_def
      ledger_of_helpers split: option.split)

lemma ledger_of_fold: "(\<And>x s. ledger_of (f x s) = ledger_of s) \<Longrightarrow> ledger_of (fold f xs s) = ledger_of s"
  by (induction xs arbitrary: s) auto

lemma ledger_of_node_handlers [ledger_simps]:
  "ledger_of (handle_node_register c rid reg s) = ledger_of s"
  "ledger_of (handle_node_heartbeat c rid hb s) = ledger_of s"
  "ledger_of (handle_node_disconnect n c s) = ledger_of s"
  "ledger_of (handle_node_shutdown_msg c rid n s) = ledger_of s"
  by (simp_all add: handle_node_register_def register_session_def handle_node_heartbeat_def handle_node_disconnect_def
      handle_node_shutdown_msg_def Let_def ledger_simps split: option.split)

lemma ledger_of_queries [ledger_simps]:
  "ledger_of (handle_task_list c rid m s) = ledger_of s"
  "ledger_of (handle_workload_inspect c rid w s) = ledger_of s"
  "ledger_of (handle_fabric_status c rid s) = ledger_of s"
  "ledger_of (handle_placement_query c rid q s) = ledger_of s"
  "ledger_of (handle_node_list c rid s) = ledger_of s"
  "ledger_of (handle_node_drain c rid d s) = ledger_of s"
  "ledger_of (handle_reservation_release c rid rr s) = ledger_of s"
  by (simp_all add: handle_task_list_def handle_workload_inspect_def handle_fabric_status_def handle_placement_query_def
      handle_node_list_def handle_node_drain_def handle_reservation_release_def Let_def ledger_simps split: option.split)

lemma ledger_of_shutdown [ledger_simps]: "ledger_of (handle_coordinator_shutdown c rid s) = ledger_of s"
proof -
  have "ledger_of (shutdown_node e s) = ledger_of s" for e s
    by (simp add: shutdown_node_def ledger_simps split: option.split)
  then show ?thesis by (simp add: handle_coordinator_shutdown_def Let_def ledger_simps ledger_of_fold)
qed

section \<open>Refinement\<close>

definition refines :: "bool \<Rightarrow> (Coordinator \<Rightarrow> Coordinator) \<Rightarrow> bool" where
  "refines C f = (\<forall>s. ledger_inv (ledger_of s) \<longrightarrow> ledger_steps C (ledger_of s) (ledger_of (f s)))"

lemma refinesI: "(\<And>s. ledger_inv (ledger_of s) \<Longrightarrow> ledger_steps C (ledger_of s) (ledger_of (f s))) \<Longrightarrow> refines C f"
  by (simp add: refines_def)

lemma refinesD: "refines C f \<Longrightarrow> ledger_inv (ledger_of s) \<Longrightarrow> ledger_steps C (ledger_of s) (ledger_of (f s))"
  by (simp add: refines_def)

lemma refines_inv: "refines C f \<Longrightarrow> ledger_inv (ledger_of s) \<Longrightarrow> ledger_inv (ledger_of (f s))"
  by (blast dest: refinesD intro: ledger_steps_inv)

lemma refines_quiet: "(\<And>s. ledger_of (f s) = ledger_of s) \<Longrightarrow> refines C f"
  by (simp add: refines_def)

lemma refines_then: "refines C f \<Longrightarrow> refines C g \<Longrightarrow> refines C (\<lambda>s. g (f s))"
  by (blast intro!: refinesI dest: refinesD refines_inv intro: rtranclp_trans)

lemma refines_fold: "(\<And>x. refines C (f x)) \<Longrightarrow> refines C (fold f xs)"
  by (induction xs) (auto simp: comp_def refines_def [of C "\<lambda>s. s"] id_def intro: refines_then)

lemma ledger_of_set_task:
  "ledger_of (set_task i st s) = (snd (set_state i st (co_graph s)), co_attempts s)"
  by (simp add: ledger_of_def set_task_def)

lemma move_steps:
  "st \<noteq> TS_Ready \<Longrightarrow> st \<noteq> TS_Succeeded \<Longrightarrow> set_state i st (fst l) = (r, g) \<Longrightarrow> ledger_steps C l (g, snd l)"
  using ledger_step.move [of st C "fst l" "snd l" i] by auto

lemma refines_move: "st \<noteq> TS_Ready \<Longrightarrow> st \<noteq> TS_Succeeded \<Longrightarrow> refines C (set_task i st)"
  by (rule refinesI) (metis ledger_of_def ledger_of_set_task fst_conv snd_conv move_steps surjective_pairing)

lemma ready_steps:
  assumes "dependencies_satisfied (co_graph s) i \<or> past_waiting (task_state (co_graph s) i)"
  shows "ledger_steps C (ledger_of s) (ledger_of (set_task i TS_Ready s))"
  using assms by (auto simp: ledger_of_set_task ledger_of_def [of s] intro: ledger_step.make_ready)

text \<open>The attempts a pointer can refer to.\<close>

lemma find_active_ref: "find_active_attempt i m = Some p \<Longrightarrow> p \<in> set (attempt_refs m) \<and> a_id (attempt_at m p) = i"
  by (auto simp: find_active_attempt_def find_Some_iff)

lemma ref_task:
  assumes "ledger_inv (ledger_of s)" "p \<in> set (attempt_refs (co_attempts s))"
  shows "a_task_id (attempt_at (co_attempts s) p) = fst p" "has_task (co_graph s) (fst p)"
    "past_waiting (task_state (co_graph s) (fst p))"
proof -
  have f: "filed (co_attempts s)" and a: "attempted (co_graph s, co_attempts s)"
    using assms(1) by (auto simp: ledger_inv_def ledger_of_def)
  have p: "snd p < length (attempts_of (co_attempts s) (fst p))"
    using f assms(2) by (simp add: filed_def attempt_refs_iff)
  then show "a_task_id (attempt_at (co_attempts s) p) = fst p"
    using f nth_mem [OF p] by (simp add: filed_def attempt_at_nth)
  have "attempts_of (co_attempts s) (fst p) \<noteq> []" using p by auto
  then show "has_task (co_graph s) (fst p)" "past_waiting (task_state (co_graph s) (fst p))"
    using a by (auto simp: attempted_def)
qed

lemma ledger_of_update_attempt:
  "ledger_of (update_attempt p f s) = (co_graph s, put_attempt p (f (attempt_at (co_attempts s) p)) (co_attempts s))"
  by (simp add: ledger_of_def update_attempt_def put_attempt_def attempts_of_def)

lemma revise_steps:
  assumes "p \<in> set (attempt_refs (co_attempts s))" "revises (attempt_at (co_attempts s) p) (f (attempt_at (co_attempts s) p))"
  shows "ledger_steps C (ledger_of s) (ledger_of (update_attempt p f s))"
  using assms by (auto simp: ledger_of_update_attempt ledger_of_def [of s] intro: ledger_step.revise)

section \<open>Scheduling\<close>

lemma set_state_okD:
  assumes "set_state i st g = (Inr u, g')"
  shows "g' = snd (set_state i st g)" "task_state g' i = st"
  using assms by (auto simp: set_state_def task_state_def fail_with_def split: option.splits if_splits)

lemma refines_dispatch:
  assumes "task_state (co_graph s) i = TS_Reserved" "ledger_inv (ledger_of s)"
  shows "ledger_steps C (ledger_of s) (ledger_of (dispatch_attempt i task n node d e resv s))"
proof -
  have "\<exists>s3 a. dispatch_attempt i task n node d e resv s = persist (set_task i TS_Dispatching s3) \<and>
      ledger_of s3 = (co_graph s, omap_put i (attempts_of (co_attempts s) i @ [a]) (co_attempts s)) \<and>
      a_task_id a = i \<and> \<not> a_committed a"
    unfolding dispatch_attempt_def Let_def
    by (intro exI conjI, rule refl, simp add: ledger_simps,
        simp add: ledger_of_def tick_def draw_def attempts_of_def, simp_all add: default_attempt_def)
  then obtain s3 a where s3: "dispatch_attempt i task n node d e resv s = persist (set_task i TS_Dispatching s3)"
    and l3: "ledger_of s3 = (co_graph s, omap_put i (attempts_of (co_attempts s) i @ [a]) (co_attempts s))"
      "a_task_id a = i" "\<not> a_committed a"
    by blast
  have "ledger_step C (ledger_of s) (ledger_of s3)"
    using l3 assms(1) by (auto simp: ledger_of_def [of s] intro: ledger_step.new_attempt)
  moreover from this have "ledger_inv (ledger_of s3)" using assms(2) by (rule ledger_step_inv)
  then have "ledger_steps C (ledger_of s3) (ledger_of (set_task i TS_Dispatching s3))"
    by (intro refinesD [OF refines_move]) simp_all
  ultimately show ?thesis by (simp add: s3 ledger_simps)
qed

lemma ledger_of_set_graph: "ledger_of (s\<lparr>co_graph := g\<rparr>) = (g, snd (ledger_of s))"
  by (simp add: ledger_of_def)

lemma reserve_steps:
  assumes "ledger_inv (ledger_of s)"
  shows "ledger_steps C (ledger_of s) (ledger_of (reserve_and_dispatch i task n node d s))"
proof -
  let ?e = "case pd_chosen_executor d of Some e \<Rightarrow> e | None \<Rightarrow> t_required_executor task"
  obtain rr reg where tr: "try_reserve (random_id s) (now_millis s) node (epoch s) i ?e
      (if ?e = ET_Cuda then t_required_gpu_slots task else t_required_cpu_slots task)
      (t_scratch_memory_bytes task) (co_reservations s) = (rr, reg)"
    by (rule prod.exhaust)
  show ?thesis
  proof (cases "rr_reservation rr")
    case None
    then show ?thesis by (simp add: reserve_and_dispatch_def tr Let_def)
  next
    case (Some resv)
    let ?s1 = "tick (draw (s\<lparr>co_reservations := reg\<rparr>))"
    obtain r1 g1 where p: "set_state i TS_Planning (co_graph ?s1) = (r1, g1)" by (rule prod.exhaust)
    obtain r2 g2 where q: "set_state i TS_Reserved g1 = (r2, g2)" by (rule prod.exhaust)
    have l1: "ledger_of ?s1 = ledger_of s" "co_graph ?s1 = fst (ledger_of s)"
      by (simp_all add: ledger_simps) (simp add: ledger_of_def tick_def draw_def)
    have st1: "ledger_steps C (ledger_of s) (g1, snd (ledger_of s))"
      by (rule move_steps [of TS_Planning]) (use p l1 in simp_all)
    have st2: "ledger_steps C (ledger_of s) (g2, snd (ledger_of s))"
      using st1 move_steps [of TS_Reserved i "(g1, snd (ledger_of s))"] q by (force intro: rtranclp_trans)
    show ?thesis
    proof (cases "\<exists>u v. r1 = Inr u \<and> r2 = Inr v")
      case True
      let ?s2 = "?s1\<lparr>co_graph := g1\<rparr>\<lparr>co_graph := g2\<rparr>"
      have "reserve_and_dispatch i task n node d s = dispatch_attempt i task n node d ?e resv ?s2"
        using True p q by (auto simp: reserve_and_dispatch_def Let_def tr Some)
      moreover have "ledger_of ?s2 = (g2, snd (ledger_of s))" by (simp add: ledger_of_def tick_def draw_def)
      moreover have "task_state (co_graph ?s2) i = TS_Reserved" using True q set_state_okD(2) by auto
      ultimately show ?thesis using st2 assms
        by (metis ledger_steps_inv refines_dispatch rtranclp_trans)
    next
      case False
      then show ?thesis using st1 st2 p q l1(1)
        by (cases r1; cases r2) (simp_all add: reserve_and_dispatch_def tr Some Let_def ledger_simps ledger_of_set_graph)
    qed
  qed
qed

lemma refines_schedule_one: "refines C (schedule_one i)"
proof (rule refinesI)
  fix s
  assume inv: "ledger_inv (ledger_of s)"
  have expire: "ledger_steps C (ledger_of s) (ledger_of (set_task i TS_Expired (tick s)))"
    using refinesD [OF refines_move, of TS_Expired "tick s" C i] inv by (simp add: ledger_simps)
  have res: "ledger_steps C (ledger_of s) (ledger_of (reserve_and_dispatch i task n node d s'))"
    if "ledger_of s' = ledger_of s" for task n node d s'
    using reserve_steps [of s'] inv that by simp
  show "ledger_steps C (ledger_of s) (ledger_of (schedule_one i s))"
    using expire by (auto simp: schedule_one_def Let_def ledger_simps intro!: res split: option.split)
qed

lemma refines_schedule: "refines C schedule_ready_tasks"
proof -
  have "ledger_inv (ledger_of s) \<Longrightarrow> ledger_steps C (ledger_of s) (ledger_of (schedule_loop rs s))" for rs s
  proof (induction rs arbitrary: s)
    case (Cons r rs)
    then show ?case
      using refinesD [OF refines_schedule_one Cons.prems, of C "fst r"] refines_inv [OF refines_schedule_one Cons.prems]
      by (auto intro: rtranclp_trans)
  qed simp
  then show ?thesis by (simp add: refines_def schedule_ready_tasks_def)
qed

section \<open>Attempts\<close>

lemma steps_then: "ledger_steps C l (ledger_of s) \<Longrightarrow> ledger_inv l \<Longrightarrow> refines C f \<Longrightarrow> ledger_steps C l (ledger_of (f s))"
  by (meson ledger_steps_inv refinesD rtranclp_trans)

lemma refines_unblock: "refines C (unblock dep)"
  by (rule refinesI) (auto simp: unblock_def ledger_simps intro: ready_steps)

lemma succeed_loop_steps:
  "succeed_loop fuel deps s = Some s' \<Longrightarrow> ledger_inv (ledger_of s) \<Longrightarrow> ledger_steps C (ledger_of s) (ledger_of s')"
proof (induction fuel deps s arbitrary: s' rule: succeed_loop.induct)
  case (3 fuel dep deps s)
  let ?s1 = "unblock dep s"
  let ?s2 = "set_task dep TS_Failed (set_task dep TS_Lost ?s1)"
  have s1: "ledger_steps C (ledger_of s) (ledger_of ?s1)" using "3.prems"(2) by (rule refinesD [OF refines_unblock])
  have s2: "ledger_steps C (ledger_of s) (ledger_of ?s2)"
    by (intro steps_then [OF _ _ refines_move] s1 "3.prems") simp_all
  note inv = ledger_steps_inv [OF s1 "3.prems"(2)] ledger_steps_inv [OF s2 "3.prems"(2)]
  show ?case
  proof (cases "doomed dep ?s1")
    case True
    then obtain s3 where s3: "succeed_loop fuel (dependents (co_graph ?s2) dep) ?s2 = Some s3"
        "succeed_loop (Suc fuel) deps s3 = Some s'"
      using "3.prems"(1) by (auto simp: Let_def split: option.splits)
    have "ledger_steps C (ledger_of ?s2) (ledger_of s3)" by (rule "3.IH"(1) [OF refl True refl s3(1) inv(2)])
    with s2 have t: "ledger_steps C (ledger_of s) (ledger_of s3)" by (rule rtranclp_trans)
    have "ledger_steps C (ledger_of s3) (ledger_of s')"
      by (rule "3.IH"(2) [OF refl True refl s3(1) s3(2) ledger_steps_inv [OF t "3.prems"(2)]])
    with t show ?thesis by (rule rtranclp_trans)
  next
    case False
    then have "succeed_loop (Suc fuel) deps ?s1 = Some s'" using "3.prems"(1) by (simp add: Let_def)
    then show ?thesis using "3.IH"(3) [OF refl False _ inv(1)] s1 by (metis rtranclp_trans)
  qed
qed simp_all

lemma refines_dispatch_ack: "refines C (handle_dispatch_ack da)"
proof (rule refinesI)
  fix s
  assume inv: "ledger_inv (ledger_of s)"
  have "ledger_steps C (ledger_of s) (ledger_of (set_task (fst p) TS_Ready (release_task_reservation (fst p) s)))"
    if "p \<in> set (attempt_refs (co_attempts s))" for p
    using ready_steps [of "release_task_reservation (fst p) s" "fst p"] ref_task(3) [OF inv that]
    by (simp add: ledger_simps) (simp add: release_task_reservation_def split: option.splits)
  then show "ledger_steps C (ledger_of s) (ledger_of (handle_dispatch_ack da s))"
    by (auto simp: handle_dispatch_ack_def ledger_simps dest: find_active_ref split: option.split)
qed

lemma refines_attempt_started: "refines C (handle_attempt_started st)"
proof (rule refinesI)
  fix s
  assume inv: "ledger_inv (ledger_of s)"
  have "ledger_steps C (ledger_of s) (ledger_of (set_task i TS_Running (update_attempt p
      (\<lambda>a. a\<lparr>a_state := AS_Started, a_started_at_ms := t, a_device := d\<rparr>) s)))"
    if "p \<in> set (attempt_refs (co_attempts s))" for p i t d
    by (intro steps_then [OF _ inv refines_move] revise_steps that)
      (simp_all add: revises_def same_attempt_def same_result_def)
  then show "ledger_steps C (ledger_of s) (ledger_of (handle_attempt_started st s))"
    by (auto simp: handle_attempt_started_def Let_def ledger_simps dest: find_active_ref split: option.split)
qed

lemma cancel_attempt_steps:
  assumes "p \<in> set (attempt_refs (co_attempts s))"
  shows "ledger_steps C (ledger_of s) (ledger_of (cancel_attempt p reason s))"
  unfolding cancel_attempt_def ledger_simps
  by (intro revise_steps assms) (simp add: revises_def same_attempt_def same_result_def)

lemma refines_attempt_cancelled: "refines C (handle_attempt_cancelled ca)"
proof (rule refinesI)
  fix s
  assume inv: "ledger_inv (ledger_of s)"
  have "ledger_steps C (ledger_of s) (ledger_of (set_task i TS_Preempted (release_task_reservation k (cancel_attempt p r s))))"
    if "p \<in> set (attempt_refs (co_attempts s))" for p i k r
    using cancel_attempt_steps [OF that] by (intro steps_then [OF _ inv refines_move]) (simp_all add: ledger_simps)
  then show "ledger_steps C (ledger_of s) (ledger_of (handle_attempt_cancelled ca s))"
    by (auto simp: handle_attempt_cancelled_def Let_def ledger_simps dest: find_active_ref split: option.split)
qed

lemma refines_schedule_retry: "refines C (schedule_retry i t)"
  unfolding schedule_retry_def Let_def
  by (rule refinesI) (simp add: ledger_simps refinesD [OF refines_move])

lemma refines_attempt_failed: "refines C (handle_attempt_failed c rid fa)"
proof (rule refinesI)
  fix s
  assume inv: "ledger_inv (ledger_of s)"
  have upd: "ledger_steps C (ledger_of s) (ledger_of (release_task_reservation k (tick (update_attempt p (\<lambda>_. a) s))))"
    if "p \<in> set (attempt_refs (co_attempts s))" "\<not> a_committed (attempt_at (co_attempts s) p)"
      "same_attempt (attempt_at (co_attempts s) p) a" "\<not> a_committed a" for p a k
    unfolding ledger_simps by (rule revise_steps) (use that in \<open>simp_all add: revises_def\<close>)
  show "ledger_steps C (ledger_of s) (ledger_of (handle_attempt_failed c rid fa s))"
    by (auto simp: handle_attempt_failed_def Let_def ledger_simps dest!: find_active_ref
        intro!: steps_then [OF _ inv refines_move] steps_then [OF _ inv refines_schedule_retry] upd [unfolded ledger_simps]
        simp: same_attempt_def split: option.split)
qed

lemma commit_steps:
  assumes "ledger_inv (ledger_of s)" "p \<in> set (attempt_refs (co_attempts s))"
    "\<not> a_committed (attempt_at (co_attempts s) p)" "completion_refused co (attempt_at (co_attempts s) p) s = None"
  shows "ledger_steps True (ledger_of s)
    (ledger_of (set_task (a_task_id (attempt_at (co_attempts s) p)) TS_Succeeded (commit_attempt p co s)))"
proof -
  let ?a = "attempt_at (co_attempts s) p"
  let ?b = "?a\<lparr>a_state := AS_Succeeded, a_committed := True, a_completed_at_ms := now_millis s,
     a_output_size := atc_output_size co, a_output_integrity := atc_output_integrity co,
     a_cpu_millis := atc_duration_ms co, a_bytes_transferred := atc_bytes_transferred co, a_device := atc_device co\<rparr>"
  have "task_state (co_graph s) (a_task_id ?a) = TS_Running \<or> task_state (co_graph s) (a_task_id ?a) = TS_Dispatching"
    using assms(4) by (auto simp: completion_refused_def Let_def split: if_splits)
  then have "ledger_step True (co_graph s, co_attempts s)
      (snd (set_state (a_task_id ?b) TS_Succeeded (co_graph s)), put_attempt p ?b (co_attempts s))"
    using assms(2,3) by (intro ledger_step.commit) (simp_all add: same_attempt_def)
  then show ?thesis
    by (simp add: commit_attempt_def ledger_of_set_task)
      (simp add: ledger_of_def tick_def update_attempt_def put_attempt_def attempts_of_def)
qed

lemma refines_cancel_requested: "refines C (\<lambda>s. s\<lparr>co_cancel_requested := f s\<rparr>)"
  by (rule refines_quiet) (simp add: ledger_simps)

lemma ledger_of_record_success [ledger_simps]: "ledger_of (record_success a co s) = ledger_of s"
  by (simp add: record_success_def ledger_simps split: option.split)

lemma refines_attempt_complete: "refines True (handle_attempt_complete c rid co)"
proof (rule refinesI)
  fix s
  assume inv: "ledger_inv (ledger_of s)"
  have cancel: "ledger_steps True (ledger_of s) (ledger_of (set_task i TS_Preempted
      (cancel_attempt p r (s\<lparr>co_cancel_requested := q\<rparr>))))" if "p \<in> set (attempt_refs (co_attempts s))" for p i r q
    using cancel_attempt_steps [of p "s\<lparr>co_cancel_requested := q\<rparr>" True r] that
    by (intro steps_then [OF _ inv refines_move]) (simp_all add: ledger_simps)
  have done_s: "ledger_steps True (ledger_of s) (ledger_of (set_task (a_task_id (attempt_at (co_attempts s) p)) TS_Succeeded
      (commit_attempt p co (s\<lparr>co_cancel_requested := q\<rparr>))))"
    if "p \<in> set (attempt_refs (co_attempts s))" "\<not> a_committed (attempt_at (co_attempts s) p)"
      "completion_refused co (attempt_at (co_attempts s) p) s = None" for p q
    using commit_steps [of "s\<lparr>co_cancel_requested := q\<rparr>" p co] that inv
    by (simp add: ledger_simps completion_refused_def epoch_def)
  have cont: "ledger_steps True (ledger_of s) (ledger_of (case on_task_succeeded_recursive i s4 of None \<Rightarrow> s4 | Some s5 \<Rightarrow> persist s5))"
    if "ledger_steps True (ledger_of s) (ledger_of s4)" for i s4
    using that succeed_loop_steps [OF _ ledger_steps_inv [OF that inv]]
    by (auto simp: on_task_succeeded_recursive_def ledger_simps split: option.split intro: rtranclp_trans)
  show "ledger_steps True (ledger_of s) (ledger_of (handle_attempt_complete c rid co s))"
  proof (cases "find_active_attempt (atc_attempt_id co) (co_attempts s)")
    case (Some p)
    then show ?thesis
      by (cases "completion_refused co (attempt_at (co_attempts s) p) s")
        (auto simp: handle_attempt_complete_def Let_def ledger_simps dest!: find_active_ref
          intro!: cont cancel [unfolded ledger_simps] done_s)
  qed (simp add: handle_attempt_complete_def Let_def ledger_simps)
qed

section \<open>Clients\<close>

lemma new_task_ready:
  assumes "graph_inv g" "add_task t g = (Inr u, g')" "t_dependencies t = []"
  shows "dependencies_satisfied g' (t_id t)"
  by (rule add_task_cases [OF assms(1), of t])
    (use assms(2,3) in \<open>simp_all add: satisfied_iff fail_with_def insert_task_simps(6) [OF assms(1)] split: if_splits\<close>)

lemma refines_task_submit: "refines C (handle_task_submit c rid m)"
proof (rule refinesI)
  fix s
  assume inv: "ledger_inv (ledger_of s)"
  have g: "graph_inv (co_graph s)" using inv by (simp add: ledger_inv_def ledger_of_def)
  have added: "ledger_steps C (ledger_of s) (g, co_attempts s)" if "add_task t (co_graph s) = (r, g)" for t r g
    using ledger_step.add [of C "co_graph s" "co_attempts s" t] that by (auto simp: ledger_of_def)
  have accept: "ledger_steps C (ledger_of s) (ledger_of (accept_task m g s))"
    if a: "add_task (tsu_task m) (co_graph s) = (Inr u, g)" for u g
  proof -
    let ?t = "tsu_task m"
    have "ledger_steps C (g, co_attempts s)
        (snd (set_state (t_id ?t) (if t_dependencies ?t = [] then TS_Ready else TS_Blocked) g), co_attempts s)"
      using new_task_ready [OF g a]
      by (auto intro: ledger_step.make_ready ledger_step.move)
    moreover have "ledger_of (accept_task m g s) =
        (snd (set_state (t_id ?t) (if t_dependencies ?t = [] then TS_Ready else TS_Blocked) g), co_attempts s)"
      by (simp add: accept_task_def Let_def ledger_simps ledger_of_set_task)
    ultimately show ?thesis using added [OF a] by (metis rtranclp_trans)
  qed
  have failed: "ledger_steps C (ledger_of s) (ledger_of (s\<lparr>co_graph := g\<rparr>))"
    if "add_task t (co_graph s) = (r, g)" for t r g
    using added [OF that] by (simp add: ledger_of_def)
  show "ledger_steps C (ledger_of s) (ledger_of (handle_task_submit c rid m s))"
    by (auto simp: handle_task_submit_def Let_def ledger_simps intro: accept failed
        split: option.split prod.split sum.split)
qed

lemma open_steps:
  "has_task (co_graph s) i \<Longrightarrow>
   ledger_steps C (ledger_of s) (ledger_of (s\<lparr>co_attempts := omap_put i (omap_get_or [] (co_attempts s) i) (co_attempts s)\<rparr>))"
  using ledger_step.open_attempts [of "co_graph s" i C "co_attempts s"] by (auto simp: ledger_of_def attempts_of_def)

lemma refines_task_inspect: "refines C (handle_task_inspect c rid m)"
  by (rule refinesI)
    (auto simp: handle_task_inspect_def Let_def ledger_simps has_task_find intro!: open_steps split: option.split)

lemma refines_task_cancel: "refines C (handle_task_cancel c rid m)"
proof (rule refinesI)
  fix s
  assume inv: "ledger_inv (ledger_of s)"
  have opened: "ledger_steps C (ledger_of s) (ledger_of (s\<lparr>co_cancel_requested := q,
      co_attempts := omap_put i (omap_get_or [] (co_attempts s) i) (co_attempts s)\<rparr>))"
    if "find_task (co_graph s) i = Some t" for i t q
    using open_steps [of s i] that by (auto simp: has_task_find ledger_of_def)
  have moved: "ledger_steps C (ledger_of s) (ledger_of (s\<lparr>co_graph := g\<rparr>))"
    if "set_state i TS_Cancelled (co_graph s) = (r, g)" for i r g
    using move_steps [of TS_Cancelled i "ledger_of s" r g] that by (simp add: ledger_of_def)
  show "ledger_steps C (ledger_of s) (ledger_of (handle_task_cancel c rid m s))"
    by (auto simp: handle_task_cancel_def Let_def ledger_simps intro!: opened intro: moved
        split: option.split prod.split sum.split)
qed

section \<open>Sweep, commands and the core loop\<close>

lemma refines_lose_task: "refines C (lose_task i)"
proof (rule refinesI)
  fix s
  assume inv: "ledger_inv (ledger_of s)"
  have lost: "ledger_steps C (ledger_of s) (ledger_of (set_task i TS_Lost s))"
    by (rule refinesD [OF refines_move inv]) simp_all
  show "ledger_steps C (ledger_of s) (ledger_of (lose_task i s))"
    by (auto simp: lose_task_def Let_def ledger_simps lost split: option.split
        intro!: steps_then [OF lost inv refines_schedule_retry] steps_then [OF lost inv refines_move])
qed

lemma refines_node_loss: "refines C (handle_node_loss n)"
proof (rule refinesI)
  fix s
  assume inv: "ledger_inv (ledger_of s)"
  have "ledger_steps C (ledger_of s) (ledger_of (fold lose_task xs s'))" if "ledger_of s' = ledger_of s" for xs s'
    using refinesD [OF refines_fold [of C lose_task xs, OF refines_lose_task], of s'] inv that by simp
  then show "ledger_steps C (ledger_of s) (ledger_of (handle_node_loss n s))"
    by (auto simp: handle_node_loss_def Let_def ledger_simps split: option.split)
qed

lemma past_waiting_steps:
  "ledger_steps C (ledger_of s) (ledger_of s') \<Longrightarrow> ledger_inv (ledger_of s) \<Longrightarrow>
   past_waiting (task_state (co_graph s) i) \<Longrightarrow> past_waiting (task_state (co_graph s') i)"
  using ledger_steps_keep by (fastforce simp: ledger_keeps_def ledger_of_def)

lemma requeue_dispatch_steps:
  assumes "past_waiting (task_state (co_graph s) i)"
  shows "ledger_steps C (ledger_of s) (ledger_of (requeue_dispatch now i s))"
  using ready_steps [of "release_task_reservation i s" i] assms
  by (simp add: requeue_dispatch_def ledger_simps)
    (simp add: release_task_reservation_def split: option.splits)

lemma requeue_dispatches_steps:
  assumes "ledger_inv (ledger_of s)" "\<forall>i \<in> set is. past_waiting (task_state (co_graph s) i)"
  shows "ledger_steps C (ledger_of s) (ledger_of (fold (requeue_dispatch now) is s))"
  using assms
proof (induction "is" arbitrary: s)
  case (Cons i "is")
  have st: "ledger_steps C (ledger_of s) (ledger_of (requeue_dispatch now i s))"
    using Cons.prems(2) by (intro requeue_dispatch_steps) simp
  have "\<forall>k \<in> set is. past_waiting (task_state (co_graph (requeue_dispatch now i s)) k)"
    using Cons.prems past_waiting_steps [OF st] by simp
  then have "ledger_steps C (ledger_of (requeue_dispatch now i s)) (ledger_of (fold (requeue_dispatch now) is (requeue_dispatch now i s)))"
    by (rule Cons.IH [OF ledger_steps_inv [OF st Cons.prems(1)]])
  then show ?case using st by simp
qed simp

lemma refines_requeue_dispatches: "refines C (\<lambda>s. fold (requeue_dispatch now) (stale_dispatches now s) s)"
  by (rule refinesI) (rule requeue_dispatches_steps, auto simp: stale_dispatches_def past_waiting_def)

lemma refines_requeue_retry: "refines C (requeue_retry now e)"
  by (rule refinesI) (auto simp: requeue_retry_def ledger_simps past_waiting_def intro!: ready_steps)

lemma refines_expire_task: "refines C (expire_task now i)"
proof (rule refinesI)
  fix s
  assume inv: "ledger_inv (ledger_of s)"
  then have "ledger_steps C (ledger_of s) (ledger_of (set_task i TS_Expired (release_task_reservation i s)))"
    using refinesD [OF refines_move, of TS_Expired "release_task_reservation i s" C i] by (simp add: ledger_simps)
  then show "ledger_steps C (ledger_of s) (ledger_of (expire_task now i s))"
    by (auto simp: expire_task_def ledger_simps split: option.split)
qed

lemma refines_fold_of: "(\<And>x. refines C (f x)) \<Longrightarrow> refines C (\<lambda>s. fold f (g s) s)"
  by (rule refinesI) (simp add: refinesD [OF refines_fold])

lemma refines_sweep: "refines C sweep"
proof (rule refinesI)
  fix s
  assume inv: "ledger_inv (ledger_of s)"
  show "ledger_steps C (ledger_of s) (ledger_of (sweep s))"
    unfolding sweep_def Let_def
    by (intro steps_then [OF _ inv refines_schedule] steps_then [OF _ inv refines_fold_of [OF refines_expire_task]]
        steps_then [OF _ inv refines_fold_of [OF refines_requeue_retry]] steps_then [OF _ inv refines_requeue_dispatches]
        steps_then [OF _ inv refines_fold [OF refines_node_loss]])
      (simp add: ledger_simps)
qed

lemmas handler_refines =
  refines_dispatch_ack refines_attempt_started refines_attempt_failed refines_attempt_cancelled
  refines_task_submit refines_task_inspect refines_task_cancel

definition completes :: "CoreCommand \<Rightarrow> bool" where
  "completes cmd = (case cmd of CK_AttemptComplete c rid co \<Rightarrow> True | _ \<Rightarrow> False)"

lemma refines_process: "refines (completes cmd) (process cmd)"
  by (rule refinesI, cases cmd)
    (auto simp: process_def completes_def Let_def ledger_simps split: option.split
      intro: handler_refines [THEN refinesD] refines_attempt_complete [THEN refinesD])

lemma refines_any: "refines C f \<Longrightarrow> refines True f"
proof -
  have step: "ledger_step C l l' \<Longrightarrow> ledger_step True l l'" for l l'
    by (erule ledger_step.cases) (auto intro: ledger_step.intros)
  have "ledger_steps C l l' \<Longrightarrow> ledger_steps True l l'" for l l'
    by (induction rule: rtranclp_induct) (auto intro: rtranclp.rtrancl_into_rtrancl step)
  then show "refines C f \<Longrightarrow> refines True f" by (auto simp: refines_def)
qed

lemma refines_maybe_sweep: "refines C maybe_sweep"
  by (rule refinesI) (auto simp: maybe_sweep_def Let_def ledger_simps
      intro!: refinesD [OF refines_sweep, of "tick s\<lparr>co_last_sweep := t\<rparr>" for s t, unfolded ledger_simps])

lemma refines_core_iteration: "refines True core_iteration"
proof (rule refinesI)
  fix s
  assume inv: "ledger_inv (ledger_of s)"
  have "ledger_steps True (ledger_of s) (ledger_of (maybe_sweep (process c (s\<lparr>co_queue := q\<rparr>))))" for c q
    using refinesD [OF refines_then [OF refines_any [OF refines_process] refines_maybe_sweep], of "s\<lparr>co_queue := q\<rparr>"] inv
    by (simp add: ledger_simps)
  then show "ledger_steps True (ledger_of s) (ledger_of (core_iteration s))"
    using refinesD [OF refines_maybe_sweep inv]
    by (auto simp: core_iteration_def Let_def ledger_simps split: list.split)
qed

interpretation core: command_machine process "\<lambda>s. ledger_inv (ledger_of s)"
  by unfold_locales (rule refines_inv [OF refines_process])

end
