(* ===== verification/Coordinator_Threads.thy ===== *)
theory Coordinator_Threads
  imports Coordinator
begin

text \<open>
  The coordinator's other threads (\<open>coordinator.cpp\<close>: \<open>accept_node_loop\<close>, \<open>accept_client_loop\<close>,
  \<open>node_reader\<close>, \<open>client_reader\<close>, the writers): they turn frames into commands and put them into the
  core's queue. A thread's local variables are a record; one step of a thread is one iteration of its
  loop, and \<open>fabric_step\<close> interleaves all threads with the core thread in any order.
\<close>

section \<open>From frames to commands\<close>

definition kMaxQueue :: nat where "kMaxQueue = 8192"

definition decoded :: "('a \<Rightarrow> CoreCommand) \<Rightarrow> 'a parser \<Rightarrow> byte list \<Rightarrow> CoreCommand option" where
  "decoded mk p payload = (case fst (p (reader_of payload)) of Inl _ \<Rightarrow> None | Inr m \<Rightarrow> Some (mk m))"

definition node_command :: "handle \<Rightarrow> Frame \<Rightarrow> CoreCommand option" where
  "node_command h f =
     (let c = Some h; rid = fh_request_id (f_header f); ty = fh_message_type (f_header f); p = f_payload f in
      if ty = kNodeRegister then decoded (CK_NodeRegister c rid) deserialize_node_register p
      else if ty = kNodeHeartbeat then decoded (CK_NodeHeartbeat c rid) deserialize_node_heartbeat p
      else if ty = kNodeShutdown then decoded (\<lambda>m. CK_NodeShutdownMsg c rid (nsd_node_id m)) deserialize_node_shutdown p
      else if ty = kAttemptStarted then decoded (CK_AttemptStarted c rid) deserialize_attempt_started p
      else if ty = kAttemptProgress then decoded (CK_AttemptProgress c rid) deserialize_attempt_progress p
      else if ty = kAttemptComplete then decoded (CK_AttemptComplete c rid) deserialize_attempt_complete p
      else if ty = kAttemptFailed then decoded (CK_AttemptFailed c rid) deserialize_attempt_failed p
      else if ty = kAttemptCancelled then decoded (CK_AttemptCancelled c rid) deserialize_attempt_cancelled p
      else if ty = kReservationRelease then decoded (CK_ReservationRelease c rid) deserialize_reservation_release p
      else None)"

definition client_command :: "handle \<Rightarrow> Frame \<Rightarrow> CoreCommand option" where
  "client_command h f =
     (let c = Some h; rid = fh_request_id (f_header f); ty = fh_message_type (f_header f); p = f_payload f in
      if ty = kTaskSubmit then decoded (CK_ClientTaskSubmit c rid) deserialize_task_submit p
      else if ty = kTaskInspect then decoded (CK_ClientTaskInspect c rid) deserialize_task_inspect p
      else if ty = kTaskList then decoded (CK_ClientTaskList c rid) deserialize_task_list p
      else if ty = kTaskCancel then decoded (CK_ClientTaskCancel c rid) deserialize_task_cancel p
      else if ty = kWorkloadInspect then decoded (CK_ClientWorkloadInspect c rid) deserialize_workload_inspect p
      else if ty = kFabricStatus then decoded (CK_ClientFabricStatus c rid) deserialize_fabric_status p
      else if ty = kPlacementQuery then decoded (CK_ClientPlacementQuery c rid) deserialize_placement_query p
      else if ty = kNodeList then decoded (\<lambda>_. CK_ClientNodeList c rid) deserialize_node_list p
      else if ty = kNodeDrain then decoded (CK_ClientNodeDrain c rid) deserialize_node_drain p
      else if ty = kCoordinatorShutdown then
        decoded (\<lambda>_. CK_ClientCoordinatorShutdown c rid) deserialize_coordinator_shutdown p
      else None)"

definition hello_accepted :: "string \<Rightarrow> Frame \<Rightarrow> bool" where
  "hello_accepted role f =
     (fh_message_type (f_header f) = kHello \<and>
      (case fst (deserialize_hello (reader_of (f_payload f))) of
         Inl _ \<Rightarrow> False
       | Inr hello \<Rightarrow> hello_role hello = role \<and> hello_protocol_version hello = kProtocolVersion))"

section \<open>Reader threads\<close>

text \<open>The local variables of a reader; \<open>rt_done\<close> is its having returned.\<close>

record ReaderThread =
  rt_node :: bool
  rt_handshake_done :: bool
  rt_registered_node_id :: NodeId
  rt_done :: bool

definition push_command :: "CoreCommand \<Rightarrow> Coordinator \<Rightarrow> Coordinator" where
  "push_command cmd s = s\<lparr>co_queue := co_queue s @ [cmd]\<rparr>"

definition retire :: "handle \<Rightarrow> Coordinator \<Rightarrow> Coordinator" where
  "retire h s = update_conn h (\<lambda>c. c\<lparr>conn_retired := True\<rparr>) s"

text \<open>What a reader does after its loop.\<close>

definition reader_exit :: "handle \<Rightarrow> ReaderThread \<Rightarrow> Coordinator \<Rightarrow> ReaderThread \<times> Coordinator" where
  "reader_exit h t s =
     (let s1 = stop_connection h s;
          s2 = (if co_stopping s1 then s1
                else if rt_node t then
                  (if rt_registered_node_id t \<noteq> id_zero
                   then push_command (CK_NodeDisconnected (Some h) (rt_registered_node_id t)) s1 else s1)
                else case map_of (co_conns s1) h of None \<Rightarrow> s1
                  | Some c \<Rightarrow> push_command (CK_ClientDisconnected (Some h) (conn_id c)) s1)
      in (t\<lparr>rt_done := True\<rparr>, retire h s2))"

definition enqueue_or_exit :: "handle \<Rightarrow> CoreCommand \<Rightarrow> ReaderThread \<Rightarrow> Coordinator \<Rightarrow> ReaderThread \<times> Coordinator" where
  "enqueue_or_exit h cmd t s =
     (if co_stopping s \<or> kMaxQueue \<le> length (co_queue s) then reader_exit h t s else (t, push_command cmd s))"

definition node_reader_step :: "handle \<Rightarrow> Frame result \<Rightarrow> ReaderThread \<Rightarrow> Coordinator \<Rightarrow> ReaderThread \<times> Coordinator" where
  "node_reader_step h frame t s =
     (if \<not> conn_live s h then reader_exit h t s
      else case frame of
        Inl e \<Rightarrow> if err_code e = E_Timeout \<and> rt_handshake_done t then (t, s) else reader_exit h t s
      | Inr f \<Rightarrow>
          if \<not> rt_handshake_done t then
            (if hello_accepted ''node'' f then (t\<lparr>rt_handshake_done := True\<rparr>, s) else reader_exit h t s)
          else case node_command h f of
            None \<Rightarrow> (t, s)
          | Some cmd \<Rightarrow>
              let t1 = (case cmd of CK_NodeRegister _ _ m \<Rightarrow> t\<lparr>rt_registered_node_id := nr_node_id m\<rparr> | _ \<Rightarrow> t)
              in enqueue_or_exit h cmd t1 s)"

text \<open>
  The client's reader starts with the handshake, inside \<open>accept_client_loop\<close>; a failed one retires the
  connection without a command, an accepted one queues \<open>ClientConnected\<close> whatever the queue's length.
\<close>

definition client_handshake :: "handle \<Rightarrow> Frame result \<Rightarrow> ReaderThread \<Rightarrow> Coordinator \<Rightarrow> ReaderThread \<times> Coordinator" where
  "client_handshake h frame t s =
     (let refused = (t\<lparr>rt_done := True\<rparr>, retire h (stop_connection h s)) in
      case (frame, map_of (co_conns s) h) of
        (Inr f, Some c) \<Rightarrow>
          if \<not> hello_accepted ''client'' f \<or> co_stopping s then refused
          else (t\<lparr>rt_handshake_done := True\<rparr>, push_command (CK_ClientConnected (Some h) (conn_id c)) s)
      | _ \<Rightarrow> refused)"

definition client_reader_step :: "handle \<Rightarrow> Frame result \<Rightarrow> ReaderThread \<Rightarrow> Coordinator \<Rightarrow> ReaderThread \<times> Coordinator" where
  "client_reader_step h frame t s =
     (if \<not> conn_live s h then reader_exit h t s
      else case frame of
        Inl e \<Rightarrow> if err_code e \<noteq> E_Timeout then reader_exit h t s else (t, s)
      | Inr f \<Rightarrow>
          (case client_command h f of
             None \<Rightarrow> (t, s)
           | Some cmd \<Rightarrow> enqueue_or_exit h cmd t s))"

definition reader_step :: "handle \<Rightarrow> Frame result \<Rightarrow> ReaderThread \<Rightarrow> Coordinator \<Rightarrow> ReaderThread \<times> Coordinator" where
  "reader_step h frame t s =
     (if rt_done t then (t, s)
      else if rt_node t then node_reader_step h frame t s
      else if \<not> rt_handshake_done t then client_handshake h frame t s
      else client_reader_step h frame t s)"

section \<open>Accepting connections\<close>

definition accept_node :: "handle \<Rightarrow> Coordinator \<Rightarrow> ReaderThread \<times> Coordinator" where
  "accept_node h s =
     (\<lparr>rt_node = True, rt_handshake_done = False, rt_registered_node_id = id_zero, rt_done = False\<rparr>,
      s\<lparr>co_conns := omap_put h (new_conn id_zero) (co_conns s)\<rparr>)"

definition accept_client :: "handle \<Rightarrow> Coordinator \<Rightarrow> ReaderThread \<times> Coordinator" where
  "accept_client h s =
     (\<lparr>rt_node = False, rt_handshake_done = False, rt_registered_node_id = id_zero, rt_done = False\<rparr>,
      (draw s)\<lparr>co_conns := omap_put h (new_conn (random_id s)) (co_conns s)\<rparr>)"

section \<open>All threads together\<close>

type_synonym fabric = "(handle, ReaderThread) omap \<times> Coordinator"

inductive fabric_step :: "fabric \<Rightarrow> fabric \<Rightarrow> bool" where
  core: "co_core_running s \<Longrightarrow> fabric_step (ts, s) (ts, core_iteration s)"
| accept_node_conn: "\<not> co_stopping s \<Longrightarrow> map_of (co_conns s) h = None \<Longrightarrow> accept_node h s = (t, s') \<Longrightarrow>
    fabric_step (ts, s) (omap_put h t ts, s')"
| accept_client_conn: "\<not> co_stopping s \<Longrightarrow> map_of (co_conns s) h = None \<Longrightarrow> accept_client h s = (t, s') \<Longrightarrow>
    fabric_step (ts, s) (omap_put h t ts, s')"
| reader: "map_of ts h = Some t \<Longrightarrow> reader_step h frame t s = (t', s') \<Longrightarrow>
    fabric_step (ts, s) (omap_put h t' ts, s')"
| writer_takes: "map_of (co_conns s) h = Some c \<Longrightarrow> writer_take c = Some (frame, c') \<Longrightarrow>
    fabric_step (ts, s) (ts, s\<lparr>co_conns := omap_put h c' (co_conns s)\<rparr>)"
| writer_done: "fabric_step (ts, s) (ts, update_conn h (writer_sent ok) s)"
| stop: "fabric_step (ts, s) (ts, coordinator_stop s)"

inductive_cases fabric_stepE: "fabric_step f f'"

inductive fabric_run :: "fabric \<Rightarrow> fabric \<Rightarrow> bool" where
  fabric_refl: "fabric_run f f"
| fabric_trans: "fabric_run f f' \<Longrightarrow> fabric_step f' f'' \<Longrightarrow> fabric_run f f''"

end
