(* ===== verification/Coordinator_Properties.thy ===== *)
theory Coordinator_Properties
  imports Coordinator_Refinement Coordinator_Threads
begin

text \<open>
  The properties of the coordinator: its core thread refines the ledger, in every interleaving with the
  other threads; results are permanent; commits need authority; propagating a success terminates; and a
  restart recovers what was stored.
\<close>

section \<open>Propagating a success terminates\<close>

definition user_edge :: "TaskGraph \<Rightarrow> ComputeTaskId \<Rightarrow> ComputeTaskId \<Rightarrow> bool" where
  "user_edge g x y = (y \<in> set (dependents g x))"

definition users :: "TaskGraph \<Rightarrow> ComputeTaskId \<Rightarrow> ComputeTaskId set" where
  "users g x = {y. (user_edge g)\<^sup>+\<^sup>+ x y}"

lemma user_edge_dep: "graph_inv g \<Longrightarrow> user_edge g x y \<Longrightarrow> dep_edge (g_deps g) y x"
  by (simp add: user_edge_def graph_inv_def dep_edge_dependencies)

lemma users_irrefl:
  assumes "graph_inv g"
  shows "x \<notin> users g x"
proof
  assume "x \<in> users g x"
  then have "(user_edge g)\<^sup>+\<^sup>+ x x" by (simp add: users_def)
  moreover have "(user_edge g)\<^sup>+\<^sup>+ a b \<Longrightarrow> (dep_edge (g_deps g))\<^sup>+\<^sup>+ b a" for a b
    by (induction rule: tranclp_induct) (auto intro: tranclp_into_tranclp2 user_edge_dep [OF assms])
  moreover have "acyclic_deps (g_deps g)" using assms by (simp add: graph_inv_def)
  ultimately show False unfolding acyclic_deps_def by blast
qed

lemma user_has_task:
  assumes "graph_inv g" "user_edge g x y"
  shows "has_task g y"
  using graph_inv_fresh(5) [OF assms(1), of y x] assms(2) by (auto simp: user_edge_def)

lemma users_tasks:
  assumes "graph_inv g"
  shows "users g x \<subseteq> set (task_ids g)"
proof
  fix y
  assume "y \<in> users g x"
  then obtain z where "user_edge g z y" by (auto simp: users_def elim: tranclp.cases)
  then show "y \<in> set (task_ids g)"
    using user_has_task [OF assms] by (simp add: has_task_def task_ids_def omap_has_keys)
qed

lemma users_smaller:
  assumes "graph_inv g" "user_edge g x y"
  shows "card (users g y) < card (users g x)"
proof (rule psubset_card_mono)
  show "finite (users g x)" using users_tasks [OF assms(1)] by (rule finite_subset) simp
  have "users g y \<subseteq> users g x" using assms(2) by (auto simp: users_def intro: tranclp_into_tranclp2)
  moreover have "y \<in> users g x" using assms(2) by (auto simp: users_def)
  ultimately show "users g y \<subset> users g x" using users_irrefl [OF assms(1), of y] by blast
qed

lemma dependents_set_task [simp]: "dependents (co_graph (set_task i st s)) k = dependents (co_graph s) k"
  by (simp add: set_task_def dependents_def set_state_simps)

lemma dependents_unblock [simp]: "dependents (co_graph (unblock d s)) k = dependents (co_graph s) k"
  by (simp add: unblock_def tick_def set_ready_at_def)

lemma dependents_succeed_loop:
  "succeed_loop fuel deps s = Some s' \<Longrightarrow> dependents (co_graph s') k = dependents (co_graph s) k"
  by (induction fuel deps s arbitrary: s' rule: succeed_loop.induct)
    (auto simp: Let_def split: if_splits option.splits)

lemma succeed_loop_total:
  assumes "graph_inv g" "\<And>k. dependents (co_graph s) k = dependents g k" "\<forall>d \<in> set deps. card (users g d) < fuel"
  shows "\<exists>s'. succeed_loop fuel deps s = Some s'"
  using assms(2,3)
proof (induction fuel deps s rule: succeed_loop.induct)
  case (3 fuel dep deps s)
  let ?s1 = "unblock dep s"
  let ?s2 = "set_task dep TS_Failed (set_task dep TS_Lost ?s1)"
  show ?case
  proof (cases "doomed dep ?s1")
    case True
    have "card (users g y) < fuel" if "y \<in> set (dependents g dep)" for y
      using users_smaller [OF assms(1), of dep y] that "3.prems"(2) by (auto simp: user_edge_def)
    then obtain s3 where s3: "succeed_loop fuel (dependents (co_graph ?s2) dep) ?s2 = Some s3"
      using "3.IH"(1) [OF refl True refl] "3.prems"(1) by auto
    moreover have "\<exists>s'. succeed_loop (Suc fuel) deps s3 = Some s'"
      by (rule "3.IH"(2) [OF refl True refl s3]) (use "3.prems" dependents_succeed_loop [OF s3] in auto)
    ultimately show ?thesis using True by (auto simp: Let_def)
  next
    case False
    then show ?thesis using "3.IH"(3) [OF refl False] "3.prems" by (auto simp: Let_def)
  qed
qed auto

text \<open>
  The effect on the states: exactly the blocked tasks of the list whose dependencies have all succeeded
  become ready. The branch for failed dependencies changes no state, since a blocked task may
  become neither lost nor failed.
\<close>

definition promoted :: "ComputeTaskId set \<Rightarrow> TaskGraph \<Rightarrow> TaskGraph \<Rightarrow> bool" where
  "promoted D g g' =
     (g_tasks g' = g_tasks g \<and> g_deps g' = g_deps g \<and> g_dependents g' = g_dependents g \<and>
      (\<forall>k. task_state g' k =
         (if k \<in> D \<and> task_state g k = TS_Blocked \<and> dependencies_satisfied g k then TS_Ready else task_state g k)))"

lemma promoted_satisfied:
  assumes "promoted D g g'"
  shows "dependencies_satisfied g' k = dependencies_satisfied g k"
proof -
  have "task_state g' k = TS_Succeeded \<longleftrightarrow> task_state g k = TS_Succeeded" for k
    using assms by (simp add: promoted_def)
  moreover have "dependencies g' k = dependencies g k" using assms by (simp add: promoted_def dependencies_def)
  ultimately show ?thesis by (simp add: satisfied_iff)
qed

lemma promoted_refl: "promoted {} g g"
  by (simp add: promoted_def)

lemma promoted_trans:
  assumes "promoted D g g'" "promoted E g' g''"
  shows "promoted (D \<union> E) g g''"
  using assms promoted_satisfied [OF assms(1)] by (auto simp: promoted_def [of E] promoted_def [of "D \<union> E"])
    (auto simp: promoted_def split: if_splits)

lemma promoted_none:
  "promoted D g g' \<Longrightarrow> (\<And>k. k \<in> D \<Longrightarrow> \<not> dependencies_satisfied g k) \<Longrightarrow> promoted {} g g'"
  by (auto simp: promoted_def)

lemma state_present: "task_state g i \<noteq> TS_Submitted \<Longrightarrow> omap_has (g_states g) i"
  by (auto simp: task_state_def omap_has_def split: option.splits)

lemma promoted_unblock: "promoted {d} (co_graph s) (co_graph (unblock d s))"
  using state_present [of "co_graph s" d]
  by (auto simp: promoted_def unblock_def tick_def set_ready_at_def set_task_def set_state_simps state_after_set is_legal_def)

lemma doomed_waits:
  assumes "doomed d s"
  shows "set_state d TS_Failed (snd (set_state d TS_Lost (co_graph s))) = set_state d TS_Failed (co_graph s)"
    "promoted {} (co_graph s) (co_graph (set_task d TS_Failed (set_task d TS_Lost s)))"
  using assms by (auto simp: doomed_def set_task_def set_state_def task_state_def is_legal_def promoted_def
      split: option.splits)

lemma user_unsatisfied:
  "graph_inv g \<Longrightarrow> k \<in> set (dependents g d) \<Longrightarrow> task_state g d \<noteq> TS_Succeeded \<Longrightarrow> \<not> dependencies_satisfied g k"
  by (auto simp: graph_inv_def satisfied_iff)

lemma promoted_inv: "graph_inv (co_graph s) \<Longrightarrow> graph_inv (co_graph (unblock d s))"
  "graph_inv (co_graph s) \<Longrightarrow> graph_inv (co_graph (set_task d st s))"
  by (simp_all add: unblock_def tick_def set_ready_at_def set_task_def set_state_inv)

lemma succeed_loop_promotes:
  "succeed_loop fuel deps s = Some s' \<Longrightarrow> graph_inv (co_graph s) \<Longrightarrow>
   promoted (set deps) (co_graph s) (co_graph s') \<and> graph_inv (co_graph s')"
proof (induction fuel deps s arbitrary: s' rule: succeed_loop.induct)
  case (3 fuel dep deps s)
  let ?s1 = "unblock dep s"
  let ?s2 = "set_task dep TS_Failed (set_task dep TS_Lost ?s1)"
  note one = promoted_unblock [of dep s]
  note inv = promoted_inv(1) [OF "3.prems"(2), of dep]
  show ?case
  proof (cases "doomed dep ?s1")
    case True
    then obtain s3 where s3: "succeed_loop fuel (dependents (co_graph ?s2) dep) ?s2 = Some s3"
        "succeed_loop (Suc fuel) deps s3 = Some s'"
      using "3.prems"(1) by (auto simp: Let_def split: option.splits)
    note p2 = doomed_waits(2) [OF True]
    have "task_state (co_graph ?s2) dep \<noteq> TS_Succeeded"
      using p2 True by (auto simp: promoted_def doomed_def)
    then have un3: "\<not> dependencies_satisfied (co_graph ?s2) k" if "k \<in> set (dependents (co_graph ?s2) dep)" for k
      using user_unsatisfied [OF _ that] inv by (simp add: promoted_inv)
    have p: "promoted (set (dependents (co_graph ?s2) dep)) (co_graph ?s2) (co_graph s3) \<and> graph_inv (co_graph s3)"
      by (rule "3.IH"(1) [OF refl True refl s3(1)]) (simp add: promoted_inv inv)
    note p3 = promoted_none [OF conjunct1 [OF p] un3] conjunct2 [OF p]
    have "promoted (set deps) (co_graph s3) (co_graph s') \<and> graph_inv (co_graph s')"
      by (rule "3.IH"(2) [OF refl True refl s3(1,2) p3(2)])
    then show ?thesis
      using promoted_trans [OF promoted_trans [OF promoted_trans [OF one p2] p3(1)]] by simp
  next
    case False
    then have "succeed_loop (Suc fuel) deps ?s1 = Some s'" using "3.prems"(1) by (simp add: Let_def)
    then have "promoted (set deps) (co_graph ?s1) (co_graph s') \<and> graph_inv (co_graph s')"
      by (rule "3.IH"(3) [OF refl False _ inv])
    then show ?thesis using promoted_trans [OF one] by simp
  qed
qed (simp_all add: promoted_refl)

text \<open>
  C17: propagating the success of a task always returns, and its effect is exact: the blocked dependents
  whose dependencies have all succeeded become ready and no other task changes state. In particular
  the branch meant to fail the dependents of a failed task never fails one.
\<close>

theorem success_propagation_terminates:
  assumes "graph_inv (co_graph s)"
  shows "\<exists>s'. on_task_succeeded_recursive i s = Some s' \<and>
    (\<forall>k. task_state (co_graph s') k =
       (if k \<in> set (dependents (co_graph s) i) \<and> task_state (co_graph s) k = TS_Blocked \<and>
           dependencies_satisfied (co_graph s) k
        then TS_Ready else task_state (co_graph s) k))"
proof -
  let ?g = "co_graph s"
  have "card (users ?g d) < Suc (graph_size ?g)" for d
  proof -
    have "card (users ?g d) \<le> card (set (task_ids ?g))"
      by (intro card_mono users_tasks assms) simp
    also have "\<dots> \<le> graph_size ?g" using card_length [of "task_ids ?g"] by (simp add: task_ids_def graph_size_def)
    finally show ?thesis by simp
  qed
  then obtain s' where s': "succeed_loop (Suc (graph_size ?g)) (dependents ?g i) s = Some s'"
    using succeed_loop_total [OF assms, of s "dependents ?g i" "Suc (graph_size ?g)"] by blast
  moreover have "promoted (set (dependents ?g i)) ?g (co_graph s')" using succeed_loop_promotes [OF s' assms] ..
  ultimately show ?thesis unfolding on_task_succeeded_recursive_def promoted_def by blast
qed

section \<open>All threads keep the ledger\<close>

lemma ledger_of_threads [ledger_simps]:
  "ledger_of (push_command cmd s) = ledger_of s" "ledger_of (retire h s) = ledger_of s"
  "ledger_of (snd (reader_exit h t s)) = ledger_of s" "ledger_of (snd (enqueue_or_exit h cmd t s)) = ledger_of s"
  by (simp_all add: push_command_def retire_def reader_exit_def enqueue_or_exit_def Let_def ledger_simps split: option.split)

lemma ledger_of_reader_step: "ledger_of (snd (reader_step h frame t s)) = ledger_of s"
  by (auto simp: reader_step_def node_reader_step_def client_reader_step_def client_handshake_def Let_def ledger_simps
      split: sum.split option.split)

lemma ledger_of_stop: "ledger_of (coordinator_stop s) = ledger_of s"
  by (simp add: coordinator_stop_def core_iteration_def Let_def ledger_simps)

lemma fabric_step_ledger:
  assumes "fabric_step (ts, s) (ts', s')" "ledger_inv (ledger_of s)"
  shows "ledger_steps True (ledger_of s) (ledger_of s')"
  using assms(1)
proof cases
  case core
  then show ?thesis using refinesD [OF refines_core_iteration assms(2)] by simp
next
  case (reader h t frame t')
  then show ?thesis using ledger_of_reader_step [of h frame t s] by simp
qed (auto simp: accept_node_def accept_client_def ledger_simps ledger_of_stop)

lemma fabric_run_ledger:
  "fabric_run f f' \<Longrightarrow> ledger_inv (ledger_of (snd f)) \<Longrightarrow> ledger_steps True (ledger_of (snd f)) (ledger_of (snd f'))"
proof (induction rule: fabric_run.induct)
  case (fabric_trans f f' f'')
  have st: "ledger_steps True (ledger_of (snd f)) (ledger_of (snd f'))" using fabric_trans.IH fabric_trans.prems by simp
  have "fabric_step (fst f', snd f') (fst f'', snd f'')" using fabric_trans.hyps(2) by simp
  then have "ledger_steps True (ledger_of (snd f')) (ledger_of (snd f''))"
    using ledger_steps_inv [OF st fabric_trans.prems] by (rule fabric_step_ledger)
  with st show ?case by (rule rtranclp_trans)
qed simp

lemma new_coordinator_inv: "ledger_inv (ledger_of (new_coordinator config fs clock random writes))"
proof -
  have "task_state graph_empty i = TS_Submitted" "\<not> has_task graph_empty i" for i
    by (simp_all add: graph_empty_def task_state_def has_task_def omap_has_def)
  then show ?thesis using graph_inv_empty
    by (simp add: ledger_inv_def ledger_of_def new_coordinator_def filed_def attempted_def ordered_def results_kept_def
        attempts_of_def)
qed

section \<open>A sample coordinator\<close>

text \<open>Two tasks, the second depending on the first, which has run and was committed.\<close>

definition sample_config :: CoordinatorConfig where
  "sample_config = \<lparr>cfg_policy = SP_Baseline, cfg_heartbeat_timeout_ms = 5000, cfg_store_dir = ''store''\<rparr>"

definition empty_coordinator :: Coordinator where
  "empty_coordinator = new_coordinator sample_config \<lparr>fs_file = None, fs_tmp = None\<rparr> (\<lambda>n. of_nat n) (\<lambda>n. Id128 7 (of_nat n)) (\<lambda>_. WO_Ok)"

definition committed_attempt :: ExecutionAttempt where
  "committed_attempt = default_attempt\<lparr>a_id := Id128 0 9, a_task_id := Id128 0 1, a_state := AS_Succeeded,
     a_committed := True, a_output_size := 4\<rparr>"

definition sample_coordinator :: Coordinator where
  "sample_coordinator = empty_coordinator\<lparr>
     co_graph := restore_state (Id128 0 2) TS_Ready (restore_state (Id128 0 1) TS_Succeeded sample_graph),
     co_attempts := [(Id128 0 1, [committed_attempt])]\<rparr>"

lemma sample_coordinator_simps:
  "co_graph sample_coordinator = sample_graph\<lparr>g_states := [(Id128 0 1, TS_Succeeded), (Id128 0 2, TS_Ready)]\<rparr>"
  "attempts_of (co_attempts sample_coordinator) i = (if i = Id128 0 1 then [committed_attempt] else [])"
  by (simp_all add: sample_coordinator_def restore_state_def sample_graph_eq less_Id128_def attempts_of_def omap_get_or_def)

lemma sample_coordinator_state:
  "task_state (co_graph sample_coordinator) i =
     (if i = Id128 0 1 then TS_Succeeded else if i = Id128 0 2 then TS_Ready else TS_Submitted)"
  "dependencies (co_graph sample_coordinator) i = (if i = Id128 0 2 then [Id128 0 1] else [])"
  "has_task (co_graph sample_coordinator) i = (i = Id128 0 1 \<or> i = Id128 0 2)"
  by (auto simp: sample_coordinator_simps task_state_def dependencies_def has_task_def omap_has_def sample_graph_eq)

lemma sample_coordinator_inv: "ledger_inv (ledger_of sample_coordinator)"
proof -
  have "graph_inv (co_graph sample_coordinator)"
    by (simp add: sample_coordinator_def restore_state_inv sample_graph_inv)
  moreover have "omap_ok (co_attempts sample_coordinator)" by (simp add: sample_coordinator_def omap_ok_def)
  ultimately show ?thesis
    by (simp add: ledger_inv_def ledger_of_def filed_def attempted_def ordered_def results_kept_def satisfied_iff
        sample_coordinator_simps(2) sample_coordinator_state past_waiting_def committed_attempt_def)
qed

theorem success_propagation_terminates_witness:
  "\<exists>s'. on_task_succeeded_recursive (Id128 0 1) (sample_coordinator\<lparr>co_graph :=
       restore_state (Id128 0 2) TS_Blocked (co_graph sample_coordinator)\<rparr>) = Some s' \<and>
     task_state (co_graph s') (Id128 0 2) = TS_Ready"
proof -
  let ?s = "sample_coordinator\<lparr>co_graph := restore_state (Id128 0 2) TS_Blocked (co_graph sample_coordinator)\<rparr>"
  have "graph_inv (co_graph ?s)"
    using sample_coordinator_inv by (simp add: ledger_inv_def ledger_of_def restore_state_inv)
  note total = success_propagation_terminates [OF this, of "Id128 0 1"]
  have "Id128 0 2 \<in> set (dependents (co_graph ?s) (Id128 0 1))" "task_state (co_graph ?s) (Id128 0 2) = TS_Blocked"
    "dependencies_satisfied (co_graph ?s) (Id128 0 2)"
    by (simp_all add: sample_coordinator_simps restore_state_def dependents_def task_state_def dependencies_satisfied_def
        sample_graph_eq)
  then show ?thesis using total by metis
qed

section \<open>Properties of the coordinator\<close>

text \<open>
  C5: the core thread implements the ledger. From a state that satisfies the ledger's invariant, every
  command the core processes and every iteration of its loop, the periodic sweep and the scheduler
  included, changes tasks and attempts only by steps of the ledger specification; and only a
  completion message may commit an attempt.
\<close>

theorem core_refines_ledger:
  assumes "ledger_inv (ledger_of s)"
  shows "ledger_steps True (ledger_of s) (ledger_of (core_iteration s)) \<and>
    ledger_steps (completes cmd) (ledger_of s) (ledger_of (process cmd s)) \<and>
    ledger_steps False (ledger_of s) (ledger_of (sweep s))"
  using assms by (simp add: refinesD [OF refines_core_iteration] refinesD [OF refines_process] refinesD [OF refines_sweep])

theorem core_refines_ledger_witness:
  "ledger_steps True (ledger_of sample_coordinator) (ledger_of (core_iteration sample_coordinator))"
  using core_refines_ledger [OF sample_coordinator_inv] by blast

text \<open>
  C2: no task runs before its dependencies have succeeded. In every state that any interleaving of the
  threads reaches, a task that is ready or further along has only dependencies that are Succeeded,
  each with a committed attempt filed under it.
\<close>

theorem dependencies_before_execution:
  assumes "fabric_run (ts, s) (ts', s')" "ledger_inv (ledger_of s)" "find_task (co_graph s') i = Some t"
    "task_state (co_graph s') i \<notin> {TS_Submitted, TS_Blocked, TS_Cancelled, TS_Expired}" "d \<in> set (t_dependencies t)"
  shows "task_state (co_graph s') d = TS_Succeeded \<and>
    (\<exists>a \<in> set (attempts_of (co_attempts s') d). a_committed a \<and> a_task_id a = d)"
proof -
  have inv: "ledger_inv (co_graph s', co_attempts s')"
    using ledger_steps_inv [OF fabric_run_ledger [OF assms(1)]] assms(2) by (simp add: ledger_of_def)
  then have "set (dependencies (co_graph s') i) = set (t_dependencies t)"
    using assms(3) by (simp add: ledger_inv_def graph_inv_def)
  moreover have "dependencies_satisfied (co_graph s') i"
    using inv assms(3,4) by (auto simp: ledger_inv_def ordered_def has_task_find)
  ultimately have suc: "task_state (co_graph s') d = TS_Succeeded" using assms(5) by (simp add: satisfied_iff)
  with inv show ?thesis by (auto simp: ledger_inv_def results_kept_def filed_def)
qed

theorem dependencies_before_execution_witness:
  "task_state (co_graph sample_coordinator) (Id128 0 1) = TS_Succeeded \<and>
   (\<exists>a \<in> set (attempts_of (co_attempts sample_coordinator) (Id128 0 1)). a_committed a \<and> a_task_id a = Id128 0 1)"
  by (rule dependencies_before_execution [OF fabric_refl [of "([], sample_coordinator)"] sample_coordinator_inv,
        of "Id128 0 2" "sample_task 2 [1]"])
    (simp_all add: sample_coordinator_state, simp add: sample_coordinator_simps find_task_def sample_graph_eq)



section \<open>Commits\<close>

definition is_committed :: "attempts \<Rightarrow> ComputeTaskId \<Rightarrow> nat \<Rightarrow> bool" where
  "is_committed m i n = (n < length (attempts_of m i) \<and> a_committed (attempts_of m i ! n))"

lemma is_committed_put: "is_committed (put_attempt p a m) i n \<Longrightarrow> is_committed m i n \<or> p = (i, n) \<and> a_committed a"
  by (cases p; cases "snd p = n") (auto simp: is_committed_def split: if_splits)

lemma step_commits_nothing:
  assumes "ledger_step False l l'" "is_committed (snd l') i n"
  shows "is_committed (snd l) i n"
  using assms(1)
proof cases
  case (revise p m a g)
  then show ?thesis using assms(2) is_committed_put [of p a m i n]
    by (auto simp: is_committed_def revises_def attempt_at_nth)
qed (use assms(2) in \<open>auto simp: is_committed_def nth_append split: if_splits\<close>)

lemma steps_commit_nothing: "ledger_steps False l l' \<Longrightarrow> is_committed (snd l') i n \<Longrightarrow> is_committed (snd l) i n"
  by (induction rule: rtranclp_induct) (auto dest: step_commits_nothing)

lemma co_attempts_ledger: "co_attempts s = snd (ledger_of s)"
  by (simp add: ledger_of_def)

lemma attempts_set_task [simp]: "snd (ledger_of (set_task i st s)) = snd (ledger_of s)"
  by (simp add: ledger_of_def set_task_def)

lemma attempts_succeed_loop: "succeed_loop fuel deps s = Some s' \<Longrightarrow> snd (ledger_of s') = snd (ledger_of s)"
  by (induction fuel deps s arbitrary: s' rule: succeed_loop.induct)
    (auto simp: Let_def unblock_def ledger_simps split: if_splits option.splits)

lemma attempts_after_completion:
  assumes "find_active_attempt (atc_attempt_id co) (co_attempts s) = Some p"
  defines "a \<equiv> attempt_at (co_attempts s) p"
  shows "snd (ledger_of (handle_attempt_complete c rid co s)) =
    (if a_committed a then snd (ledger_of s)
     else if omap_get_or False (co_cancel_requested s) (a_task_id a) then snd (ledger_of (cancel_attempt p ''cancelled'' s))
     else if completion_refused co a s \<noteq> None then snd (ledger_of s)
     else snd (ledger_of (commit_attempt p co s)))"
proof -
  have upd: "snd (ledger_of (cancel_attempt p r (s\<lparr>co_cancel_requested := q\<rparr>))) = snd (ledger_of (cancel_attempt p r s))"
    "snd (ledger_of (commit_attempt p co (s\<lparr>co_cancel_requested := q\<rparr>))) = snd (ledger_of (commit_attempt p co s))" for q r
    by (simp_all add: cancel_attempt_def commit_attempt_def ledger_simps ledger_of_update_attempt now_millis_def)
  have cont: "snd (ledger_of (case on_task_succeeded_recursive i s4 of None \<Rightarrow> s4 | Some s5 \<Rightarrow> persist s5)) = snd (ledger_of s4)"
    for i s4
    by (auto simp: on_task_succeeded_recursive_def ledger_simps attempts_succeed_loop split: option.split)
  show ?thesis unfolding a_def
    using assms(1) by (cases "completion_refused co (attempt_at (co_attempts s) p) s")
      (simp_all add: handle_attempt_complete_def Let_def cont ledger_simps upd)
qed

lemma unknown_completion:
  "find_active_attempt (atc_attempt_id co) (co_attempts s) = None \<Longrightarrow>
   snd (ledger_of (handle_attempt_complete c rid co s)) = snd (ledger_of s)"
  by (simp add: handle_attempt_complete_def Let_def ledger_simps)

lemma completion_authority:
  assumes "ledger_inv (ledger_of s)" "is_committed (co_attempts (handle_attempt_complete c rid co s)) i n"
    "\<not> is_committed (co_attempts s) i n"
  shows "\<exists>p. find_active_attempt (atc_attempt_id co) (co_attempts s) = Some p \<and> p = (i, n) \<and>
    completion_refused co (attempt_at (co_attempts s) p) s = None \<and>
    \<not> omap_get_or False (co_cancel_requested s) (a_task_id (attempt_at (co_attempts s) p))"
proof (cases "find_active_attempt (atc_attempt_id co) (co_attempts s)")
  case None
  then show ?thesis using assms(2,3) unknown_completion [OF None] by (simp add: co_attempts_ledger)
next
  case (Some p)
  let ?a = "attempt_at (co_attempts s) p"
  note after = attempts_after_completion [OF Some, of c rid]
  have r: "p \<in> set (attempt_refs (co_attempts s))" using find_active_ref [OF Some] by simp
  have c0: "is_committed (snd (ledger_of (handle_attempt_complete c rid co s))) i n" "\<not> is_committed (snd (ledger_of s)) i n"
    using assms(2,3) by (simp_all add: co_attempts_ledger)
  have keep: "is_committed (snd (ledger_of (cancel_attempt p r s))) i n \<Longrightarrow> is_committed (snd (ledger_of s)) i n" for r
    by (rule steps_commit_nothing [OF cancel_attempt_steps [OF r]])
  have ok: "\<not> a_committed ?a" "\<not> omap_get_or False (co_cancel_requested s) (a_task_id ?a)"
    "completion_refused co ?a s = None"
    using c0 after keep by (auto split: if_splits)
  then have "is_committed (snd (ledger_of (commit_attempt p co s))) i n" using c0(1) after by simp
  then have "p = (i, n)"
    using c0(2) is_committed_put by (fastforce simp: commit_attempt_def ledger_simps ledger_of_update_attempt co_attempts_ledger)
  then show ?thesis using ok Some by auto
qed

text \<open>
  C4: an attempt is committed only with authority. If processing any command turns an attempt into a
  committed one, the command is a completion that names this attempt and its reservation, the attempt
  was dispatched under the current coordinator epoch and is still live, its task is dispatching or
  running, and no cancellation is pending. Messages from before a restart, for a released reservation or
  for another attempt commit nothing.
\<close>

theorem commit_needs_authority:
  assumes "ledger_inv (ledger_of s)" "is_committed (co_attempts (process cmd s)) i n" "\<not> is_committed (co_attempts s) i n"
  shows "\<exists>c rid co a. cmd = CK_AttemptComplete c rid co \<and> a = attempt_at (co_attempts s) (i, n) \<and>
    a_id a = atc_attempt_id co \<and> a_reservation_id a = atc_reservation_id co \<and> a_coordinator_epoch a = epoch s \<and>
    live_attempt a \<and> a_task_id a = i \<and> task_state (co_graph s) i \<in> {TS_Dispatching, TS_Running} \<and>
    \<not> omap_get_or False (co_cancel_requested s) i"
proof (cases "completes cmd")
  case False
  then have "ledger_steps False (ledger_of s) (ledger_of (process cmd s))"
    using refinesD [OF refines_process [of cmd] assms(1)] by simp
  then have "is_committed (snd (ledger_of s)) i n"
    by (rule steps_commit_nothing) (use assms(2) in \<open>simp add: co_attempts_ledger\<close>)
  then show ?thesis using assms(3) by (simp add: co_attempts_ledger)
next
  case True
  then obtain c rid co where cmd: "cmd = CK_AttemptComplete c rid co" by (auto simp: completes_def split: CoreCommand.splits)
  then obtain p where p: "find_active_attempt (atc_attempt_id co) (co_attempts s) = Some p" "p = (i, n)"
    "completion_refused co (attempt_at (co_attempts s) p) s = None"
    "\<not> omap_get_or False (co_cancel_requested s) (a_task_id (attempt_at (co_attempts s) p))"
    using completion_authority [OF assms(1) _ assms(3)] assms(2) by (auto simp: process_def)
  have "a_task_id (attempt_at (co_attempts s) (i, n)) = i"
    using ref_task(1) [OF assms(1)] find_active_ref [OF p(1)] p(2) by auto
  then show ?thesis using cmd p find_active_ref [OF p(1)]
    by (auto simp: completion_refused_def live_attempt_def Let_def split: if_splits)
qed

definition running_attempt :: ExecutionAttempt where
  "running_attempt = default_attempt\<lparr>a_id := Id128 0 9, a_task_id := Id128 0 1, a_reservation_id := Id128 0 5,
     a_coordinator_epoch := 1, a_state := AS_Started\<rparr>"

definition running_coordinator :: Coordinator where
  "running_coordinator = empty_coordinator\<lparr>
     co_graph := restore_state (Id128 0 2) TS_Blocked (restore_state (Id128 0 1) TS_Running sample_graph),
     co_attempts := [(Id128 0 1, [running_attempt])]\<rparr>"

definition sample_completion :: AttemptComplete where
  "sample_completion = \<lparr>atc_attempt_id = Id128 0 9, atc_task_id = Id128 0 1, atc_reservation_id = Id128 0 5,
     atc_coordinator_epoch = 1, atc_result_code = 0, atc_output_size = 4, atc_output_integrity = ''ab'',
     atc_duration_ms = f64_lit 10 1, atc_cpu_millis = f64_lit 10 1, atc_bytes_transferred = 64, atc_device = ''cpu'', atc_notes = []\<rparr>"

lemma running_coordinator_state:
  "task_state (co_graph running_coordinator) i =
     (if i = Id128 0 1 then TS_Running else if i = Id128 0 2 then TS_Blocked else TS_Submitted)"
  "dependencies (co_graph running_coordinator) i = (if i = Id128 0 2 then [Id128 0 1] else [])"
  "has_task (co_graph running_coordinator) i = (i = Id128 0 1 \<or> i = Id128 0 2)"
  "attempts_of (co_attempts running_coordinator) i = (if i = Id128 0 1 then [running_attempt] else [])"
  by (auto simp: running_coordinator_def restore_state_def sample_graph_eq less_Id128_def attempts_of_def omap_get_or_def
      task_state_def dependencies_def has_task_def omap_has_def)

lemma running_coordinator_inv: "ledger_inv (ledger_of running_coordinator)"
proof -
  have "graph_inv (co_graph running_coordinator)"
    by (simp add: running_coordinator_def restore_state_inv sample_graph_inv)
  moreover have "omap_ok (co_attempts running_coordinator)" by (simp add: running_coordinator_def omap_ok_def)
  ultimately show ?thesis
    by (simp add: ledger_inv_def ledger_of_def filed_def attempted_def ordered_def results_kept_def satisfied_iff
        running_coordinator_state past_waiting_def running_attempt_def)
qed

lemma running_completion_commits:
  "is_committed (co_attempts (process (CK_AttemptComplete None 3 sample_completion) running_coordinator)) (Id128 0 1) 0"
  "\<not> is_committed (co_attempts running_coordinator) (Id128 0 1) 0"
proof -
  let ?s = running_coordinator
  have f: "find_active_attempt (atc_attempt_id sample_completion) (co_attempts ?s) = Some (Id128 0 1, 0)"
    by (simp add: find_active_attempt_def attempt_refs_def attempt_at_nth running_coordinator_state)
      (simp add: running_coordinator_def running_attempt_def sample_completion_def)
  have a: "attempt_at (co_attempts ?s) (Id128 0 1, 0) = running_attempt"
    by (simp add: attempt_at_nth running_coordinator_state)
  have e: "epoch ?s = 1" "co_cancel_requested ?s = []"
    by (simp_all add: epoch_def running_coordinator_def empty_coordinator_def new_coordinator_def default_durable_def)
  have "\<not> a_committed running_attempt" "completion_refused sample_completion running_attempt ?s = None"
    by (simp_all add: completion_refused_def running_coordinator_state e running_attempt_def default_attempt_def
        sample_completion_def)
  then have "snd (ledger_of (process (CK_AttemptComplete None 3 sample_completion) ?s)) =
      snd (ledger_of (commit_attempt (Id128 0 1, 0) sample_completion ?s))"
    using attempts_after_completion [OF f, of None 3] by (simp add: process_def a e)
  then show "is_committed (co_attempts (process (CK_AttemptComplete None 3 sample_completion) ?s)) (Id128 0 1) 0"
    by (simp add: co_attempts_ledger commit_attempt_def ledger_simps ledger_of_update_attempt is_committed_def)
      (simp add: co_attempts_ledger [symmetric] running_coordinator_state)
  show "\<not> is_committed (co_attempts ?s) (Id128 0 1) 0"
    by (simp add: is_committed_def running_coordinator_state running_attempt_def default_attempt_def)
qed

theorem commit_needs_authority_witness:
  "\<exists>a. a = attempt_at (co_attempts running_coordinator) (Id128 0 1, 0) \<and> a_id a = Id128 0 9 \<and>
    a_coordinator_epoch a = epoch running_coordinator \<and> live_attempt a"
  using commit_needs_authority [OF running_coordinator_inv running_completion_commits]
  by (auto simp: sample_completion_def)

end
