(* ===== verification/Restart.thy ===== *)
theory Restart
  imports Coordinator_Properties
begin

text \<open>
  Restarting a coordinator on the file an earlier one saved: the graph is rebuilt task by task, the
  states and the committed attempts are restored, and tasks that were active are put back for a retry or
  failed. The proofs compose the store's round trip with the graph's operations.
\<close>

section \<open>What is saved\<close>

lemma saved_tasks:
  assumes "graph_inv g"
  shows "graph_to_tasks g = g_tasks g"
proof -
  have "concat (map (\<lambda>i. case find_task g i of None \<Rightarrow> [] | Some t \<Rightarrow> [(i, t)]) (map fst m)) = m"
    if "distinct (map fst m)" "set m \<subseteq> set (g_tasks g)" for m
    using that omap_in_set [of "g_tasks g"] assms
    by (induction m) (auto simp: find_task_def graph_inv_def)
  then show ?thesis
    using assms by (simp add: graph_to_tasks_def task_ids_def omap_of_entries_id graph_inv_def omap_ok_distinct)
qed

lemma saved_states:
  assumes "graph_inv g"
  shows "map_of (graph_states g) i = (if has_task g i then Some (task_state g i) else None)" "omap_ok (graph_states g)"
proof -
  have ok: "omap_ok (map (\<lambda>i. (i, task_state g i)) (task_ids g))"
    using assms by (simp add: omap_ok_def task_ids_def graph_inv_def comp_def)
  have eq: "graph_states g = map (\<lambda>i. (i, task_state g i)) (task_ids g)"
    by (simp add: graph_states_def omap_of_entries_id [OF ok])
  show "omap_ok (graph_states g)" using ok eq by simp
  show "map_of (graph_states g) i = (if has_task g i then Some (task_state g i) else None)"
    unfolding eq map_of_map_restrict
    by (simp add: restrict_map_def has_task_def omap_has_keys) (simp add: task_ids_def)
qed

lemma saved_attempts:
  assumes "omap_ok m"
  shows "omap_ok (committed_attempts m)" "attempts_of (committed_attempts m) i = filter a_committed (attempts_of m i)"
proof -
  let ?e = "filter (\<lambda>e. snd e \<noteq> []) (map (\<lambda>e. (fst e, filter a_committed (snd e))) m)"
  have ok: "omap_ok ?e"
    using assms sorted_wrt_filter [of "(<)" "map fst m"]
    by (auto simp: omap_ok_def sorted_wrt_map comp_def filter_map sorted_wrt_filter)
  have eq: "committed_attempts m = ?e" by (simp add: committed_attempts_def omap_of_entries_id [OF ok])
  show "omap_ok (committed_attempts m)" using ok eq by simp
  have "map_of ?e i = (case map_of m i of None \<Rightarrow> None | Some l \<Rightarrow> if filter a_committed l = [] then None else Some (filter a_committed l))"
    using omap_ok_distinct [OF assms]
  proof (induction m)
    case (Cons e m)
    have "map_of m (fst e) = None" using Cons.prems by (simp add: map_of_eq_None_iff)
    then show ?case using Cons by (cases "i = fst e") auto
  qed simp
  then show "attempts_of (committed_attempts m) i = filter a_committed (attempts_of m i)"
    unfolding eq by (auto simp: attempts_of_def omap_get_or_def split: option.splits)
qed

section \<open>Rebuilding the graph\<close>

lemma task_entry:
  assumes "graph_inv g" "find_task g i = Some t"
  shows "t_id t = i" "set (dependencies g i) = set (t_dependencies t)"
  using assms unfolding graph_inv_def by blast+

definition part_of :: "TaskGraph \<Rightarrow> TaskGraph \<Rightarrow> bool" where
  "part_of p g = (graph_inv p \<and> (\<forall>i t. find_task p i = Some t \<longrightarrow> find_task g i = Some t) \<and>
     (\<forall>i. task_state p i = TS_Submitted))"

lemma part_edges:
  assumes "part_of p g" "graph_inv g" "dep_edge (g_deps p) a b"
  shows "dep_edge (g_deps g) a b"
proof -
  have b: "b \<in> set (dependencies p a)" using assms(3) by (simp add: dep_edge_dependencies)
  then have "has_task p a" using graph_inv_fresh(4) [of p a] assms(1) by (force simp: part_of_def)
  then obtain t where "find_task p a = Some t" "find_task g a = Some t"
    using assms(1) by (auto simp: part_of_def has_task_find)
  then have "set (dependencies p a) = set (t_dependencies t)" "set (dependencies g a) = set (t_dependencies t)"
    using assms(1,2) task_entry(2) by (auto simp: part_of_def)
  then show ?thesis using b by (simp add: dep_edge_dependencies)
qed

lemma rebuild_one:
  assumes "part_of p g" "graph_inv g" "find_task g (t_id t) = Some t" "\<not> has_task p (t_id t)"
  shows "add_task t p = (Inr (), insert_task t p)" "part_of (insert_task t p) g"
    "has_task (insert_task t p) k \<longleftrightarrow> k = t_id t \<or> has_task p k"
proof -
  have p: "graph_inv p" using assms(1) by (simp add: part_of_def)
  note ins = insert_task_simps [OF p assms(4)]
  have deps: "set (dependencies g (t_id t)) = set (t_dependencies t)" by (rule task_entry(2) [OF assms(2,3)])
  have edge: "dep_edge (g_deps g) a b" if "dep_edge (g_deps (insert_task t p)) a b" for a b
    using that part_edges [OF assms(1,2), of a b] deps
    by (cases "a = t_id t") (simp_all add: dep_edge_dependencies ins(6))
  have acyc: "acyclic_deps (g_deps g)" using assms(2) by (simp add: graph_inv_def)
  then have acyc': "acyclic_deps (g_deps (insert_task t p))" by (rule acyclic_deps_mono) (rule edge)
  have "dep_edge (g_deps g) (t_id t) (t_id t)" if "t_id t \<in> set (t_dependencies t)"
    using that deps by (simp add: dep_edge_dependencies)
  then have self: "t_id t \<notin> set (t_dependencies t)" using acyc unfolding acyclic_deps_def by blast
  show add: "add_task t p = (Inr (), insert_task t p)"
    by (rule add_task_cases [OF p, of t]) (use self acyc' assms(4) in simp_all)
  show "has_task (insert_task t p) k \<longleftrightarrow> k = t_id t \<or> has_task p k" by (simp add: has_task_def ins(1))
  have "graph_inv (insert_task t p)" using add_task_inv [OF p, of t] add by simp
  moreover have "find_task (insert_task t p) i = Some u \<Longrightarrow> find_task g i = Some u" for i u
    using assms(1,3) by (auto simp: part_of_def find_task_def ins(1) split: if_splits)
  moreover have "task_state (insert_task t p) i = TS_Submitted" for i
    using assms(1) by (simp add: part_of_def task_state_def ins(2))
  ultimately show "part_of (insert_task t p) g" by (simp add: part_of_def)
qed

lemma rebuild_all:
  assumes "graph_inv g" "set ts \<subseteq> set (map snd (g_tasks g))" "distinct (map t_id ts)"
    "part_of p g" "\<forall>t \<in> set ts. \<not> has_task p (t_id t)"
  shows "\<exists>p'. add_all_tasks ts p = Inr p' \<and> part_of p' g \<and> (\<forall>k. has_task p' k \<longleftrightarrow> k \<in> t_id ` set ts \<or> has_task p k)"
  using assms(2-)
proof (induction ts arbitrary: p)
  case (Cons t ts)
  obtain i where "(i, t) \<in> set (g_tasks g)" using Cons.prems(1) by auto
  then have "find_task g i = Some t" using assms(1) by (simp add: find_task_def graph_inv_def omap_in_set)
  moreover from this have "t_id t = i" by (rule task_entry(1) [OF assms(1)])
  ultimately have one: "find_task g (t_id t) = Some t" "\<not> has_task p (t_id t)" using Cons.prems(4) by simp_all
  note r = rebuild_one [OF Cons.prems(3) assms(1) one]
  have "\<forall>t' \<in> set ts. \<not> has_task (insert_task t p) (t_id t')"
    using Cons.prems(2,4) r(3) by (auto simp: image_iff)
  then obtain p' where p': "add_all_tasks ts (insert_task t p) = Inr p'" "part_of p' g"
      "\<forall>k. has_task p' k \<longleftrightarrow> k \<in> t_id ` set ts \<or> has_task (insert_task t p) k"
    using Cons.IH [OF _ _ r(2)] Cons.prems(1,2) by auto
  have "add_all_tasks (t # ts) p = add_all_tasks ts (insert_task t p)" by (simp add: add_all_tasks_def r(1))
  then show ?case using p' r(3) by auto
qed (simp add: add_all_tasks_def)

section \<open>Restoring states and recovering active tasks\<close>

lemma restore_states:
  assumes "graph_inv p" "distinct (map fst sts)"
  defines "p' \<equiv> fold (\<lambda>e g. if has_task g (fst e) then restore_state (fst e) (snd e) g else g) sts p"
  shows "graph_inv p'" "g_tasks p' = g_tasks p" "g_deps p' = g_deps p"
    "has_task p i \<Longrightarrow> task_state p' i = (case map_of sts i of None \<Rightarrow> task_state p i | Some st \<Rightarrow> st)"
proof -
  have "graph_inv p' \<and> g_tasks p' = g_tasks p \<and> g_deps p' = g_deps p \<and>
    (has_task p i \<longrightarrow> task_state p' i = (case map_of sts i of None \<Rightarrow> task_state p i | Some st \<Rightarrow> st))"
    unfolding p'_def using assms(1,2)
  proof (induction sts arbitrary: p)
    case (Cons e sts)
    let ?p = "if has_task p (fst e) then restore_state (fst e) (snd e) p else p"
    have one: "graph_inv ?p" "g_tasks ?p = g_tasks p" "g_deps ?p = g_deps p"
      using Cons.prems(1) by (auto simp: restore_state_inv) (auto simp: restore_state_def split: option.splits)
    have st: "has_task p i \<Longrightarrow> task_state ?p i = (if i = fst e then snd e else task_state p i)"
      using has_state [OF Cons.prems(1), of i] Cons.prems(1)
      by (auto simp: restore_state_def task_state_def omap_has_def split: option.splits)
    have "has_task ?p i = has_task p i" using one(2) by (simp add: has_task_def)
    moreover have "i = fst e \<Longrightarrow> map_of sts i = None" using Cons.prems(2) by (auto simp: map_of_eq_None_iff)
    ultimately show ?case using Cons.IH [OF one(1)] Cons.prems(2) one(2,3) st by (auto split: option.splits)
  qed simp
  then show "graph_inv p'" "g_tasks p' = g_tasks p" "g_deps p' = g_deps p"
    "has_task p i \<Longrightarrow> task_state p' i = (case map_of sts i of None \<Rightarrow> task_state p i | Some st \<Rightarrow> st)" by blast+
qed

definition recovered :: "ComputeTask \<Rightarrow> TaskState \<Rightarrow> TaskState" where
  "recovered t st =
     (if is_active st then if rp_retry_on_node_loss (t_retry t) \<and> 1 < rp_max_attempts (t_retry t)
        then TS_RetryPending else TS_Failed
      else st)"

lemma recover_one:
  assumes "graph_inv (co_graph s)"
  shows "graph_inv (co_graph (recover_task e s))" "g_tasks (co_graph (recover_task e s)) = g_tasks (co_graph s)"
    "g_deps (co_graph (recover_task e s)) = g_deps (co_graph s)" "co_attempts (recover_task e s) = co_attempts s"
    "co_durable (recover_task e s) = co_durable s"
    "task_state (co_graph (recover_task e s)) i =
       (if i = fst e then recovered (snd e) (task_state (co_graph s) i) else task_state (co_graph s) i)"
proof -
  have snd_lost: "(case set_state j TS_Lost g of (Inl x, g') \<Rightarrow> f g' | (Inr u, g') \<Rightarrow> h g') =
      h (snd (set_state j TS_Lost g))" if "is_active (task_state g j)" for j g and f h :: "TaskGraph \<Rightarrow> Coordinator"
    using that state_present [of g j]
    by (auto simp: set_state_def task_state_def is_active_def is_legal_def omap_has_def split: option.splits)
  have eq: "recover_task e s = (if is_active (task_state (co_graph s) (fst e)) then
      (let s1 = set_task (fst e) TS_Lost s in
       if rp_retry_on_node_loss (t_retry (snd e)) \<and> 1 < rp_max_attempts (t_retry (snd e))
       then schedule_retry (fst e) (snd e) s1 else set_task (fst e) TS_Failed s1) else s)"
    by (simp add: recover_task_def snd_lost set_task_def Let_def)
  note defs = eq schedule_retry_def set_task_def set_retry_at_def tick_def Let_def
  show "graph_inv (co_graph (recover_task e s))" using assms by (simp add: defs set_state_inv)
  show "g_tasks (co_graph (recover_task e s)) = g_tasks (co_graph s)"
    "g_deps (co_graph (recover_task e s)) = g_deps (co_graph s)" by (simp_all add: defs set_state_simps)
  show "co_attempts (recover_task e s) = co_attempts s" "co_durable (recover_task e s) = co_durable s"
    by (simp_all add: defs)
  have "is_active st \<Longrightarrow> is_legal st TS_Lost \<and> st \<noteq> TS_Submitted" for st by (auto simp: is_active_def is_legal_def)
  moreover have "is_legal TS_Lost TS_RetryPending" "is_legal TS_Lost TS_Failed" by (simp_all add: is_legal_def)
  ultimately show "task_state (co_graph (recover_task e s)) i =
      (if i = fst e then recovered (snd e) (task_state (co_graph s) i) else task_state (co_graph s) i)"
    using state_present [of "co_graph s" "fst e"]
    by (auto simp: defs recovered_def state_after_set set_state_simps)
qed

lemma recover_all:
  assumes "graph_inv (co_graph s)" "distinct (map fst es)"
  defines "s' \<equiv> fold recover_task es s"
  shows "graph_inv (co_graph s')" "g_tasks (co_graph s') = g_tasks (co_graph s)" "g_deps (co_graph s') = g_deps (co_graph s)"
    "co_attempts s' = co_attempts s" "co_durable s' = co_durable s"
    "task_state (co_graph s') i = (case map_of es i of None \<Rightarrow> task_state (co_graph s) i
       | Some t \<Rightarrow> recovered t (task_state (co_graph s) i))"
proof -
  have "graph_inv (co_graph s') \<and> g_tasks (co_graph s') = g_tasks (co_graph s) \<and> g_deps (co_graph s') = g_deps (co_graph s) \<and>
    co_attempts s' = co_attempts s \<and> co_durable s' = co_durable s \<and>
    task_state (co_graph s') i = (case map_of es i of None \<Rightarrow> task_state (co_graph s) i
       | Some t \<Rightarrow> recovered t (task_state (co_graph s) i))"
    unfolding s'_def using assms(1,2)
  proof (induction es arbitrary: s)
    case (Cons e es)
    have "i = fst e \<Longrightarrow> map_of es i = None" using Cons.prems(2) by (auto simp: map_of_eq_None_iff)
    then show ?case using Cons.IH [OF recover_one(1) [OF Cons.prems(1), of e]] Cons.prems recover_one [OF Cons.prems(1), of e]
      by (auto split: option.splits)
  qed simp
  then show "graph_inv (co_graph s')" "g_tasks (co_graph s') = g_tasks (co_graph s)" "g_deps (co_graph s') = g_deps (co_graph s)"
    "co_attempts s' = co_attempts s" "co_durable s' = co_durable s"
    "task_state (co_graph s') i = (case map_of es i of None \<Rightarrow> task_state (co_graph s) i
       | Some t \<Rightarrow> recovered t (task_state (co_graph s) i))" by blast+
qed

section \<open>Restart\<close>

lemma persist_saves:
  assumes "ledger_inv (ledger_of s)" "co_writes s (co_saves s) = WO_Ok"
  shows "ds_tasks (co_durable (persist s)) = g_tasks (co_graph s)"
    "ds_task_states (co_durable (persist s)) = graph_states (co_graph s)"
    "ds_attempts (co_durable (persist s)) = committed_attempts (co_attempts s)"
    "ds_epoch (co_durable (persist s)) = epoch s"
    "fs_file (co_fs (persist s)) = Some (store_bytes (co_durable (persist s)))"
  using assms by (simp_all add: persist_def Let_def saved_tasks ledger_inv_def ledger_of_def epoch_def
      store_save_def write_file_atomic_def)

lemma part_of_empty: "part_of graph_empty g"
  by (simp add: part_of_def graph_inv_empty) (simp add: graph_empty_def find_task_def task_state_def)

lemma rebuilt_graph:
  assumes "graph_inv g"
  obtains p where "add_all_tasks (map snd (g_tasks g)) graph_empty = Inr p" "graph_inv p"
    "\<And>i. find_task p i = find_task g i" "\<And>i. task_state p i = TS_Submitted"
proof -
  have ids: "t_id (snd e) = fst e" if "e \<in> set (g_tasks g)" for e
  proof -
    have "map_of (g_tasks g) (fst e) = Some (snd e)" using that assms by (simp add: graph_inv_def omap_ok_distinct)
    then show ?thesis using task_entry(1) [OF assms, of "fst e" "snd e"] by (simp add: find_task_def)
  qed
  then have "map t_id (map snd (g_tasks g)) = map fst (g_tasks g)" by simp
  moreover have "distinct (map fst (g_tasks g))" using assms by (simp add: graph_inv_def omap_ok_distinct)
  ultimately have d: "distinct (map t_id (map snd (g_tasks g)))" by (simp only:)
  have none: "\<not> has_task graph_empty k" for k by (simp add: graph_empty_def has_task_def omap_has_def)
  obtain p where p: "add_all_tasks (map snd (g_tasks g)) graph_empty = Inr p" "part_of p g"
      "\<And>k. has_task p k \<longleftrightarrow> k \<in> t_id ` set (map snd (g_tasks g))"
    using rebuild_all [OF assms subset_refl d part_of_empty] none by auto
  have "t_id ` set (map snd (g_tasks g)) = fst ` set (g_tasks g)"
    using ids by (force simp: image_iff)
  then have same: "has_task p k \<longleftrightarrow> has_task g k" for k using p(3) by (simp add: has_task_def [of g] omap_has_keys)
  have "find_task p k = find_task g k" for k
    using p(2) same [of k] by (cases "find_task p k"; cases "find_task g k") (auto simp: part_of_def has_task_find)
  then show thesis using that p(1,2) by (simp add: part_of_def)
qed

lemma restarted_inv:
  assumes inv: "ledger_inv (g, m)" and "graph_inv g'"
    and find: "\<And>i. find_task g' i = find_task g i"
    and st: "\<And>i t. find_task g i = Some t \<Longrightarrow> task_state g' i = recovered t (task_state g i)"
    and "omap_ok m'" and att: "\<And>i. attempts_of m' i = filter a_committed (attempts_of m i)"
  shows "ledger_inv (g', m')"
proof -
  note parts = inv [unfolded ledger_inv_def fst_conv snd_conv]
  have has: "has_task g' i = has_task g i" for i by (simp add: has_task_find find)
  have none: "task_state g' i = TS_Submitted \<and> task_state g i = TS_Submitted" if "\<not> has_task g i" for i
    using that has no_state parts assms(2) by simp
  have deps: "set (dependencies g' i) = set (dependencies g i)" if "has_task g i" for i
    using that task_entry(2) [of g' i] task_entry(2) [of g i] find parts assms(2) by (auto simp: has_task_find)
  have rec: "past_waiting (recovered t x) = past_waiting x" "recovered t x = TS_Succeeded \<longleftrightarrow> x = TS_Succeeded"
    "recovered t x \<in> {TS_Submitted, TS_Blocked, TS_Cancelled, TS_Expired} \<longleftrightarrow>
     x \<in> {TS_Submitted, TS_Blocked, TS_Cancelled, TS_Expired}" for t x
    by (auto simp: recovered_def is_active_def past_waiting_def)
  have suc: "task_state g' i = TS_Succeeded \<longleftrightarrow> task_state g i = TS_Succeeded" for i
  proof (cases "has_task g i")
    case True
    then obtain t where "find_task g i = Some t" by (auto simp: has_task_find)
    then show ?thesis using st rec(2) [of t "task_state g i"] by simp
  qed (simp add: none)
  have "ordered g'" unfolding ordered_def
  proof (intro allI impI)
    fix i
    assume "has_task g' i"
    then obtain t where t: "find_task g i = Some t" "has_task g i" using has by (auto simp: has_task_find)
    then show "task_state g' i \<in> {TS_Submitted, TS_Blocked, TS_Cancelled, TS_Expired} \<or> dependencies_satisfied g' i"
      using parts st [OF t(1)] rec(3) deps [OF t(2)] suc unfolding ordered_def satisfied_iff by metis
  qed
  moreover have "attempted (g', m')"
    unfolding attempted_def fst_conv snd_conv
  proof (intro allI impI)
    fix i
    assume "attempts_of m' i \<noteq> []"
    then have "attempts_of m i \<noteq> []" using att by auto
    then have i: "has_task g i" "past_waiting (task_state g i)" using parts by (auto simp: attempted_def)
    then obtain t where "find_task g i = Some t" by (auto simp: has_task_find)
    then show "has_task g' i \<and> past_waiting (task_state g' i)" using i has st rec(1) by simp
  qed
  moreover have "filed m'" using parts assms(5) att by (auto simp: filed_def)
  moreover have "results_kept (g', m')" using parts suc att by (fastforce simp: results_kept_def)
  ultimately show ?thesis using assms(2) by (simp add: ledger_inv_def)
qed

text \<open>
  C6: a restart recovers what was saved. When a coordinator whose state satisfies the ledger's invariant
  has saved it, a new coordinator started on that file comes up with the next epoch, with the same
  tasks, with exactly the committed attempts, and with every task in its old state, except that active
  ones wait for a retry or have failed, as their retry policy says; and the ledger's invariant holds
  again.
\<close>

theorem restart_recovers:
  assumes "ledger_inv (ledger_of s)" "co_writes s (co_saves s) = WO_Ok" "storable (co_durable (persist s))"
  shows "\<exists>s'. coordinator_start True None (new_coordinator config (co_fs (persist s)) clock random writes) = Inr s' \<and>
    epoch s' = epoch s + 1 \<and> (\<forall>i. find_task (co_graph s') i = find_task (co_graph s) i) \<and>
    (\<forall>i t. find_task (co_graph s) i = Some t \<longrightarrow> task_state (co_graph s') i = recovered t (task_state (co_graph s) i)) \<and>
    (\<forall>i. attempts_of (co_attempts s') i = filter a_committed (attempts_of (co_attempts s) i)) \<and>
    ledger_inv (ledger_of s')"
proof -
  let ?d = "co_durable (persist s)" and ?g = "co_graph s" and ?n = "new_coordinator config (co_fs (persist s)) clock random writes"
  let ?e = "?d\<lparr>ds_epoch := epoch s + 1\<rparr>"
  note saved = persist_saves [OF assms(1,2)]
  have g: "graph_inv ?g" and m: "omap_ok (co_attempts s)" and inv: "ledger_inv (?g, co_attempts s)"
    using assms(1) by (auto simp: ledger_inv_def ledger_of_def filed_def)
  obtain p where p: "add_all_tasks (map snd (g_tasks ?g)) graph_empty = Inr p" "graph_inv p"
    "\<And>i. find_task p i = find_task ?g i" "\<And>i. task_state p i = TS_Submitted"
    using rebuilt_graph [OF g] by blast
  define s0 where "s0 = restore_durable ?e p (?n\<lparr>co_fs := co_fs (persist s), co_saves := 1\<rparr>)"
  define s1 where "s1 = fold recover_task (g_tasks ?g) s0"
  have load: "store_load path (co_fs (persist s)) = Inr ?d" for path
    by (simp add: store_load_def saved(5) load_store_bytes [OF assms(3)])
  have start: "coordinator_start True None ?n = Inr ((persist s1)\<lparr>co_core_running := True\<rparr>)"
    by (simp add: coordinator_start_def Let_def new_coordinator_def store_open_def saved load p s1_def s0_def)
  have dist: "distinct (map fst (graph_states ?g))" "distinct (map fst (g_tasks ?g))"
    using saved_states(2) [OF g] g by (simp_all add: omap_ok_distinct graph_inv_def)
  note rs = restore_states [OF p(2) dist(1)]
  have s0: "graph_inv (co_graph s0)" "find_task (co_graph s0) i = find_task ?g i"
    "has_task ?g i \<Longrightarrow> task_state (co_graph s0) i = task_state ?g i" "co_attempts s0 = committed_attempts (co_attempts s)"
    "co_durable s0 = ?e" for i
    using rs p(3,4) saved_states(1) [OF g] omap_of_entries_id [OF saved_attempts(1) [OF m]]
    by (simp_all add: s0_def restore_durable_def saved Let_def find_task_def new_coordinator_def omap_of_entries_def
        has_task_find)
  note ra = recover_all [OF s0(1) dist(2), folded s1_def]
  have s1: "find_task (co_graph s1) i = find_task ?g i" "epoch s1 = epoch s + 1"
    "attempts_of (co_attempts s1) i = filter a_committed (attempts_of (co_attempts s) i)" "omap_ok (co_attempts s1)" for i
    using ra s0(2,4,5) saved_attempts [OF m] by (simp_all add: find_task_def epoch_def)
  have st: "task_state (co_graph s1) i = recovered t (task_state ?g i)" if "find_task ?g i = Some t" for i t
    using ra(6) [of i] s0(3) [of i] that by (simp add: find_task_def has_task_find)
  have "ledger_inv (co_graph s1, co_attempts s1)"
    by (rule restarted_inv [OF inv ra(1) s1(1) st s1(4,3)])
  moreover have "ledger_of ((persist s1)\<lparr>co_core_running := True\<rparr>) = (co_graph s1, co_attempts s1)"
    "epoch ((persist s1)\<lparr>co_core_running := True\<rparr>) = epoch s1"
    by (simp_all add: ledger_simps) (simp_all add: ledger_of_def epoch_def persist_def Let_def)
  ultimately show ?thesis using start s1 st by (auto simp: ledger_of_def)
qed

lemma running_persisted:
  "co_durable (persist running_coordinator) = default_durable\<lparr>
     ds_tasks := [(Id128 0 1, sample_task 1 []), (Id128 0 2, sample_task 2 [1])],
     ds_task_states := [(Id128 0 1, TS_Running), (Id128 0 2, TS_Blocked)], ds_retry_counts := [(Id128 0 1, 1)]\<rparr>"
proof -
  have "committed_attempts (co_attempts running_coordinator) = []" "co_placement_records running_coordinator = []"
    "co_durable running_coordinator = default_durable"
    by (simp_all add: committed_attempts_def running_coordinator_def empty_coordinator_def new_coordinator_def
        running_attempt_def default_attempt_def omap_of_entries_def)
  moreover have "co_attempts running_coordinator = [(Id128 0 1, [running_attempt])]" by (simp add: running_coordinator_def)
  moreover have "graph_to_tasks (co_graph running_coordinator) = [(Id128 0 1, sample_task 1 []), (Id128 0 2, sample_task 2 [1])]"
    using running_coordinator_inv by (simp add: saved_tasks ledger_inv_def ledger_of_def)
      (simp add: running_coordinator_def restore_state_def sample_graph_eq)
  moreover have "graph_states (co_graph running_coordinator) = [(Id128 0 1, TS_Running), (Id128 0 2, TS_Blocked)]"
    unfolding graph_states_def running_coordinator_state
    by (simp add: running_coordinator_def restore_state_def sample_graph_eq task_ids_def omap_of_entries_def less_Id128_def)
  ultimately show ?thesis
    by (simp add: persist_def Let_def omap_of_entries_def default_durable_def)
qed

lemma running_storable: "storable (co_durable (persist running_coordinator))"
proof -
  have fits: "task_fits (sample_task n ds)" if "length ds \<le> 1" for n ds
    using that by (simp add: task_fits_def sample_task_def default_task_def fits_defs kMaxList_def)
  have len: "length (serialize_task (sample_task n ds)) \<le> 400" if "length ds \<le> 1" for n ds
    using that by (cases ds) (auto simp: serialize_task_def sample_task_def default_task_def put_id_def put_bytes_def
        put_list_def put_map_def put_blob_def put_string_def
        put_f64_def put_bool_def put_i64_def serialize_retry_policy_def write_optional_id_def)
  show ?thesis
    unfolding running_persisted
    using fits [of "[]" 1] fits [of "[1]" 2] len [of "[]" 1] len [of "[1]" 2]
    by (simp add: storable_def default_durable_def keyed_def state_records_def omap_ok_Cons less_Id128_def
      length_store_bytes store_body_def put_record_def put_bytes_def epoch_record_def task_state_record_def
      retry_count_record_def task_record_def put_id_def)
qed

theorem restart_recovers_witness:
  "\<exists>s'. coordinator_start True None (new_coordinator sample_config (co_fs (persist running_coordinator))
       (\<lambda>_. 0) (\<lambda>_. Id128 0 7) (\<lambda>_. WO_Ok)) = Inr s' \<and>
     epoch s' = 2 \<and> task_state (co_graph s') (Id128 0 1) = TS_Failed"
proof -
  have w: "co_writes running_coordinator (co_saves running_coordinator) = WO_Ok" "epoch running_coordinator = 1"
    by (simp_all add: running_coordinator_def empty_coordinator_def new_coordinator_def epoch_def default_durable_def)
  have "find_task (co_graph running_coordinator) (Id128 0 1) = Some (sample_task 1 [])"
    by (simp add: running_coordinator_def restore_state_def sample_graph_eq find_task_def)
  moreover have "recovered (sample_task 1 []) TS_Running = TS_Failed"
    by (simp add: recovered_def is_active_def sample_task_def default_task_def default_retry_def)
  ultimately show ?thesis
    using restart_recovers [OF running_coordinator_inv w(1) running_storable, of sample_config "\<lambda>_. 0" "\<lambda>_. Id128 0 7" "\<lambda>_. WO_Ok"]
    by (fastforce simp: w(2) running_coordinator_state)
qed

end
