(* ===== verification/Socket.thy ===== *)
theory Socket
  imports Status
begin

text \<open>
  TCP sockets (\<open>net/socket.cpp\<close>, the POSIX branches): the shared state that lets one thread close a socket
  while others use it, the loops over \<open>send\<close> and \<open>accept\<close>, one \<open>recv\<close>, and the system-call sequences of
  \<open>connect\<close> and \<open>bind\<close>.

  \<^item> What the operating system answers is an argument: the result of each call, and for the loops one entry per iteration with
    the clock value read in it. A loop that needs more iterations than it is given has not returned (\<open>None\<close>).
  \<^item> A transfer call of the system never reports more bytes than it was asked for; a reported count is cut to that.
  \<^item> Descriptors are integers; an operation that opens or accepts one returns, beside its result, the descriptors it closed.
\<close>

section \<open>Closing a socket in use\<close>

record SocketState =
  ss_handle :: "int option"
  ss_active_operations :: nat
  ss_closing :: bool
  ss_native_closes :: "int list"

definition new_socket_state :: "int \<Rightarrow> SocketState" where
  "new_socket_state h = \<lparr>ss_handle = Some h, ss_active_operations = 0, ss_closing = False, ss_native_closes = []\<rparr>"

definition acquire_operation :: "SocketState \<Rightarrow> int option \<times> SocketState" where
  "acquire_operation s =
     (if ss_closing s \<or> ss_handle s = None then (None, s)
      else (ss_handle s, s\<lparr>ss_active_operations := ss_active_operations s + 1\<rparr>))"

definition release_operation :: "SocketState \<Rightarrow> SocketState" where
  "release_operation s = s\<lparr>ss_active_operations := ss_active_operations s - 1\<rparr>"

datatype close_plan = CP_Done | CP_Wait | CP_Shut int

definition close_begin :: "SocketState \<Rightarrow> close_plan \<times> SocketState" where
  "close_begin s =
     (case ss_handle s of
        None \<Rightarrow> (CP_Done, s)
      | Some h \<Rightarrow> if ss_closing s then (CP_Wait, s) else (CP_Shut h, s\<lparr>ss_closing := True\<rparr>))"

definition close_end :: "int \<Rightarrow> SocketState \<Rightarrow> SocketState" where
  "close_end h s = s\<lparr>ss_native_closes := ss_native_closes s @ [h], ss_handle := None, ss_closing := False\<rparr>"

definition state_valid :: "SocketState \<Rightarrow> bool" where
  "state_valid s = (\<not> ss_closing s \<and> ss_handle s \<noteq> None)"

text \<open>\<open>close_state\<close> when no operation is under way.\<close>

definition close_state :: "SocketState \<Rightarrow> SocketState" where
  "close_state s = (case close_begin s of (CP_Shut h, s') \<Rightarrow> close_end h s' | (_, s') \<Rightarrow> s')"

text \<open>The threads that use a socket: outside, inside an operation, between the two critical sections of \<open>close_state\<close>, waiting for another closer.\<close>

datatype sock_thread = T_Out | T_Op int | T_Shut int | T_Wait

inductive socket_step :: "SocketState \<times> sock_thread list \<Rightarrow> SocketState \<times> sock_thread list \<Rightarrow> bool" where
  op_begin: "i < length ts \<Longrightarrow> ts ! i = T_Out \<Longrightarrow> acquire_operation s = (Some h, s') \<Longrightarrow> socket_step (s, ts) (s', ts[i := T_Op h])"
| op_end: "i < length ts \<Longrightarrow> ts ! i = T_Op h \<Longrightarrow> socket_step (s, ts) (release_operation s, ts[i := T_Out])"
| close_shut: "i < length ts \<Longrightarrow> ts ! i = T_Out \<Longrightarrow> close_begin s = (CP_Shut h, s') \<Longrightarrow> socket_step (s, ts) (s', ts[i := T_Shut h])"
| close_wait: "i < length ts \<Longrightarrow> ts ! i = T_Out \<Longrightarrow> close_begin s = (CP_Wait, s') \<Longrightarrow> socket_step (s, ts) (s', ts[i := T_Wait])"
| close_native: "i < length ts \<Longrightarrow> ts ! i = T_Shut h \<Longrightarrow> ss_active_operations s = 0 \<Longrightarrow> socket_step (s, ts) (close_end h s, ts[i := T_Out])"
| close_return: "i < length ts \<Longrightarrow> ts ! i = T_Wait \<Longrightarrow> ss_handle s = None \<Longrightarrow> socket_step (s, ts) (s, ts[i := T_Out])"

section \<open>Transfers\<close>

datatype send_outcome = SO_Sent nat | SO_Intr | SO_Again | SO_Broken | SO_Error string

text \<open>
  The loop of \<open>send_all\<close>: the result, and how many bytes were handed to the system. Each iteration has the clock reading, the
  error of \<open>set_send_timeout\<close> if it fails, and the outcome of \<open>send\<close>.
\<close>

fun send_loop :: "int \<Rightarrow> 'b list \<Rightarrow> nat \<Rightarrow> (int \<times> string option \<times> send_outcome) list \<Rightarrow> (unit result \<times> nat) option" where
  "send_loop deadline data sent [] = (if sent < length data then None else Some (Inr (), sent))"
| "send_loop deadline data sent ((now, opt, out) # env) =
     (if \<not> sent < length data then Some (Inr (), sent)
      else if deadline - now \<le> 0 then Some (fail_with E_Timeout ''send timeout'', sent)
      else case opt of
        Some e \<Rightarrow> Some (fail_with E_NetworkError (''failed to configure send timeout: '' @ e), sent)
      | None \<Rightarrow>
        (case out of
           SO_Sent 0 \<Rightarrow> Some (fail_with E_ConnectionClosed ''connection closed during send'', sent)
         | SO_Sent n \<Rightarrow> send_loop deadline data (sent + min n (length data - sent)) env
         | SO_Intr \<Rightarrow> send_loop deadline data sent env
         | SO_Again \<Rightarrow> Some (fail_with E_Timeout ''send timeout'', sent)
         | SO_Broken \<Rightarrow> Some (fail_with E_ConnectionClosed ''connection closed during send'', sent)
         | SO_Error e \<Rightarrow> Some (fail_with E_NetworkError (''send failed: '' @ e), sent)))"

definition send_all :: "bool \<Rightarrow> 'b list \<Rightarrow> int \<Rightarrow> int \<Rightarrow> (int \<times> string option \<times> send_outcome) list \<Rightarrow> (unit result \<times> nat) option" where
  "send_all acquired data timeout_ms now env =
     (if \<not> acquired then Some (fail_with E_NotConnected ''socket not connected'', 0)
      else if data = [] then Some (Inr (), 0)
      else if timeout_ms \<le> 0 then Some (fail_with E_Timeout ''send timeout'', 0)
      else send_loop (now + timeout_ms) data 0 env)"

datatype recv_outcome = RO_Bytes nat | RO_Intr | RO_Again | RO_Reset | RO_Error string

text \<open>\<open>recv_some\<close>: \<open>input\<close> is what the peer has sent and nobody has read; the result is what was read, with the rest.\<close>

definition recv_some :: "bool \<Rightarrow> nat \<Rightarrow> string option \<Rightarrow> recv_outcome \<Rightarrow> 'b list \<Rightarrow> 'b list result \<times> 'b list" where
  "recv_some acquired cap opt out input =
     (if cap = 0 then (Inr [], input)
      else if \<not> acquired then (fail_with E_NotConnected ''socket not connected'', input)
      else case opt of
        Some e \<Rightarrow> (fail_with E_NetworkError (''failed to configure receive timeout: '' @ e), input)
      | None \<Rightarrow>
        let cap = (if 0x7FFFFFFF < cap then 0x7FFFFFFF else cap) in
        (case out of
           RO_Bytes 0 \<Rightarrow> (fail_with E_ConnectionClosed ''connection closed'', input)
         | RO_Bytes n \<Rightarrow> (Inr (take (min n cap) input), drop (min n cap) input)
         | RO_Intr \<Rightarrow> (fail_with E_Timeout ''recv interrupted'', input)
         | RO_Again \<Rightarrow> (fail_with E_Timeout ''recv timeout'', input)
         | RO_Reset \<Rightarrow> (fail_with E_ConnectionClosed ''connection reset'', input)
         | RO_Error e \<Rightarrow> (fail_with E_NetworkError (''recv failed: '' @ e), input)))"

section \<open>Opening sockets\<close>

record TcpSocket =
  tcp_state :: SocketState
  tcp_peer :: string

definition from_raw :: "int \<Rightarrow> string \<Rightarrow> string option \<Rightarrow> TcpSocket result \<times> int list" where
  "from_raw h peer timeouts =
     (if h = -1 then (fail_with E_NotConnected ''invalid accepted socket'', [])
      else case timeouts of
        Some e \<Rightarrow> (fail_with E_NetworkError (''failed to configure accepted socket timeouts: '' @ e), [h])
      | None \<Rightarrow> (Inr \<lparr>tcp_state = new_socket_state h, tcp_peer = peer\<rparr>, []))"

datatype accept_outcome = AO_Conn int | AO_Again | AO_Intr | AO_Error string

text \<open>The polling loop of \<open>accept\<close>: whether the listener could still be used, the answer of \<open>accept\<close> and the clock.\<close>

fun accept_loop :: "int \<Rightarrow> string option \<Rightarrow> (bool \<times> accept_outcome \<times> int) list \<Rightarrow> (TcpSocket result \<times> int list) option" where
  "accept_loop deadline timeouts [] = None"
| "accept_loop deadline timeouts ((acquired, out, now) # env) =
     (if \<not> acquired then Some (fail_with E_ConnectionClosed ''listener closed'', [])
      else case out of
        AO_Conn h \<Rightarrow> Some (from_raw h ''accepted'' timeouts)
      | AO_Again \<Rightarrow> if deadline \<le> now then Some (fail_with E_Timeout ''accept timeout'', []) else accept_loop deadline timeouts env
      | AO_Intr \<Rightarrow> Some (fail_with E_ConnectionClosed ''accept interrupted'', [])
      | AO_Error e \<Rightarrow> Some (fail_with E_NetworkError (''accept failed: '' @ e), []))"

definition tcp_accept :: "int \<Rightarrow> int \<Rightarrow> string option \<Rightarrow> (bool \<times> accept_outcome \<times> int) list \<Rightarrow> (TcpSocket result \<times> int list) option" where
  "tcp_accept timeout_ms now timeouts env = accept_loop (now + timeout_ms) timeouts env"

text \<open>The calls \<open>connect\<close> makes, in order, each with its error; \<open>cn_connect\<close> says whether it completed at once, is in progress or failed.\<close>

datatype connect_outcome = CO_Done | CO_Pending | CO_Failed string

datatype select_outcome = SE_Ready | SE_Timeout | SE_Failed string

record ConnectEnv =
  cn_resolved :: bool
  cn_socket :: "string + int"
  cn_get_flags :: "string option"
  cn_set_nonblock :: "string option"
  cn_connect :: connect_outcome
  cn_select :: select_outcome
  cn_query :: "string option"
  cn_soerr :: bool
  cn_get_flags2 :: "string option"
  cn_set_block :: "string option"
  cn_timeouts :: "string option"

definition close_failing :: "int \<Rightarrow> ErrorCode \<Rightarrow> string \<Rightarrow> 'a result \<times> int list" where
  "close_failing h code what = (fail_with code what, [h])"

definition connect_wait :: "string \<Rightarrow> u16 \<Rightarrow> ConnectEnv \<Rightarrow> int \<Rightarrow> (ErrorCode \<times> string) option" where
  "connect_wait host port env h =
     (case cn_connect env of
        CO_Done \<Rightarrow> None
      | CO_Failed e \<Rightarrow> Some (E_NetworkError, ''connect() failed: '' @ e)
      | CO_Pending \<Rightarrow>
        (case cn_select env of
           SE_Timeout \<Rightarrow> Some (E_Timeout, ''connect timed out to '' @ host @ '':'' @ u64_to_string port)
         | SE_Failed e \<Rightarrow> Some (E_NetworkError, ''connect readiness wait failed: '' @ e)
         | SE_Ready \<Rightarrow>
           (case cn_query env of
              Some e \<Rightarrow> Some (E_NetworkError, ''connect completion query failed: '' @ e)
            | None \<Rightarrow> if cn_soerr env then Some (E_NetworkError, ''connect() failed on '' @ host) else None)))"

definition tcp_connect :: "string \<Rightarrow> u16 \<Rightarrow> ConnectEnv \<Rightarrow> TcpSocket result \<times> int list" where
  "tcp_connect host port env =
     (if \<not> cn_resolved env then (fail_with E_NetworkError (''cannot resolve '' @ host), [])
      else case cn_socket env of
        Inl e \<Rightarrow> (fail_with E_NetworkError (''socket() failed: '' @ e), [])
      | Inr h \<Rightarrow>
        (case cn_get_flags env of
           Some e \<Rightarrow> close_failing h E_NetworkError (''failed to read socket flags before connect: '' @ e)
         | None \<Rightarrow>
        (case cn_set_nonblock env of
           Some e \<Rightarrow> close_failing h E_NetworkError (''failed to set socket non-blocking: '' @ e)
         | None \<Rightarrow>
        (case connect_wait host port env h of
           Some (code, what) \<Rightarrow> close_failing h code what
         | None \<Rightarrow>
        (case cn_get_flags2 env of
           Some e \<Rightarrow> close_failing h E_NetworkError (''failed to read socket flags after connect: '' @ e)
         | None \<Rightarrow>
        (case cn_set_block env of
           Some e \<Rightarrow> close_failing h E_NetworkError (''failed to restore socket blocking mode: '' @ e)
         | None \<Rightarrow>
        (case cn_timeouts env of
           Some e \<Rightarrow> close_failing h E_NetworkError (''failed to configure connected socket timeouts: '' @ e)
         | None \<Rightarrow> (Inr \<lparr>tcp_state = new_socket_state h, tcp_peer = host @ '':'' @ u64_to_string port\<rparr>, []))))))))"

record BindEnv =
  bn_socket :: "string + int"
  bn_bind :: "string option"
  bn_listen :: "string option"
  bn_nonblock :: "string option"
  bn_name :: "string + u16"

record TcpListener =
  tl_state :: SocketState
  tl_port :: u16

definition tcp_bind :: "u16 \<Rightarrow> BindEnv \<Rightarrow> TcpListener result \<times> int list" where
  "tcp_bind port env =
     (case bn_socket env of
        Inl e \<Rightarrow> (fail_with E_NetworkError (''socket() failed: '' @ e), [])
      | Inr h \<Rightarrow>
        (case bn_bind env of
           Some e \<Rightarrow> close_failing h E_NetworkError (''bind failed on port '' @ u64_to_string port @ '': '' @ e)
         | None \<Rightarrow>
        (case bn_listen env of
           Some e \<Rightarrow> close_failing h E_NetworkError (''listen failed: '' @ e)
         | None \<Rightarrow>
        (case bn_nonblock env of
           Some e \<Rightarrow> close_failing h E_NetworkError (''failed to set listener non-blocking: '' @ e)
         | None \<Rightarrow>
        (case bn_name env of
           Inl e \<Rightarrow> close_failing h E_NetworkError (''failed to query listener address: '' @ e)
         | Inr bound \<Rightarrow> (Inr \<lparr>tl_state = new_socket_state h, tl_port = bound\<rparr>, []))))))"

section \<open>A socket is closed once, after its last use\<close>

fun op_thread :: "sock_thread \<Rightarrow> bool" where
  "op_thread (T_Op h) = True"
| "op_thread _ = False"

fun shut_thread :: "sock_thread \<Rightarrow> bool" where
  "shut_thread (T_Shut h) = True"
| "shut_thread _ = False"

definition count :: "('t \<Rightarrow> bool) \<Rightarrow> 't list \<Rightarrow> nat" where
  "count p ts = length (filter p ts)"

lemma count_update: "i < length ts \<Longrightarrow> count p (ts[i := t]) + of_bool (p (ts ! i)) = count p ts + of_bool (p t)"
proof (induction ts arbitrary: i)
  case (Cons v ts)
  then show ?case by (cases i) (auto simp: count_def)
qed simp

lemma count_pos: "t \<in> set ts \<Longrightarrow> p t \<Longrightarrow> 0 < count p ts"
  by (auto simp: count_def filter_empty_conv)

lemma update_mem: "t \<in> set (ts[i := u]) \<Longrightarrow> t \<in> set ts \<or> t = u"
  using set_update_subset_insert [of ts i u] by auto

text \<open>
  The descriptor \<open>h\<close> of a socket: as long as it is installed it has not been closed, every operation and every
  closer works on it; the counter counts the operations, and there is one closer when \<open>closing\<close> is set and none otherwise.
\<close>

definition sock_inv :: "int \<Rightarrow> SocketState \<times> sock_thread list \<Rightarrow> bool" where
  "sock_inv h c \<longleftrightarrow>
     ss_active_operations (fst c) = count op_thread (snd c) \<and>
     count shut_thread (snd c) = of_bool (ss_closing (fst c)) \<and>
     (\<forall>k. T_Op k \<in> set (snd c) \<or> T_Shut k \<in> set (snd c) \<longrightarrow> k = h \<and> ss_handle (fst c) = Some h) \<and>
     (T_Wait \<in> set (snd c) \<longrightarrow> ss_closing (fst c) \<or> ss_handle (fst c) = None) \<and>
     (ss_handle (fst c) = Some h \<and> ss_native_closes (fst c) = [] \<or>
      ss_handle (fst c) = None \<and> ss_native_closes (fst c) = [h] \<and> \<not> ss_closing (fst c))"

lemma socket_step_inv:
  assumes "socket_step c c'" "sock_inv h c"
  shows "sock_inv h c'"
  using assms
proof cases
  case (op_begin i ts s k s')
  then show ?thesis using assms(2) count_update [OF op_begin(3), of op_thread "T_Op k"] count_update [OF op_begin(3), of shut_thread "T_Op k"]
    by (auto simp: sock_inv_def acquire_operation_def split: if_splits dest!: update_mem)
next
  case (op_end i ts k s)
  then show ?thesis using assms(2) count_update [OF op_end(3), of op_thread T_Out] count_update [OF op_end(3), of shut_thread T_Out]
    by (auto simp: sock_inv_def release_operation_def dest!: update_mem)
next
  case (close_shut i ts s k s')
  then show ?thesis using assms(2) count_update [OF close_shut(3), of op_thread "T_Shut k"] count_update [OF close_shut(3), of shut_thread "T_Shut k"]
    by (auto simp: sock_inv_def close_begin_def split: option.splits if_splits dest!: update_mem)
next
  case (close_wait i ts s s')
  then show ?thesis using assms(2) count_update [OF close_wait(3), of op_thread T_Wait] count_update [OF close_wait(3), of shut_thread T_Wait]
    by (auto simp: sock_inv_def close_begin_def split: option.splits if_splits dest!: update_mem)
next
  case (close_native i ts k s)
  then have k: "T_Shut k \<in> set ts" using nth_mem by force
  have none: "count op_thread (ts[i := T_Out]) = 0" "count shut_thread (ts[i := T_Out]) = 0"
    using close_native assms(2) k count_update [OF close_native(3), of op_thread T_Out] count_update [OF close_native(3), of shut_thread T_Out]
      count_pos [OF k, of shut_thread] by (auto simp: sock_inv_def split: if_splits)
  then have "T_Op j \<notin> set (ts[i := T_Out])" "T_Shut j \<notin> set (ts[i := T_Out])" for j
    using count_pos [of "T_Op j" "ts[i := T_Out]" op_thread] count_pos [of "T_Shut j" "ts[i := T_Out]" shut_thread] by auto
  then show ?thesis using close_native assms(2) k none by (auto simp: sock_inv_def close_end_def)
next
  case (close_return i ts s)
  then show ?thesis using assms(2) count_update [OF close_return(3), of op_thread T_Out] count_update [OF close_return(3), of shut_thread T_Out]
    by (auto simp: sock_inv_def dest!: update_mem)
qed

lemma sock_inv_start: "sock_inv h (new_socket_state h, replicate n T_Out)"
  by (simp add: sock_inv_def new_socket_state_def count_def)

text \<open>
  C20: closing a socket is safe under concurrency. However operations and closers interleave, the descriptor is passed to the
  system's close at most once, never while an operation holds it, and never used after it; no operation starts while it is being
  closed; and closing does not get stuck: once the operations under way are over, the closing thread can finish, and the threads waiting
  for it can return.
\<close>

theorem socket_closed_once:
  assumes "socket_step\<^sup>*\<^sup>* (new_socket_state h, replicate n T_Out) (s, ts)"
  shows "ss_native_closes s = (if ss_handle s = None then [h] else []) \<and>
    (T_Op k \<in> set ts \<longrightarrow> k = h \<and> ss_native_closes s = []) \<and>
    (ss_closing s \<longrightarrow> fst (acquire_operation s) = None) \<and>
    (ss_closing s \<and> \<not> list_ex op_thread ts \<longrightarrow> (\<exists>ts'. socket_step (s, ts) (close_end h s, ts'))) \<and>
    (T_Wait \<in> set ts \<longrightarrow> ss_closing s \<or> ss_handle s = None)"
proof -
  have inv: "sock_inv h (s, ts)"
    using assms by (induction rule: rtranclp_induct) (auto intro: sock_inv_start socket_step_inv)
  have "\<exists>ts'. socket_step (s, ts) (close_end h s, ts')" if "ss_closing s" "\<not> list_ex op_thread ts"
  proof -
    have "count shut_thread ts = 1" "count op_thread ts = 0"
      using inv that by (auto simp: sock_inv_def count_def filter_empty_conv list_ex_iff)
    then have "filter shut_thread ts \<noteq> []" by (auto simp: count_def)
    then obtain t where "t \<in> set ts" "shut_thread t" by (auto simp: filter_empty_conv)
    then obtain k where "T_Shut k \<in> set ts" by (auto elim: shut_thread.elims)
    then obtain i where "i < length ts" "ts ! i = T_Shut k" by (auto simp: in_set_conv_nth)
    with inv \<open>count op_thread ts = 0\<close> have "socket_step (s, ts) (close_end h s, ts[i := T_Out])"
      by (metis close_native fst_conv nth_mem snd_conv sock_inv_def)
    then show ?thesis by blast
  qed
  with inv show ?thesis
    by (auto simp: sock_inv_def acquire_operation_def dest: count_pos [where p = shut_thread])
qed

theorem socket_closed_once_witness:
  "ss_native_closes (close_end 4 ((new_socket_state 4)\<lparr>ss_closing := True\<rparr>)) = [4]"
proof -
  let ?s = "new_socket_state 4" and ?s1 = "(new_socket_state 4)\<lparr>ss_closing := True\<rparr>"
  have "socket_step (?s, replicate 2 T_Out) (?s1, (replicate 2 T_Out)[0 := T_Shut 4])"
    by (rule socket_step.close_shut) (simp_all add: close_begin_def new_socket_state_def)
  moreover have "socket_step (?s1, (replicate 2 T_Out)[0 := T_Shut 4]) (close_end 4 ?s1, (replicate 2 T_Out)[0 := T_Shut 4, 0 := T_Out])"
    by (rule socket_step.close_native) (simp_all add: new_socket_state_def)
  ultimately have "socket_step\<^sup>*\<^sup>* (?s, replicate 2 T_Out) (close_end 4 ?s1, (replicate 2 T_Out)[0 := T_Shut 4, 0 := T_Out])"
    by (meson converse_rtranclp_into_rtranclp rtranclp.rtrancl_refl)
  from socket_closed_once [OF this] show ?thesis by (simp add: close_end_def)
qed

section \<open>Sending and opening\<close>

lemma send_loop_outcome:
  "send_loop deadline data sent env = Some (r, n) \<Longrightarrow> sent \<le> length data \<Longrightarrow>
     sent \<le> n \<and> n \<le> length data \<and> (r = Inr () \<longleftrightarrow> n = length data)"
  by (induction deadline data sent env rule: send_loop.induct)
    (force simp: fail_with_def split: if_splits option.splits send_outcome.splits nat.splits)+

lemma send_loop_returns:
  "list_ex (\<lambda>e. deadline \<le> fst e) env \<Longrightarrow> \<exists>r n. send_loop deadline data sent env = Some (r, n)"
  by (induction deadline data sent env rule: send_loop.induct)
    (auto split: option.splits send_outcome.splits nat.splits)

lemma send_loop_finishes:
  "length data \<le> sent + length env \<Longrightarrow> \<forall>e \<in> set env. fst e < deadline \<and> fst (snd e) = None \<and> (\<exists>k. snd (snd e) = SO_Sent (Suc k)) \<Longrightarrow>
     sent \<le> length data \<Longrightarrow> send_loop deadline data sent env = Some (Inr (), length data)"
proof (induction deadline data sent env rule: send_loop.induct)
  case (2 deadline data sent now opt out env)
  then obtain k where k: "out = SO_Sent (Suc k)" "opt = None" "now < deadline" by auto
  show ?case
  proof (cases "sent < length data")
    case True
    have "send_loop deadline data (sent + min (Suc k) (length data - sent)) env = Some (Inr (), length data)"
      using 2 k True by (intro "2.IH"(1)) auto
    with True k show ?thesis by simp
  qed (use 2 in simp)
qed simp

text \<open>
  C38: \<open>send_all\<close> sends everything or says so. When it returns, the bytes handed over are a prefix of
  the data, and it reports success exactly when on a usable socket that prefix is all of it; it returns no later than the
  first time its loop sees the deadline passed; and when the system keeps taking at least one byte per call before the deadline, it
  succeeds after at most as many calls as there are bytes.
\<close>

theorem send_all_exact:
  "(send_all acquired data timeout_ms now env = Some (r, n) \<longrightarrow>
      n \<le> length data \<and> (r = Inr () \<longleftrightarrow> acquired \<and> n = length data)) \<and>
   ((\<exists>e. e \<in> set env \<and> now + timeout_ms \<le> fst e) \<longrightarrow> (\<exists>r n. send_all acquired data timeout_ms now env = Some (r, n))) \<and>
   (acquired \<and> 0 < timeout_ms \<and> length data \<le> length env \<and>
    (\<forall>e. e \<in> set env \<longrightarrow> fst e < now + timeout_ms \<and> fst (snd e) = None \<and> (\<exists>k. snd (snd e) = SO_Sent (Suc k))) \<longrightarrow>
      send_all acquired data timeout_ms now env = Some (Inr (), length data))"
proof (intro conjI impI)
  assume "send_all acquired data timeout_ms now env = Some (r, n)"
  then show "n \<le> length data" "r = Inr () \<longleftrightarrow> acquired \<and> n = length data"
    using send_loop_outcome [of "now + timeout_ms" data 0 env r n]
    by (auto simp: send_all_def fail_with_def split: if_splits)
next
  assume "\<exists>e. e \<in> set env \<and> now + timeout_ms \<le> fst e"
  then have "list_ex (\<lambda>e. now + timeout_ms \<le> fst e) env" by (force simp: list_ex_iff)
  then show "\<exists>r n. send_all acquired data timeout_ms now env = Some (r, n)"
    using send_loop_returns [of "now + timeout_ms" env data 0] by (auto simp: send_all_def fail_with_def)
next
  assume "acquired \<and> 0 < timeout_ms \<and> length data \<le> length env \<and>
    (\<forall>e. e \<in> set env \<longrightarrow> fst e < now + timeout_ms \<and> fst (snd e) = None \<and> (\<exists>k. snd (snd e) = SO_Sent (Suc k)))"
  then show "send_all acquired data timeout_ms now env = Some (Inr (), length data)"
    using send_loop_finishes [of data 0 env "now + timeout_ms"] by (simp add: send_all_def Ball_def)
qed

theorem send_all_exact_witness:
  "send_all True [1, 2, 3 :: u8] 100 0 [(1, None, SO_Sent 2), (2, None, SO_Sent 9), (3, None, SO_Sent 1)] = Some (Inr (), 3)"
  using send_all_exact [of True "[1, 2, 3 :: u8]" 100 0 "[(1, None, SO_Sent 2), (2, None, SO_Sent 9), (3, None, SO_Sent 1)]"]
  by (auto simp: numeral_eq_Suc)

text \<open>
  No descriptor leaks. On every path of \<open>connect\<close> and \<open>bind\<close> the descriptor that was opened is closed exactly when the
  operation fails; when it succeeds, the descriptor is the one in the returned socket or listener, and nothing was closed.
\<close>

theorem opened_descriptor_owned_or_closed:
  "(cn_resolved cenv \<and> cn_socket cenv = Inr h \<longrightarrow>
      (case tcp_connect host port cenv of
         (Inl e, closed) \<Rightarrow> closed = [h]
       | (Inr s, closed) \<Rightarrow> closed = [] \<and> tcp_state s = new_socket_state h)) \<and>
   (bn_socket benv = Inr h \<longrightarrow>
      (case tcp_bind port benv of
         (Inl e, closed) \<Rightarrow> closed = [h]
       | (Inr l, closed) \<Rightarrow> closed = [] \<and> tl_state l = new_socket_state h))"
  by (auto simp: tcp_connect_def tcp_bind_def close_failing_def fail_with_def split: option.splits sum.splits prod.splits)

theorem opened_descriptor_owned_or_closed_witness:
  "tcp_bind 80 \<lparr>bn_socket = Inr 5, bn_bind = None, bn_listen = Some ''in use'', bn_nonblock = None, bn_name = Inr 80\<rparr> =
     (fail_with E_NetworkError ''listen failed: in use'', [5])"
  using opened_descriptor_owned_or_closed [where benv = "\<lparr>bn_socket = Inr 5, bn_bind = None, bn_listen = Some ''in use'', bn_nonblock = None, bn_name = Inr 80\<rparr>"
    and port = 80 and h = 5]
  by (simp add: tcp_bind_def close_failing_def)

end
