(* ===== verification/Channel.thy ===== *)
theory Channel
  imports Socket Frame "HOL-Library.Sublist"
begin

text \<open>
  The framed channel over a socket (\<open>net/channel.cpp\<close>): sending a frame as header and payload, and reassembling frames from
  a byte stream that arrives in arbitrary pieces, with time limits, over several calls.

  The receive buffer \<open>recv_buffer_\<close> and the unread input of the socket are passed along. Each iteration of
  \<open>recv_frame\<close> that reads takes from its environment the clock, whether the socket could be acquired, and the answers of the
  two system calls in \<open>recv_some\<close>.
\<close>

section \<open>Definitions\<close>

definition frame_wire :: "Frame \<Rightarrow> byte list" where
  "frame_wire frame = encode_header (f_header frame) @ f_payload frame"

definition send_frame :: "bool \<Rightarrow> bool \<Rightarrow> Frame \<Rightarrow> int \<Rightarrow> int \<Rightarrow> (int \<times> string option \<times> send_outcome) list \<Rightarrow> (unit result \<times> nat) option" where
  "send_frame valid acquired frame timeout_ms now env =
     (if \<not> valid then Some (fail_with E_NotConnected ''channel closed'', 0)
      else send_all acquired (frame_wire frame) timeout_ms now env)"

definition send_message :: "bool \<Rightarrow> bool \<Rightarrow> u16 \<Rightarrow> SenderKind \<Rightarrow> Id128 \<Rightarrow> u64 \<Rightarrow> byte list \<Rightarrow> int \<Rightarrow> int \<Rightarrow>
    (int \<times> string option \<times> send_outcome) list \<Rightarrow> (unit result \<times> nat) option" where
  "send_message valid acquired message_type kind sender_id request_id payload timeout_ms now env =
     send_frame valid acquired (make_frame message_type kind sender_id request_id payload) timeout_ms now env"

text \<open>The buffered part of an iteration: a result with the new buffer, or the number of bytes the buffer must reach.\<close>

datatype buffered = Complete "Frame result" | Incomplete nat

definition buffered_frame :: "u32 \<Rightarrow> byte list \<Rightarrow> buffered" where
  "buffered_frame max_frame_bytes buf =
     (if kHeaderSize \<le> length buf then
        (case decode_header (take kHeaderSize buf) of
           Inl e \<Rightarrow> Complete (Inl e)
         | Inr h \<Rightarrow>
             if max_frame_bytes < fh_payload_length h
             then Complete (fail_with E_MalformedFrame ''payload exceeds channel frame limit'')
             else
               let required = kHeaderSize + unat (fh_payload_length h) in
               if length buf = required then
                 let frame = \<lparr>f_header = h, f_payload = drop kHeaderSize buf\<rparr> in
                 (case validate_frame frame of Inl e \<Rightarrow> Complete (Inl e) | Inr _ \<Rightarrow> Complete (Inr frame))
               else Incomplete required)
      else Incomplete kHeaderSize)"

type_synonym recv_env = "(int \<times> bool \<times> string option \<times> recv_outcome) list"

fun recv_loop :: "u32 \<Rightarrow> int \<Rightarrow> byte list \<Rightarrow> byte list \<Rightarrow> recv_env \<Rightarrow> (Frame result \<times> byte list \<times> byte list) option" where
  "recv_loop max_frame_bytes deadline buf input [] =
     (case buffered_frame max_frame_bytes buf of Complete r \<Rightarrow> Some (r, [], input) | Incomplete required \<Rightarrow> None)"
| "recv_loop max_frame_bytes deadline buf input ((now, acquired, opt, out) # env) =
     (case buffered_frame max_frame_bytes buf of
        Complete r \<Rightarrow> Some (r, [], input)
      | Incomplete required \<Rightarrow>
          if deadline - now \<le> 0 then Some (fail_with E_Timeout ''recv timeout'', buf, input)
          else
            (case recv_some acquired (required - length buf) opt out input of
               (Inl e, input') \<Rightarrow> Some (Inl e, if err_code e \<noteq> E_Timeout then [] else buf, input')
             | (Inr bs, input') \<Rightarrow> recv_loop max_frame_bytes deadline (buf @ bs) input' env))"

definition recv_frame :: "bool \<Rightarrow> int \<Rightarrow> u32 \<Rightarrow> int \<Rightarrow> recv_env \<Rightarrow> byte list \<Rightarrow> byte list \<Rightarrow> (Frame result \<times> byte list \<times> byte list) option" where
  "recv_frame valid timeout_ms max_frame_bytes now env buf input =
     (if \<not> valid then Some (fail_with E_NotConnected ''channel closed'', buf, input)
      else recv_loop max_frame_bytes (now + (if 0 < timeout_ms then timeout_ms else 1)) buf input env)"

definition channel_close :: "SocketState \<Rightarrow> byte list \<Rightarrow> SocketState \<times> byte list" where
  "channel_close s buf = (close_state s, [])"

text \<open>
  A receiving thread: repeated calls until one fails with something other than a timeout. Every caller
  in the sources gives the connection up then.
\<close>

record recv_call =
  rc_valid :: bool
  rc_timeout_ms :: int
  rc_now :: int
  rc_env :: recv_env

definition fatal :: "'a result \<Rightarrow> bool" where
  "fatal r = (case r of Inl e \<Rightarrow> err_code e \<noteq> E_Timeout | Inr _ \<Rightarrow> False)"

fun receive :: "u32 \<Rightarrow> recv_call list \<Rightarrow> byte list \<Rightarrow> byte list \<Rightarrow> Frame result list" where
  "receive max_frame_bytes [] buf input = []"
| "receive max_frame_bytes (c # cs) buf input =
     (case recv_frame (rc_valid c) (rc_timeout_ms c) max_frame_bytes (rc_now c) (rc_env c) buf input of
        None \<Rightarrow> []
      | Some (r, buf', input') \<Rightarrow> r # (if fatal r then [] else receive max_frame_bytes cs buf' input'))"

fun frames_of :: "Frame result list \<Rightarrow> Frame list" where
  "frames_of [] = []"
| "frames_of (Inr f # rs) = f # frames_of rs"
| "frames_of (Inl e # rs) = frames_of rs"

section \<open>Reassembly\<close>

text \<open>A frame that the receiving side accepts: its header is one the encoder produces, and the limits of the channel hold.\<close>

definition receivable :: "u32 \<Rightarrow> Frame \<Rightarrow> bool" where
  "receivable max_frame_bytes f \<longleftrightarrow> decode_header (encode_header (f_header f)) = Inr (f_header f) \<and> validate_frame f = Inr () \<and>
     fh_payload_length (f_header f) \<le> max_frame_bytes \<and> length (f_payload f) = unat (fh_payload_length (f_header f))"

lemma length_frame_wire [simp]: "length (frame_wire f) = kHeaderSize + length (f_payload f)"
  by (simp add: frame_wire_def)

lemma buffered_prefix:
  assumes "receivable m f" "buf @ input = frame_wire f @ rest" "length buf < length (frame_wire f)"
  shows "\<exists>required. buffered_frame m buf = Incomplete required \<and> length buf < required \<and> required \<le> length (frame_wire f)"
proof (cases "kHeaderSize \<le> length buf")
  case True
  have "take kHeaderSize (buf @ input) = encode_header (f_header f)"
    unfolding assms(2) by (simp add: frame_wire_def)
  then have "take kHeaderSize buf = encode_header (f_header f)" using True by simp
  then show ?thesis using assms True by (auto simp: buffered_frame_def receivable_def Let_def)
qed (use assms(3) in \<open>simp add: buffered_frame_def\<close>)

lemma buffered_whole:
  assumes "receivable m f"
  shows "buffered_frame m (frame_wire f) = Complete (Inr f)"
  using assms by (cases f) (auto simp: buffered_frame_def receivable_def frame_wire_def Let_def not_less)

lemma recv_some_moves: "recv_some acq cap opt out input = (Inr bs, input') \<Longrightarrow> bs @ input' = input \<and> length bs \<le> cap"
  by (auto simp: recv_some_def fail_with_def Let_def split: if_splits option.splits recv_outcome.splits nat.splits)

lemma recv_some_fails: "recv_some acq cap opt out input = (Inl e, input') \<Longrightarrow> input' = input"
  by (auto simp: recv_some_def fail_with_def Let_def split: if_splits option.splits recv_outcome.splits nat.splits)

text \<open>One call on a stream whose next frame is \<open>f\<close>: the frame, or a timeout that keeps what has arrived, or a fatal error.\<close>

lemma recv_loop_next:
  assumes "receivable m f" "buf @ input = frame_wire f @ rest" "length buf < length (frame_wire f)"
    "recv_loop m deadline buf input env = Some (r, buf', input')"
  shows "r = Inr f \<and> buf' = [] \<and> input' = rest \<or>
    (\<exists>e. r = Inl e \<and> err_code e = E_Timeout \<and> buf' @ input' = frame_wire f @ rest \<and> length buf' < length (frame_wire f)) \<or> fatal r"
  using assms(2-)
proof (induction env arbitrary: buf input)
  case Nil
  obtain required where "buffered_frame m buf = Incomplete required" using buffered_prefix [OF assms(1) Nil(1,2)] by blast
  with Nil(3) show ?case by simp
next
  case (Cons c env)
  obtain now acq opt out where c: "c = (now, acq, opt, out)" by (cases c) auto
  obtain required where req: "buffered_frame m buf = Incomplete required" "length buf < required" "required \<le> length (frame_wire f)"
    using buffered_prefix [OF assms(1) Cons.prems(1,2)] by blast
  show ?case
  proof (cases "deadline - now \<le> 0")
    case True
    with Cons.prems req(1) c show ?thesis by (auto simp: fail_with_def)
  next
    case False
    obtain got input1 where got: "recv_some acq (required - length buf) opt out input = (got, input1)" by fastforce
    show ?thesis
    proof (cases got)
      case (Inl e)
      with got recv_some_fails have "input1 = input" by blast
      with Cons.prems req(1) c False got Inl show ?thesis by (auto simp: fatal_def split: if_splits)
    next
      case (Inr bs)
      with got recv_some_moves have bs: "bs @ input1 = input" "length bs \<le> required - length buf" by blast+
      have rest: "recv_loop m deadline (buf @ bs) input1 env = Some (r, buf', input')"
        using Cons.prems(3) req(1) c False got Inr by simp
      have stream: "(buf @ bs) @ input1 = frame_wire f @ rest" using Cons.prems(1) bs(1) by simp
      show ?thesis
      proof (cases "length (buf @ bs) < length (frame_wire f)")
        case True
        from Cons.IH [OF stream True rest] show ?thesis .
      next
        case False
        with bs(2) req have "length (buf @ bs) = length (frame_wire f)" by simp
        with stream have "buf @ bs = frame_wire f \<and> input1 = rest" 
          using append_eq_append_conv [of "buf @ bs" "frame_wire f" input1 rest] by blast
        with rest buffered_whole [OF assms(1)] show ?thesis by (cases env) auto
      qed
    qed
  qed
qed

lemma recv_loop_silent:
  "recv_loop m deadline [] [] env = Some (r, buf', input') \<Longrightarrow> (\<exists>e. r = Inl e) \<and> buf' = [] \<and> input' = []"
proof (induction env)
  case (Cons c env)
  obtain now acq opt out where c: "c = (now, acq, opt, out)" by (cases c) auto
  obtain got input1 where got: "recv_some acq kHeaderSize opt out ([] :: byte list) = (got, input1)" by fastforce
  have "input1 = []" using recv_some_moves [of acq kHeaderSize opt out "[]"] recv_some_fails [of acq kHeaderSize opt out "[]"] got
    by (cases got) auto
  moreover have "got = Inr bs \<Longrightarrow> bs = []" for bs using recv_some_moves [of acq kHeaderSize opt out "[]"] got by auto
  ultimately show ?case using Cons c got
    by (cases got) (auto simp: buffered_frame_def kHeaderSize_def fail_with_def split: if_splits)
qed (simp add: buffered_frame_def kHeaderSize_def)

text \<open>The next bytes of a stream of frames: part of its first frame is already buffered.\<close>

definition stream_of :: "Frame list \<Rightarrow> byte list \<Rightarrow> byte list \<Rightarrow> bool" where
  "stream_of fs buf input \<longleftrightarrow> buf @ input = concat (map frame_wire fs) \<and>
     (fs = [] \<or> length buf < length (frame_wire (hd fs)))"

lemma wire_nonempty: "0 < length (frame_wire f)"
  by (simp add: kHeaderSize_def)

lemma receive_prefix:
  "stream_of fs buf input \<Longrightarrow> list_all (receivable m) fs \<Longrightarrow> prefix (frames_of (receive m cs buf input)) fs"
proof (induction cs arbitrary: buf input fs)
  case (Cons c cs)
  show ?case
  proof (cases "recv_frame (rc_valid c) (rc_timeout_ms c) m (rc_now c) (rc_env c) buf input")
    case (Some x)
    obtain r buf' input' where x: "x = (r, buf', input')" by (cases x) auto
    show ?thesis
    proof (cases "rc_valid c")
      case False
      with Some x show ?thesis by (auto simp: recv_frame_def fail_with_def fatal_def)
    next
      case True
      with Some x obtain deadline where run: "recv_loop m deadline buf input (rc_env c) = Some (r, buf', input')"
        by (auto simp: recv_frame_def)
      show ?thesis
      proof (cases fs)
        case Nil
        with Cons.prems(1) have "buf = []" "input = []" by (simp_all add: stream_of_def)
        with run recv_loop_silent Nil have "(\<exists>e. r = Inl e) \<and> stream_of [] buf' input'" by (auto simp: stream_of_def)
        with Cons.IH [of "[]" buf' input'] Some x Nil show ?thesis by auto
      next
        case (Cons f gs)
        with Cons.prems have f: "receivable m f" "buf @ input = frame_wire f @ concat (map frame_wire gs)" "length buf < length (frame_wire f)"
          "list_all (receivable m) gs" by (auto simp: stream_of_def)
        from recv_loop_next [OF f(1-3) run] show ?thesis
        proof (elim disjE)
          assume got: "r = Inr f \<and> buf' = [] \<and> input' = concat (map frame_wire gs)"
          then have "stream_of gs buf' input'" using wire_nonempty by (auto simp: stream_of_def)
          with Cons.IH f(4) have "prefix (frames_of (receive m cs buf' input')) gs" by blast
          with got Some x Cons show ?thesis by (simp add: fatal_def)
        next
          assume "\<exists>e. r = Inl e \<and> err_code e = E_Timeout \<and> buf' @ input' = frame_wire f @ concat (map frame_wire gs) \<and>
            length buf' < length (frame_wire f)"
          then obtain e where e: "r = Inl e" "err_code e = E_Timeout" "stream_of fs buf' input'"
            using Cons by (auto simp: stream_of_def)
          with Cons.IH Cons.prems(2) Some x show ?thesis by (simp add: fatal_def)
        next
          assume "fatal r"
          with Some x show ?thesis by (cases r) (auto simp: fatal_def)
        qed
      qed
    qed
  qed simp
qed simp

lemma recv_some_bytes:
  assumes "0 < cap"
  shows "\<exists>n. 0 < n \<and> n \<le> cap \<and> recv_some True cap None (RO_Bytes (Suc k)) input = (Inr (take n input), drop n input)"
proof -
  define c where "c = (if 0x7FFFFFFF < cap then 0x7FFFFFFF else cap)"
  have "0 < c" "c \<le> cap" using assms by (auto simp: c_def)
  moreover have "recv_some True cap None (RO_Bytes (Suc k)) input = (Inr (take (min (Suc k) c) input), drop (min (Suc k) c) input)"
    using assms unfolding recv_some_def c_def [symmetric] by simp
  ultimately show ?thesis by (intro exI [of _ "min (Suc k) c"]) auto
qed

text \<open>When data keeps arriving, at least a byte per call and before the deadline, the frame is returned.\<close>

definition flowing :: "int \<Rightarrow> recv_env \<Rightarrow> bool" where
  "flowing deadline env = list_all (\<lambda>(now, acquired, opt, out). now < deadline \<and> acquired \<and> opt = None \<and> (\<exists>k. out = RO_Bytes (Suc k))) env"

lemma recv_loop_arrives:
  assumes "receivable m f"
  shows "buf @ input = frame_wire f @ rest \<Longrightarrow> length buf \<le> length (frame_wire f) \<Longrightarrow> flowing deadline env \<Longrightarrow>
    length (frame_wire f) \<le> length buf + length env \<Longrightarrow> recv_loop m deadline buf input env = Some (Inr f, [], rest)"
proof (induction env arbitrary: buf input)
  case Nil
  from Nil(2,4) have "length buf = length (frame_wire f)" by simp
  with Nil(1) have "buf = frame_wire f \<and> input = rest" using append_eq_append_conv [of buf "frame_wire f" input rest] by blast
  then show ?case using buffered_whole [OF assms] by simp
next
  case (Cons c env)
  then obtain now k where c: "c = (now, True, None, RO_Bytes (Suc k))" "now < deadline" "flowing deadline env"
    by (cases c) (auto simp: flowing_def)
  show ?case
  proof (cases "length buf < length (frame_wire f)")
    case False
    with Cons.prems(2) have "length buf = length (frame_wire f)" by linarith
    with Cons.prems(1) have "buf = frame_wire f \<and> input = rest" using append_eq_append_conv [of buf "frame_wire f" input rest] by blast
    then show ?thesis using buffered_whole [OF assms] c by simp
  next
    case True
    obtain required where req: "buffered_frame m buf = Incomplete required" "length buf < required" "required \<le> length (frame_wire f)"
      using buffered_prefix [OF assms Cons.prems(1) True] by blast
    obtain n where n: "0 < n" "n \<le> required - length buf"
      and got: "recv_some True (required - length buf) None (RO_Bytes (Suc k)) input = (Inr (take n input), drop n input)"
      using recv_some_bytes [of "required - length buf" k input] req(2) by auto
    have len: "length (take n input) = n"
    proof -
      have "length buf + length input = length (frame_wire f) + length rest" using arg_cong [OF Cons.prems(1), of length] by simp
      with n req show ?thesis by simp
    qed
    have "recv_loop m deadline (buf @ take n input) (drop n input) env = Some (Inr f, [], rest)"
      using Cons.prems(1,4) c(3) n req(3) len by (intro Cons.IH) auto
    with c req(1) got show ?thesis by simp
  qed
qed

lemma make_frame_receivable:
  assumes "sender_kind_ok sk" "length payload \<le> 8 * 1024 * 1024"
  shows "receivable kMaxFramePayload (make_frame mt sk sid rid payload)"
  using make_frame_header [OF assms(1), of payload mt sid rid] make_frame_valid [of mt sk sid rid payload] assms(2)
    count_le [of "length payload" kMaxFramePayload] unat_count [of "length payload" kMaxFramePayload]
  by (auto simp: receivable_def max_payload_nat make_frame_def Let_def)

definition sample_frame :: Frame where
  "sample_frame = make_frame 10 SK_Client id_zero 7 [1, 2, 3]"

lemma sample_frame_receivable: "receivable kMaxFramePayload sample_frame"
  unfolding sample_frame_def by (rule make_frame_receivable) simp_all

lemma sample_frame_length: "length (frame_wire sample_frame) = 48"
  by (simp add: sample_frame_def make_frame_def Let_def kHeaderSize_def)

definition byte_by_byte :: recv_env where
  "byte_by_byte = replicate 48 (0, True, None, RO_Bytes 1)"

lemma byte_by_byte_flowing: "flowing 5 byte_by_byte"
  by (simp add: flowing_def byte_by_byte_def list_all_iff)

section \<open>Properties\<close>

text \<open>
  C19: frames arrive whole and in order. However the bytes of a sequence of frames are cut into pieces on their way, and however often a
  receiving call runs into its time limit in between, the frames the receiving thread obtains are the first ones of those
  sent, unchanged and in order.
\<close>

theorem channel_preserves_frames:
  assumes "list_all (receivable m) fs"
  shows "prefix (frames_of (receive m cs [] (concat (map frame_wire fs)))) fs"
  using assms wire_nonempty by (intro receive_prefix) (auto simp: stream_of_def)

theorem channel_preserves_frames_witness:
  "prefix (frames_of (receive kMaxFramePayload [\<lparr>rc_valid = True, rc_timeout_ms = 5, rc_now = 0, rc_env = byte_by_byte\<rparr>] []
     (concat (map frame_wire [sample_frame])))) [sample_frame]"
  by (rule channel_preserves_frames) (simp add: sample_frame_receivable)

text \<open>
  C26: frames arrive. If the next frame of the stream has been sent and each receive call of the system delivers at least one
  byte before the deadline, \<open>recv_frame\<close> returns that frame within as many system calls as bytes are missing, and leaves the rest of the
  stream for the next call. Every frame built by \<open>make_frame\<close> with a payload of at most 8 MiB is such a frame.
\<close>

theorem channel_delivers_next:
  assumes "sender_kind_ok sk" "length payload \<le> 8 * 1024 * 1024" "0 < timeout_ms" "flowing (now + timeout_ms) env"
    "f = make_frame mt sk sid rid payload" "buf @ input = frame_wire f @ rest" "length buf \<le> length (frame_wire f)"
    "length (frame_wire f) \<le> length buf + length env"
  shows "recv_frame True timeout_ms kMaxFramePayload now env buf input = Some (Inr f, [], rest)"
proof -
  have "receivable kMaxFramePayload f" unfolding assms(5) using assms(1,2) by (rule make_frame_receivable)
  from recv_loop_arrives [OF this assms(6,7,4,8)] assms(3) show ?thesis by (simp add: recv_frame_def)
qed

theorem channel_delivers_next_witness:
  "recv_frame True 5 kMaxFramePayload 0 byte_by_byte [] (frame_wire sample_frame @ [9]) = Some (Inr sample_frame, [], [9])"
  using channel_delivers_next [of SK_Client "[1, 2, 3]" 5 0 byte_by_byte sample_frame 10 id_zero 7 "[]" "frame_wire sample_frame @ [9]" "[9]"]
    byte_by_byte_flowing sample_frame_length
  by (simp add: sample_frame_def byte_by_byte_def)

end
