(* ===== verification/Decoded.thy ===== *)
theory Decoded
  imports Coordinator_Threads
begin

text \<open>
  The other direction of the codecs: whatever a decoder accepts is within the limits that encoding needs, so every decoded
  message can be sent on and is then decoded to the same value. The deserializers check every count and length before they
  read (\<open>serialize_common.h\<close>), and the lemmas follow these checks through the parsers.
\<close>

section \<open>What a parser may return\<close>

definition yields_rd :: "('a \<Rightarrow> bool) \<Rightarrow> 'a rd \<Rightarrow> bool" where
  "yields_rd V rd \<longleftrightarrow> (\<forall>r x r'. rd r = (Some x, r') \<longrightarrow> V x)"

definition yields :: "('a \<Rightarrow> bool) \<Rightarrow> 'a parser \<Rightarrow> bool" where
  "yields V p \<longleftrightarrow> (\<forall>r x r'. p r = (Inr x, r') \<longrightarrow> V x)"

lemma yields_any: "yields (\<lambda>_. True) p"
  by (simp add: yields_def)

lemma yields_bind: "yields V p \<Longrightarrow> (\<And>x. V x \<Longrightarrow> yields W (f x)) \<Longrightarrow> yields W (pbind p f)"
  unfolding yields_def pbind_def by (fastforce split: prod.splits sum.splits)

lemma yields_return: "V x \<Longrightarrow> yields V (preturn x)"
  by (simp add: yields_def preturn_def)

lemma yields_need: "yields_rd V rd \<Longrightarrow> yields V (need what rd)"
  unfolding yields_def yields_rd_def need_def by (fastforce split: prod.splits option.splits)

lemma yields_weaken: "yields V p \<Longrightarrow> (\<And>x. V x \<Longrightarrow> W x) \<Longrightarrow> yields W p"
  unfolding yields_def by blast

lemma yields_rd_string: "yields_rd str_fits (read_string kMaxString)"
  by (auto simp: yields_rd_def read_string_def rd_then_def read_block_def bytes_string_def str_fits_def word_less_nat_alt
      split: prod.splits option.splits if_splits)

lemma yields_rd_if: "yields_rd P (rd_if P rd)"
  by (auto simp: yields_rd_def rd_if_def rd_then_def split: prod.splits option.splits if_splits)

lemma yields_rd_both: "yields_rd V ra \<Longrightarrow> yields_rd W rb \<Longrightarrow> yields_rd (\<lambda>x. V (fst x) \<and> W (snd x)) (read_both ra rb)"
  unfolding yields_rd_def read_both_def rd_then_def rd_map_def by (fastforce split: prod.splits option.splits)

lemma yields_loop: "yields V p \<Longrightarrow> yields (\<lambda>xs. length xs = n \<and> list_all V xs) (ploop n p)"
  by (induction n) (auto intro!: yields_bind yields_return intro: yields_return)

lemma yields_list: "yields V p \<Longrightarrow> yields (list_fits V) (get_list what p)"
  unfolding get_list_def
  by (intro yields_bind [OF yields_need [OF yields_rd_if]] yields_weaken [OF yields_loop])
    (auto simp: list_fits_def word_le_nat_alt)

lemma set_omap_put_sub: "set (omap_put k v m) \<subseteq> insert (k, v) (set m)"
  by (induction m) auto

lemma length_omap_put: "length (omap_put k v m) \<le> Suc (length m)"
  by (induction m) auto

lemma map_of_reads_fits:
  "omap_ok (map_of_reads kvs) \<and> length (map_of_reads kvs) \<le> length kvs \<and> set (map_of_reads kvs) \<subseteq> set kvs"
proof -
  have "omap_ok m \<Longrightarrow> omap_ok (foldl (\<lambda>m kv. omap_put (fst kv) (snd kv) m) m kvs) \<and>
      length (foldl (\<lambda>m kv. omap_put (fst kv) (snd kv) m) m kvs) \<le> length m + length kvs \<and>
      set (foldl (\<lambda>m kv. omap_put (fst kv) (snd kv) m) m kvs) \<subseteq> set m \<union> set kvs" for m :: "(string, string) omap"
  proof (induction kvs arbitrary: m)
    case (Cons kv kvs)
    from Cons.IH [of "omap_put (fst kv) (snd kv) m"] Cons.prems set_omap_put_sub [of "fst kv" "snd kv" m]
      length_omap_put [of "fst kv" "snd kv" m] show ?case by auto
  qed simp
  from this [of "[]"] show ?thesis by (simp add: map_of_reads_def)
qed

lemma yields_map: "yields map_fits (get_map what_count what)"
  unfolding get_map_def
proof (intro yields_bind [OF yields_list [OF yields_need [OF yields_rd_both [OF yields_rd_string yields_rd_string]]]] yields_return)
  fix kvs :: "(string \<times> string) list"
  assume "list_fits (\<lambda>x. str_fits (fst x) \<and> str_fits (snd x)) kvs"
  then show "map_fits (map_of_reads kvs)"
    using map_of_reads_fits [of kvs] by (auto simp: map_fits_def list_fits_def list_all_iff)
qed

lemma yields_blob: "yields (\<lambda>bs. length bs \<le> unat kMaxString) (get_blob what_count what)"
proof -
  have "yields_rd (\<lambda>bs. length bs \<le> unat kMaxString) (read_raw_bytes n)" if "n \<le> kMaxString" for n
    using that by (auto simp: yields_rd_def read_raw_bytes_def read_block_def word_le_nat_alt split: if_splits)
  then show ?thesis unfolding get_blob_def
    by (intro yields_bind [OF yields_need [OF yields_rd_if]] yields_need)
qed

lemma enum_of_u8_ok [enum_simps]:
  "task_class_ok (task_class_of_u8 v)" "executor_type_ok (executor_type_of_u8 v)" "priority_ok (priority_of_u8 v)"
  "kernel_type_ok (kernel_type_of_u8 v)" "failure_kind_ok (failure_kind_of_u8 v)"
  by (simp_all add: task_class_of_u8_def executor_type_of_u8_def priority_of_u8_def kernel_type_of_u8_def failure_kind_of_u8_def
      word_unat_eq_iff) presburger+

lemmas yields_string = yields_need [OF yields_rd_string]

lemmas yields_leaf = yields_string yields_map yields_blob yields_list [OF yields_string] yields_list [OF yields_any]

section \<open>Descriptors\<close>

lemma yields_state_dep: "yields state_dep_fits deserialize_state_dep"
  unfolding deserialize_state_dep_def
  by ((rule yields_bind, (rule yields_leaf | rule yields_any))+, rule yields_return) (simp add: state_dep_fits_def)

lemma yields_task: "yields task_fits deserialize_task"
  unfolding deserialize_task_def
  by ((rule yields_bind, (rule yields_list [OF yields_state_dep] | rule yields_leaf | rule yields_any))+, rule yields_return)
    (simp add: task_fits_def enum_simps uint_lt2p [where 'a = 8, simplified])

lemma yields_executor_cap: "yields executor_cap_fits deserialize_executor_cap"
  unfolding deserialize_executor_cap_def
  by ((rule yields_bind, (rule yields_leaf | rule yields_any))+, rule yields_return) (simp add: executor_cap_fits_def enum_simps)

lemma yields_capacity: "yields capacity_fits deserialize_capacity"
  unfolding deserialize_capacity_def
  by ((rule yields_bind, (rule yields_list [OF yields_executor_cap] | rule yields_leaf | rule yields_any))+, rule yields_return)
    (simp add: capacity_fits_def)

lemma yields_executor_snapshot: "yields executor_snapshot_fits deserialize_executor_snapshot"
  unfolding deserialize_executor_snapshot_def
  by ((rule yields_bind, (rule yields_leaf | rule yields_any))+, rule yields_return) (simp add: executor_snapshot_fits_def)

lemmas yields_parts = yields_task yields_capacity yields_list [OF yields_executor_snapshot] yields_leaf

section \<open>Messages\<close>

text \<open>A codec whose decoder accepts only what its encoder can represent: decoding, encoding and decoding again changes nothing.\<close>

locale checked_codec = codec +
  assumes dec_yields: "yields valid dec"
begin

lemma decoded_valid: "dec r = (Inr x, r') \<Longrightarrow> valid x"
  using dec_yields unfolding yields_def by blast

lemma reencoded: "dec r = (Inr x, r') \<Longrightarrow> fst (dec (reader_of (enc x))) = Inr x"
  using decode_encoded [OF decoded_valid, of r x r' "[]"] by simp

end

interpretation task_checked: checked_codec serialize_task deserialize_task task_fits
  by unfold_locales (rule yields_task)

interpretation node_register_checked: checked_codec serialize_node_register deserialize_node_register node_register_fits
  by unfold_locales (unfold deserialize_node_register_def,
      ((rule yields_bind, (rule yields_parts | rule yields_any))+, rule yields_return), simp add: node_register_fits_def)

interpretation node_heartbeat_checked: checked_codec serialize_node_heartbeat deserialize_node_heartbeat node_heartbeat_fits
  by unfold_locales (unfold deserialize_node_heartbeat_def,
      ((rule yields_bind, (rule yields_parts | rule yields_any))+, rule yields_return), simp add: node_heartbeat_fits_def)

interpretation task_submit_checked: checked_codec serialize_task_submit deserialize_task_submit task_submit_fits
  by unfold_locales (unfold deserialize_task_submit_def,
      ((rule yields_bind, (rule yields_parts | rule yields_any))+, rule yields_return), simp add: task_submit_fits_def)

interpretation task_list_checked: checked_codec serialize_task_list deserialize_task_list task_list_fits
  by unfold_locales (unfold deserialize_task_list_def,
      ((rule yields_bind, (rule yields_parts | rule yields_any))+, rule yields_return), simp add: task_list_fits_def)

interpretation fabric_status_checked: checked_codec serialize_fabric_status deserialize_fabric_status fabric_status_fits
  by unfold_locales (unfold deserialize_fabric_status_def,
      ((rule yields_bind, (rule yields_parts | rule yields_any))+, rule yields_return), simp add: fabric_status_fits_def)

interpretation placement_query_checked: checked_codec serialize_placement_query deserialize_placement_query placement_query_fits
  by unfold_locales (unfold deserialize_placement_query_def,
      ((rule yields_bind, (rule yields_parts | rule yields_any))+, rule yields_return), simp add: placement_query_fits_def)

interpretation dispatch_attempt_checked: checked_codec serialize_dispatch_attempt deserialize_dispatch_attempt dispatch_attempt_fits
  by unfold_locales (unfold deserialize_dispatch_attempt_def,
      ((rule yields_bind, (rule yields_parts | rule yields_any))+, rule yields_return), simp add: dispatch_attempt_fits_def)

interpretation attempt_started_checked: checked_codec serialize_attempt_started deserialize_attempt_started attempt_started_fits
  by unfold_locales (unfold deserialize_attempt_started_def,
      ((rule yields_bind, (rule yields_parts | rule yields_any))+, rule yields_return), simp add: attempt_started_fits_def)

interpretation attempt_complete_checked: checked_codec serialize_attempt_complete deserialize_attempt_complete attempt_complete_fits
  by unfold_locales (unfold deserialize_attempt_complete_def,
      ((rule yields_bind, (rule yields_parts | rule yields_any))+, rule yields_return), simp add: attempt_complete_fits_def)

interpretation attempt_failed_checked: checked_codec serialize_attempt_failed deserialize_attempt_failed attempt_failed_fits
  by unfold_locales (unfold deserialize_attempt_failed_def,
      ((rule yields_bind, (rule yields_parts | rule yields_any))+, rule yields_return), simp add: attempt_failed_fits_def)

interpretation attempt_cancelled_checked: checked_codec serialize_attempt_cancelled deserialize_attempt_cancelled attempt_cancelled_fits
  by unfold_locales (unfold deserialize_attempt_cancelled_def,
      ((rule yields_bind, (rule yields_parts | rule yields_any))+, rule yields_return), simp add: attempt_cancelled_fits_def)

section \<open>Commands\<close>

text \<open>The commands whose messages are within the limits.\<close>

fun command_fits :: "CoreCommand \<Rightarrow> bool" where
  "command_fits (CK_NodeRegister c rid m) = node_register_fits m"
| "command_fits (CK_NodeHeartbeat c rid m) = node_heartbeat_fits m"
| "command_fits (CK_AttemptStarted c rid m) = attempt_started_fits m"
| "command_fits (CK_AttemptComplete c rid m) = attempt_complete_fits m"
| "command_fits (CK_AttemptFailed c rid m) = attempt_failed_fits m"
| "command_fits (CK_AttemptCancelled c rid m) = attempt_cancelled_fits m"
| "command_fits (CK_ClientTaskSubmit c rid m) = task_submit_fits m"
| "command_fits (CK_ClientTaskList c rid m) = task_list_fits m"
| "command_fits (CK_ClientFabricStatus c rid m) = fabric_status_fits m"
| "command_fits (CK_ClientPlacementQuery c rid m) = placement_query_fits m"
| "command_fits _ = True"

lemma decoded_fits: "decoded mk p payload = Some cmd \<Longrightarrow> yields V p \<Longrightarrow> (\<And>m. V m \<Longrightarrow> command_fits (mk m)) \<Longrightarrow> command_fits cmd"
  unfolding decoded_def yields_def by (auto split: sum.splits) (metis prod.collapse)

lemmas message_fits =
  decoded_fits [OF _ node_register_checked.dec_yields]
  decoded_fits [OF _ node_heartbeat_checked.dec_yields]
  decoded_fits [OF _ attempt_started_checked.dec_yields]
  decoded_fits [OF _ attempt_complete_checked.dec_yields]
  decoded_fits [OF _ attempt_failed_checked.dec_yields]
  decoded_fits [OF _ attempt_cancelled_checked.dec_yields]
  decoded_fits [OF _ task_submit_checked.dec_yields]
  decoded_fits [OF _ task_list_checked.dec_yields]
  decoded_fits [OF _ fabric_status_checked.dec_yields]
  decoded_fits [OF _ placement_query_checked.dec_yields]

lemma node_command_fits: "node_command h f = Some cmd \<Longrightarrow> command_fits cmd"
  unfolding node_command_def Let_def
  by (auto split: if_splits elim!: message_fits) (auto simp: decoded_def split: sum.splits)

lemma client_command_fits: "client_command h f = Some cmd \<Longrightarrow> command_fits cmd"
  unfolding client_command_def Let_def
  by (auto split: if_splits elim!: message_fits) (auto simp: decoded_def split: sum.splits)

end
