(* ===== verification/Coordinator_Traffic.thy ===== *)
theory Coordinator_Traffic
  imports Coordinator_Properties Decoded
begin

text \<open>
  What the coordinator sends and what waits in its command queue: of all handlers only the scheduler
  queues dispatch messages, each for an attempt it has just recorded with the task's own descriptor, and only the readers
  queue completions. The predicate \<open>traffic_ok\<close> follows both through every operation of the core thread, the way the
  refinement lemmas follow the ledger.
\<close>

section \<open>Outbound dispatches and queued completions\<close>

text \<open>The commands made from a message.\<close>

fun has_message :: "CoreCommand \<Rightarrow> bool" where
  "has_message (CK_NodeDisconnected c i) = False"
| "has_message (CK_ClientConnected c i) = False"
| "has_message (CK_ClientDisconnected c i) = False"
| "has_message CK_Sweep = False"
| "has_message CK_Shutdown = False"
| "has_message _ = True"

definition traffic_ok :: "(Frame \<Rightarrow> bool) \<Rightarrow> (CoreCommand \<Rightarrow> bool) \<Rightarrow> Coordinator \<Rightarrow> bool" where
  "traffic_ok P Q s \<longleftrightarrow>
     (\<forall>h c f. map_of (co_conns s) h = Some c \<longrightarrow> f \<in> set (conn_outbound c) \<longrightarrow> fh_message_type (f_header f) = kDispatchAttempt \<longrightarrow> P f) \<and>
     (\<forall>cmd \<in> set (co_queue s). has_message cmd \<longrightarrow> Q cmd)"

named_theorems traffic_simps

lemma traffic_ok_cong: "co_conns s' = co_conns s \<Longrightarrow> co_queue s' = co_queue s \<Longrightarrow> traffic_ok P Q s' = traffic_ok P Q s"
  by (simp add: traffic_ok_def)

lemma traffic_fields [traffic_simps]:
  "traffic_ok P Q (s\<lparr>co_durable := a1\<rparr>) = traffic_ok P Q s" "traffic_ok P Q (s\<lparr>co_graph := a2\<rparr>) = traffic_ok P Q s"
  "traffic_ok P Q (s\<lparr>co_reservations := a3\<rparr>) = traffic_ok P Q s" "traffic_ok P Q (s\<lparr>co_state_locality := a4\<rparr>) = traffic_ok P Q s"
  "traffic_ok P Q (s\<lparr>co_scheduler := a5\<rparr>) = traffic_ok P Q s" "traffic_ok P Q (s\<lparr>co_nodes := a6\<rparr>) = traffic_ok P Q s"
  "traffic_ok P Q (s\<lparr>co_attempts := a7\<rparr>) = traffic_ok P Q s" "traffic_ok P Q (s\<lparr>co_retry_ready_at_ms := a8\<rparr>) = traffic_ok P Q s"
  "traffic_ok P Q (s\<lparr>co_ready_at_ms := a9\<rparr>) = traffic_ok P Q s" "traffic_ok P Q (s\<lparr>co_dispatch_at_ms := b1\<rparr>) = traffic_ok P Q s"
  "traffic_ok P Q (s\<lparr>co_cancel_requested := b2\<rparr>) = traffic_ok P Q s" "traffic_ok P Q (s\<lparr>co_last_placements := b3\<rparr>) = traffic_ok P Q s"
  "traffic_ok P Q (s\<lparr>co_placement_records := b4\<rparr>) = traffic_ok P Q s" "traffic_ok P Q (s\<lparr>co_task_reservation := b5\<rparr>) = traffic_ok P Q s"
  "traffic_ok P Q (s\<lparr>co_attempt_by_reservation := b6\<rparr>) = traffic_ok P Q s" "traffic_ok P Q (s\<lparr>co_node_conns := b7\<rparr>) = traffic_ok P Q s"
  "traffic_ok P Q (s\<lparr>co_client_conns := b8\<rparr>) = traffic_ok P Q s" "traffic_ok P Q (s\<lparr>co_stopping := b9\<rparr>) = traffic_ok P Q s"
  "traffic_ok P Q (s\<lparr>co_core_running := c1\<rparr>) = traffic_ok P Q s" "traffic_ok P Q (s\<lparr>co_last_sweep := c2\<rparr>) = traffic_ok P Q s"
  "traffic_ok P Q (s\<lparr>co_placement_sequence := c3\<rparr>) = traffic_ok P Q s"
  by (simp_all add: traffic_ok_def)

lemma traffic_helpers [traffic_simps]:
  "traffic_ok P Q (tick s) = traffic_ok P Q s" "traffic_ok P Q (draw s) = traffic_ok P Q s" "traffic_ok P Q (persist s) = traffic_ok P Q s"
  "traffic_ok P Q (set_ready_at i t s) = traffic_ok P Q s" "traffic_ok P Q (set_retry_at i t s) = traffic_ok P Q s"
  "traffic_ok P Q (set_task i st s) = traffic_ok P Q s" "traffic_ok P Q (update_attempt p g s) = traffic_ok P Q s"
  "traffic_ok P Q (release_task_reservation i s) = traffic_ok P Q s"
  by (rule traffic_ok_cong; simp add: tick_def draw_def persist_def set_ready_at_def set_retry_at_def set_task_def update_attempt_def
      release_task_reservation_def Let_def split: option.split)+

lemma traffic_attempts [traffic_simps]:
  "traffic_ok P Q (unblock i s) = traffic_ok P Q s" "traffic_ok P Q (cancel_attempt p why s) = traffic_ok P Q s"
  "traffic_ok P Q (commit_attempt p co s) = traffic_ok P Q s" "traffic_ok P Q (record_success a co s) = traffic_ok P Q s"
  "traffic_ok P Q (schedule_retry i t s) = traffic_ok P Q s"
  by (simp_all add: unblock_def cancel_attempt_def commit_attempt_def record_success_def schedule_retry_def Let_def traffic_simps split: option.split)

lemma traffic_succeed_loop: "succeed_loop fuel deps s = Some s' \<Longrightarrow> traffic_ok P Q s' = traffic_ok P Q s"
  by (induction fuel deps s arbitrary: s' rule: succeed_loop.induct) (auto simp: Let_def traffic_simps split: if_splits option.splits)

lemma traffic_succeeded: "on_task_succeeded_recursive i s = Some s' \<Longrightarrow> traffic_ok P Q s' = traffic_ok P Q s"
  by (simp add: on_task_succeeded_recursive_def traffic_succeed_loop)

lemma traffic_update_conn:
  assumes "traffic_ok P Q s" "\<And>c f. f \<in> set (conn_outbound (g c)) \<Longrightarrow> f \<in> set (conn_outbound c) \<or> (fh_message_type (f_header f) = kDispatchAttempt \<longrightarrow> P f)"
  shows "traffic_ok P Q (update_conn h g s)"
proof -
  have "P f" if "map_of (co_conns (update_conn h g s)) k = Some c" "f \<in> set (conn_outbound c)" "fh_message_type (f_header f) = kDispatchAttempt" for k c f
    using that assms by (auto simp: update_conn_def traffic_ok_def split: option.splits if_splits) blast+
  moreover have "co_queue (update_conn h g s) = co_queue s" by (simp add: update_conn_def split: option.split)
  ultimately show ?thesis using assms(1) by (simp add: traffic_ok_def)
qed

lemma traffic_stop_connection [traffic_simps]: "traffic_ok P Q s \<Longrightarrow> traffic_ok P Q (stop_connection h s)"
  unfolding stop_connection_def by (rule traffic_update_conn) (simp_all add: stop_conn_def)

lemma traffic_conn_id [traffic_simps]: "traffic_ok P Q s \<Longrightarrow> traffic_ok P Q (update_conn h (\<lambda>c. c\<lparr>conn_id := i, conn_session := j\<rparr>) s)"
  by (rule traffic_update_conn) simp_all

lemma traffic_send_frame:
  assumes "traffic_ok P Q s" "fh_message_type (f_header f) = kDispatchAttempt \<longrightarrow> P f"
  shows "traffic_ok P Q (send_frame_to h f s)"
  unfolding send_frame_to_def using assms(1)
  by (rule traffic_update_conn) (use assms(2) in \<open>auto simp: queue_outbound_def stop_conn_def Let_def split: if_splits\<close>)

lemma traffic_responses [traffic_simps]:
  "ty \<noteq> kDispatchAttempt \<Longrightarrow> traffic_ok P Q s \<Longrightarrow> traffic_ok P Q (respond_node conn rid ty p s)"
  "ty \<noteq> kDispatchAttempt \<Longrightarrow> traffic_ok P Q s \<Longrightarrow> traffic_ok P Q (respond_client conn rid ty p s)"
  "ty \<noteq> kDispatchAttempt \<Longrightarrow> traffic_ok P Q s \<Longrightarrow> traffic_ok P Q (send_to_node n ty p s)"
  by (auto simp: respond_node_def respond_client_def send_to_node_def make_frame_def split: option.split intro!: traffic_send_frame)

lemma traffic_fold: "traffic_ok P Q s \<Longrightarrow> (\<And>x s. traffic_ok P Q s \<Longrightarrow> traffic_ok P Q (f x s)) \<Longrightarrow> traffic_ok P Q (fold f xs s)"
  by (induction xs arbitrary: s) auto

lemmas response_types = kDispatchAttempt_def kNodeRegisterAck_def kNodeHeartbeatAck_def kNodeShutdownAck_def kNodeShutdown_def kAttemptCompleteAck_def
  kAttemptFailedAck_def kReservationReleaseAck_def kTaskSubmitResponse_def kTaskInspectResponse_def kTaskListResponse_def kTaskCancelResponse_def
  kAttemptCancel_def kWorkloadInspectResponse_def kFabricStatusResponse_def kPlacementResponse_def kNodeListResponse_def kNodeDrainResponse_def
  kCoordinatorShutdownResponse_def

section \<open>Handlers\<close>

lemma traffic_node_handlers [traffic_simps]:
  assumes "traffic_ok P Q s"
  shows "traffic_ok P Q (handle_node_register c rid reg s)" "traffic_ok P Q (handle_node_heartbeat c rid hb s)"
    "traffic_ok P Q (handle_node_disconnect n c s)" "traffic_ok P Q (handle_node_shutdown_msg c rid n s)"
    "traffic_ok P Q (handle_reservation_release c rid rel s)"
  using assms
  by (simp_all add: handle_node_register_def register_session_def handle_node_heartbeat_def handle_node_disconnect_def
      handle_node_shutdown_msg_def handle_reservation_release_def Let_def traffic_simps response_types split: option.split)

lemma traffic_queries [traffic_simps]:
  assumes "traffic_ok P Q s"
  shows "traffic_ok P Q (handle_task_list c rid li s)" "traffic_ok P Q (handle_workload_inspect c rid w s)"
    "traffic_ok P Q (handle_fabric_status c rid s)" "traffic_ok P Q (handle_placement_query c rid q s)"
    "traffic_ok P Q (handle_node_list c rid s)" "traffic_ok P Q (handle_node_drain c rid d s)"
    "traffic_ok P Q (handle_task_inspect c rid ti s)"
  using assms
  by (simp_all add: handle_task_list_def handle_workload_inspect_def handle_fabric_status_def handle_placement_query_def handle_node_list_def
      handle_node_drain_def handle_task_inspect_def Let_def traffic_simps response_types split: option.split)

lemma traffic_submit_cancel [traffic_simps]:
  assumes "traffic_ok P Q s"
  shows "traffic_ok P Q (handle_task_submit c rid m s)" "traffic_ok P Q (handle_task_cancel c rid tc s)"
  using assms
  by (auto simp: handle_task_submit_def accept_task_def handle_task_cancel_def Let_def traffic_simps response_types
      split: option.split prod.split sum.split)

lemma traffic_attempt_handlers [traffic_simps]:
  assumes "traffic_ok P Q s"
  shows "traffic_ok P Q (handle_dispatch_ack da s)" "traffic_ok P Q (handle_attempt_started st s)"
    "traffic_ok P Q (handle_attempt_failed c rid fa s)" "traffic_ok P Q (handle_attempt_cancelled ca s)"
    "traffic_ok P Q (handle_attempt_complete c rid co s)"
  using assms
  by (auto simp: handle_dispatch_ack_def handle_attempt_started_def handle_attempt_failed_def handle_attempt_cancelled_def
      handle_attempt_complete_def Let_def traffic_simps response_types traffic_succeeded split: option.split)

lemma traffic_shutdown [traffic_simps]: "traffic_ok P Q s \<Longrightarrow> traffic_ok P Q (handle_coordinator_shutdown c rid s)"
proof -
  assume ok: "traffic_ok P Q s"
  have node: "traffic_ok P Q (shutdown_node e s)" if "traffic_ok P Q s" for e s
    using that by (simp add: shutdown_node_def traffic_simps response_types split: option.split)
  have queue: "traffic_ok P Q (s\<lparr>co_queue := CK_Shutdown # co_queue s\<rparr>) = traffic_ok P Q s" for s by (simp add: traffic_ok_def)
  show ?thesis unfolding handle_coordinator_shutdown_def Let_def queue
    using ok by (simp add: traffic_simps response_types traffic_fold node)
qed

lemma traffic_process: "traffic_ok P Q s \<Longrightarrow> traffic_ok P Q (process cmd s)"
  by (cases cmd) (auto simp: process_def Let_def traffic_simps split: option.split)

lemma traffic_node_loss: "traffic_ok P Q s \<Longrightarrow> traffic_ok P Q (handle_node_loss n s)"
proof -
  have "traffic_ok P Q (lose_task i s)" if "traffic_ok P Q s" for i s
    using that by (simp add: lose_task_def Let_def traffic_simps split: option.split)
  then show "traffic_ok P Q s \<Longrightarrow> ?thesis"
    by (auto simp: handle_node_loss_def Let_def traffic_simps split: option.split intro!: traffic_fold)
qed

section \<open>Dispatches are for recorded attempts\<close>

text \<open>A dispatch message that names an attempt on file, with the descriptor of its task.\<close>

definition recorded :: "ledger \<Rightarrow> DispatchAttempt \<Rightarrow> bool" where
  "recorded l m \<longleftrightarrow> find_task (fst l) (t_id (dpa_task m)) = Some (dpa_task m) \<and>
     dpa_attempt_id m \<in> a_id ` set (attempts_of (snd l) (t_id (dpa_task m)))"

definition recorded_frame :: "ledger \<Rightarrow> Frame \<Rightarrow> bool" where
  "recorded_frame l f \<longleftrightarrow> (\<exists>m. recorded l m \<and> f_payload f = serialize_dispatch_attempt m)"

lemma recorded_keeps:
  assumes "ledger_keeps l l'" "recorded l m"
  shows "recorded l' m"
proof -
  let ?i = "t_id (dpa_task m)"
  obtain n where n: "n < length (attempts_of (snd l) ?i)" "dpa_attempt_id m = a_id (attempts_of (snd l) ?i ! n)"
    using assms(2) unfolding recorded_def image_iff by (metis in_set_conv_nth)
  then have "n < length (attempts_of (snd l') ?i)" "dpa_attempt_id m = a_id (attempts_of (snd l') ?i ! n)"
    using assms(1) unfolding ledger_keeps_def attempt_kept_def same_attempt_def by metis+
  moreover have "find_task (fst l') ?i = Some (dpa_task m)"
    using assms unfolding ledger_keeps_def recorded_def by blast
  ultimately show ?thesis unfolding recorded_def by simp
qed

lemma recorded_frame_keeps: "ledger_keeps l l' \<Longrightarrow> recorded_frame l f \<Longrightarrow> recorded_frame l' f"
  unfolding recorded_frame_def using recorded_keeps by blast

lemma traffic_mono: "traffic_ok P Q s \<Longrightarrow> (\<And>f. P f \<Longrightarrow> P' f) \<Longrightarrow> (\<And>cmd. Q cmd \<Longrightarrow> Q' cmd) \<Longrightarrow> traffic_ok P' Q' s"
  unfolding traffic_ok_def by blast

definition sends_recorded :: "(CoreCommand \<Rightarrow> bool) \<Rightarrow> (Coordinator \<Rightarrow> Coordinator) \<Rightarrow> bool" where
  "sends_recorded Q f \<longleftrightarrow> (\<forall>s. ledger_inv (ledger_of s) \<longrightarrow> traffic_ok (recorded_frame (ledger_of s)) Q s \<longrightarrow>
     traffic_ok (recorded_frame (ledger_of (f s))) Q (f s))"

lemma sends_recordedD:
  "sends_recorded Q f \<Longrightarrow> ledger_inv (ledger_of s) \<Longrightarrow> traffic_ok (recorded_frame (ledger_of s)) Q s \<Longrightarrow>
   traffic_ok (recorded_frame (ledger_of (f s))) Q (f s)"
  by (simp add: sends_recorded_def)

lemma traffic_steps:
  assumes "ledger_steps C (ledger_of s) (ledger_of s')" "ledger_inv (ledger_of s)" "traffic_ok (recorded_frame (ledger_of s)) Q r"
  shows "traffic_ok (recorded_frame (ledger_of s')) Q r"
  using assms(3) by (rule traffic_mono) (auto intro: recorded_frame_keeps [OF ledger_steps_keep [OF assms(1,2)]])

lemma sends_silent:
  assumes "refines C f" "\<And>P s. traffic_ok P Q s \<Longrightarrow> traffic_ok P Q (f s)"
  shows "sends_recorded Q f"
  using assms traffic_steps [OF refinesD [OF assms(1)]] by (simp add: sends_recorded_def)

lemma sends_then: "refines C f \<Longrightarrow> sends_recorded Q f \<Longrightarrow> sends_recorded Q g \<Longrightarrow> sends_recorded Q (\<lambda>s. g (f s))"
  by (auto simp: sends_recorded_def intro: refines_inv)

lemma traffic_send_payload:
  "traffic_ok P Q s \<Longrightarrow> (\<And>f. f_payload f = p \<Longrightarrow> P f) \<Longrightarrow> traffic_ok P Q (send_to_node n ty p s)"
  by (auto simp: send_to_node_def make_frame_def split: option.split intro!: traffic_send_frame)

lemma dispatch_recorded:
  assumes "task_state (co_graph s) i = TS_Reserved" "ledger_inv (ledger_of s)" "find_task (co_graph s) i = Some task"
    "traffic_ok (recorded_frame (ledger_of s)) Q s" and s'_def: "s' = dispatch_attempt i task n node d e resv s"
  shows "traffic_ok (recorded_frame (ledger_of s')) Q s'"
proof -
  have steps: "ledger_steps False (ledger_of s) (ledger_of s')" unfolding s'_def by (rule refines_dispatch [OF assms(1,2)])
  have id: "t_id task = i" using assms(2,3) by (simp add: ledger_inv_def ledger_of_def graph_inv_def)
  have task: "find_task (fst (ledger_of s')) i = Some task"
    using ledger_steps_keep [OF steps assms(2)] assms(3) by (simp add: ledger_keeps_def ledger_of_def)
  have new: "random_id s \<in> a_id ` set (attempts_of (snd (ledger_of s')) i)"
    unfolding s'_def dispatch_attempt_def Let_def
    by (simp add: ledger_simps) (simp add: ledger_of_def tick_def draw_def random_id_def)
  have P: "recorded_frame (ledger_of s') f"
    if "f_payload f = serialize_dispatch_attempt \<lparr>dpa_task = task, dpa_attempt_id = random_id s, dpa_reservation_id = r,
      dpa_coordinator_epoch = ep, dpa_attempt_number = k\<rparr>" for f r ep k
  proof -
    let ?m = "\<lparr>dpa_task = task, dpa_attempt_id = random_id s, dpa_reservation_id = r, dpa_coordinator_epoch = ep, dpa_attempt_number = k\<rparr>"
    have "recorded (ledger_of s') ?m" unfolding recorded_def using id task new by simp
    with that show ?thesis unfolding recorded_frame_def by blast
  qed
  note old = traffic_steps [OF steps assms(2,4)]
  have "traffic_ok (recorded_frame (ledger_of s')) Q (dispatch_attempt i task n node d e resv s)"
    unfolding dispatch_attempt_def Let_def traffic_simps
    by (rule traffic_send_payload) (simp_all add: traffic_simps old, simp add: P random_id_def)
  then show ?thesis by (simp add: s'_def)
qed

lemma reserve_recorded:
  assumes "ledger_inv (ledger_of s)" "find_task (co_graph s) i = Some task" "traffic_ok (recorded_frame (ledger_of s)) Q s"
  shows "traffic_ok (recorded_frame (ledger_of (reserve_and_dispatch i task n node d s))) Q (reserve_and_dispatch i task n node d s)"
proof -
  let ?e = "case pd_chosen_executor d of Some e \<Rightarrow> e | None \<Rightarrow> t_required_executor task"
  obtain rr reg where tr: "try_reserve (random_id s) (now_millis s) node (epoch s) i ?e
      (if ?e = ET_Cuda then t_required_gpu_slots task else t_required_cpu_slots task)
      (t_scratch_memory_bytes task) (co_reservations s) = (rr, reg)"
    by (rule prod.exhaust)
  note kept = traffic_steps [OF reserve_steps [OF assms(1)] assms(1,3), of i task n node d]
  show ?thesis
  proof (cases "rr_reservation rr")
    case None
    then show ?thesis using assms(3) by (simp add: reserve_and_dispatch_def tr Let_def)
  next
    case (Some resv)
    let ?s1 = "tick (draw (s\<lparr>co_reservations := reg\<rparr>))"
    obtain r1 g1 where p: "set_state i TS_Planning (co_graph ?s1) = (r1, g1)" by (rule prod.exhaust)
    obtain r2 g2 where q: "set_state i TS_Reserved g1 = (r2, g2)" by (rule prod.exhaust)
    show ?thesis
    proof (cases "\<exists>u v. r1 = Inr u \<and> r2 = Inr v")
      case True
      let ?s2 = "?s1\<lparr>co_graph := g1\<rparr>\<lparr>co_graph := g2\<rparr>"
      have eq: "reserve_and_dispatch i task n node d s = dispatch_attempt i task n node d ?e resv ?s2"
        using True p q by (auto simp: reserve_and_dispatch_def Let_def tr Some)
      have g: "g1 = snd (set_state i TS_Planning (co_graph s))" "g2 = snd (set_state i TS_Reserved g1)"
        using p q by (simp_all add: tick_def draw_def)
      have st1: "ledger_steps False (ledger_of s) (g1, snd (ledger_of s))"
        by (rule move_steps [of TS_Planning _ _ r1]) (use p in \<open>simp_all add: ledger_of_def tick_def draw_def\<close>)
      have "ledger_steps False (ledger_of s) (g2, snd (ledger_of s))"
        using st1 move_steps [of TS_Reserved i "(g1, snd (ledger_of s))"] q by (force intro: rtranclp_trans)
      moreover have l2: "ledger_of ?s2 = (g2, snd (ledger_of s))" by (simp add: ledger_of_def tick_def draw_def)
      ultimately have st: "ledger_steps False (ledger_of s) (ledger_of ?s2)" by simp
      have "traffic_ok (recorded_frame (ledger_of ?s2)) Q ?s2"
        using traffic_steps [OF st assms(1,3)] by (simp add: traffic_simps)
      moreover have "task_state (co_graph ?s2) i = TS_Reserved" using True q set_state_okD(2) by auto
      moreover have "find_task (co_graph ?s2) i = Some task" using assms(2) g by simp
      ultimately show ?thesis by (intro dispatch_recorded [OF _ ledger_steps_inv [OF st assms(1)] _ _ eq])
    next
      case False
      have "traffic_ok P Q (reserve_and_dispatch i task n node d s)" if "traffic_ok P Q s" for P
        using that False p q by (cases r1; cases r2) (simp_all add: reserve_and_dispatch_def tr Some Let_def traffic_simps)
      then show ?thesis using kept .
    qed
  qed
qed

lemma sends_schedule_one: "sends_recorded Q (schedule_one i)"
  unfolding sends_recorded_def
proof (intro allI impI)
  fix s
  assume inv: "ledger_inv (ledger_of s)" and ok: "traffic_ok (recorded_frame (ledger_of s)) Q s"
  note kept = traffic_steps [OF refinesD [OF refines_schedule_one [of False i] inv] inv ok]
  have res: "traffic_ok (recorded_frame (ledger_of (reserve_and_dispatch i task n node d s'))) Q (reserve_and_dispatch i task n node d s')"
    if "ledger_of s' = ledger_of s" "find_task (co_graph s) i = Some task" "traffic_ok (recorded_frame (ledger_of s)) Q s'" for task n node d s'
    by (rule reserve_recorded) (use that inv in \<open>simp_all add: ledger_of_def\<close>)
  show "traffic_ok (recorded_frame (ledger_of (schedule_one i s))) Q (schedule_one i s)"
    using kept ok by (auto simp: schedule_one_def Let_def ledger_simps traffic_simps intro!: res split: option.split if_splits)
qed

lemma sends_schedule: "sends_recorded Q schedule_ready_tasks"
proof -
  have "ledger_inv (ledger_of s) \<Longrightarrow> traffic_ok (recorded_frame (ledger_of s)) Q s \<Longrightarrow>
      traffic_ok (recorded_frame (ledger_of (schedule_loop rs s))) Q (schedule_loop rs s)" for rs s
    by (induction rs arbitrary: s) (simp_all add: refines_inv [OF refines_schedule_one] sends_recordedD [OF sends_schedule_one])
  then show ?thesis by (simp add: sends_recorded_def schedule_ready_tasks_def)
qed

lemma refines_sweep_parts: "refines C (\<lambda>s. fold (expire_task now) (task_ids (co_graph s)) s)" "refines C (\<lambda>s. fold (requeue_retry now) (co_retry_ready_at_ms s) s)"
    "refines C (fold handle_node_loss ns)"
  by (rule refines_fold_of refines_fold refines_expire_task refines_requeue_retry refines_node_loss)+

lemma traffic_sweep_parts:
  assumes "traffic_ok P Q s"
  shows "traffic_ok P Q (fold (expire_task now) is s)" "traffic_ok P Q (fold (requeue_retry now) rs s)"
    "traffic_ok P Q (fold (requeue_dispatch now) is s)" "traffic_ok P Q (fold handle_node_loss ns s)"
  using assms by (auto simp: expire_task_def requeue_retry_def requeue_dispatch_def Let_def traffic_simps
      intro!: traffic_fold traffic_node_loss split: option.split)

text \<open>The sweep up to the scheduler.\<close>

definition sweep_tasks :: "Coordinator \<Rightarrow> Coordinator" where
  "sweep_tasks s =
     (let now = now_millis s; s0 = tick s;
          s1 = fold handle_node_loss (lost_nodes now s0) s0;
          s2 = fold (requeue_dispatch now) (stale_dispatches now s1) s1;
          s3 = fold (requeue_retry now) (co_retry_ready_at_ms s2) s2
      in fold (expire_task now) (task_ids (co_graph s3)) s3)"

lemma sweep_split: "sweep s = schedule_ready_tasks (sweep_tasks s)"
  by (simp add: sweep_def sweep_tasks_def Let_def)

lemma refines_sweep_tasks: "refines C sweep_tasks"
proof (rule refinesI)
  fix s
  assume inv: "ledger_inv (ledger_of s)"
  show "ledger_steps C (ledger_of s) (ledger_of (sweep_tasks s))"
    unfolding sweep_tasks_def Let_def
    by (intro steps_then [OF _ inv refines_sweep_parts(1)] steps_then [OF _ inv refines_sweep_parts(2)]
        steps_then [OF _ inv refines_requeue_dispatches] steps_then [OF _ inv refines_sweep_parts(3)]) (simp add: ledger_simps)
qed

lemma sends_sweep: "sends_recorded Q sweep"
proof -
  have "sends_recorded Q sweep_tasks"
    by (rule sends_silent [OF refines_sweep_tasks]) (simp add: sweep_tasks_def Let_def traffic_sweep_parts traffic_simps)
  then show ?thesis using sends_then [OF refines_sweep_tasks _ sends_schedule] by (simp add: sweep_split [abs_def])
qed

lemma sends_maybe_sweep: "sends_recorded Q maybe_sweep"
  unfolding sends_recorded_def
proof (intro allI impI)
  fix s
  assume "ledger_inv (ledger_of s)" "traffic_ok (recorded_frame (ledger_of s)) Q s"
  then show "traffic_ok (recorded_frame (ledger_of (maybe_sweep s))) Q (maybe_sweep s)"
    using sends_recordedD [OF sends_sweep, of "tick s\<lparr>co_last_sweep := now_millis s\<rparr>"]
    by (simp add: maybe_sweep_def Let_def ledger_simps traffic_simps)
qed

lemma sends_process: "sends_recorded Q (process cmd)"
  by (rule sends_silent [OF refines_process traffic_process])

lemma traffic_tail: "traffic_ok P Q s \<Longrightarrow> co_queue s = cmd # rest \<Longrightarrow> traffic_ok P Q (s\<lparr>co_queue := rest\<rparr>)"
  by (simp add: traffic_ok_def)

lemma sends_core_iteration: "sends_recorded Q core_iteration"
  unfolding sends_recorded_def
proof (intro allI impI)
  fix s
  assume inv: "ledger_inv (ledger_of s)" and ok: "traffic_ok (recorded_frame (ledger_of s)) Q s"
  show "traffic_ok (recorded_frame (ledger_of (core_iteration s))) Q (core_iteration s)"
  proof (cases "co_queue s")
    case Nil
    then show ?thesis using sends_recordedD [OF sends_maybe_sweep inv ok] by (simp add: core_iteration_def)
  next
    case (Cons cmd rest)
    let ?s1 = "s\<lparr>co_queue := rest\<rparr>"
    have "ledger_inv (ledger_of ?s1)" "traffic_ok (recorded_frame (ledger_of ?s1)) Q ?s1"
      using inv traffic_tail [OF ok Cons] by (simp_all add: ledger_simps)
    then have "traffic_ok (recorded_frame (ledger_of (maybe_sweep (process cmd ?s1)))) Q (maybe_sweep (process cmd ?s1))"
      by (rule sends_recordedD [OF sends_then [OF refines_process sends_process sends_maybe_sweep]])
    then show ?thesis using traffic_tail [OF ok Cons] by (simp add: core_iteration_def Cons Let_def ledger_simps traffic_simps)
  qed
qed

section \<open>Where committed results come from\<close>

definition attempt_no :: "attempts \<Rightarrow> ComputeTaskId \<Rightarrow> nat \<Rightarrow> ExecutionAttempt" where
  "attempt_no m i n = attempts_of m i ! n"

definition carries :: "ExecutionAttempt \<Rightarrow> AttemptComplete \<Rightarrow> bool" where
  "carries a co \<longleftrightarrow> a_id a = atc_attempt_id co \<and> a_output_integrity a = atc_output_integrity co"

lemma committed_kept:
  assumes "ledger_keeps l l'" "is_committed (snd l) i n"
  shows "is_committed (snd l') i n \<and> a_id (attempt_no (snd l') i n) = a_id (attempt_no (snd l) i n) \<and>
    a_output_integrity (attempt_no (snd l') i n) = a_output_integrity (attempt_no (snd l) i n)"
  using assms unfolding ledger_keeps_def is_committed_def attempt_no_def attempt_kept_def same_attempt_def same_result_def by metis

lemma completion_carries:
  assumes "ledger_inv (ledger_of s)" "is_committed (co_attempts (handle_attempt_complete c rid co s)) i n" "\<not> is_committed (co_attempts s) i n"
  shows "carries (attempt_no (co_attempts (handle_attempt_complete c rid co s)) i n) co"
proof -
  obtain p where p: "find_active_attempt (atc_attempt_id co) (co_attempts s) = Some p" "p = (i, n)"
    "completion_refused co (attempt_at (co_attempts s) p) s = None"
    "\<not> omap_get_or False (co_cancel_requested s) (a_task_id (attempt_at (co_attempts s) p))"
    using completion_authority [OF assms] by blast
  have ref: "p \<in> set (attempt_refs (co_attempts s))" "a_id (attempt_at (co_attempts s) p) = atc_attempt_id co"
    using find_active_ref [OF p(1)] by simp_all
  then have n: "n < length (attempts_of (co_attempts s) i)"
    using p(2) assms(1) by (simp add: attempt_refs_iff ledger_inv_def filed_def ledger_of_def)
  then have "\<not> a_committed (attempt_at (co_attempts s) p)"
    using assms(3) p(2) by (simp add: is_committed_def attempt_at_nth)
  then have "co_attempts (handle_attempt_complete c rid co s) = co_attempts (commit_attempt p co s)"
    using attempts_after_completion [OF p(1), of c rid] p(3,4) by (simp add: co_attempts_ledger)
  then show ?thesis using ref(2) p(2) n
    by (simp add: carries_def attempt_no_def commit_attempt_def tick_def update_attempt_def attempts_of_def attempt_at_def)
qed

lemma process_carries:
  assumes "ledger_inv (ledger_of s)" "is_committed (co_attempts (process cmd s)) i n" "\<not> is_committed (co_attempts s) i n"
  shows "\<exists>c rid co. cmd = CK_AttemptComplete c rid co \<and> carries (attempt_no (co_attempts (process cmd s)) i n) co"
proof (cases "completes cmd")
  case False
  then have "ledger_steps False (ledger_of s) (ledger_of (process cmd s))"
    using refinesD [OF refines_process [of cmd] assms(1)] by simp
  then have "is_committed (snd (ledger_of s)) i n"
    by (rule steps_commit_nothing) (use assms(2) in \<open>simp add: co_attempts_ledger\<close>)
  then show ?thesis using assms(3) by (simp add: co_attempts_ledger)
next
  case True
  then obtain c rid co where cmd: "cmd = CK_AttemptComplete c rid co" by (auto simp: completes_def split: CoreCommand.splits)
  then show ?thesis using completion_carries [OF assms(1) _ assms(3)] assms(2) by (simp add: process_def)
qed

lemma core_carries:
  assumes "ledger_inv (ledger_of s)" "is_committed (co_attempts (core_iteration s)) i n" "\<not> is_committed (co_attempts s) i n"
  shows "\<exists>c rid co. CK_AttemptComplete c rid co \<in> set (co_queue s) \<and> carries (attempt_no (co_attempts (core_iteration s)) i n) co"
proof -
  have quiet: "is_committed (co_attempts s1) i n \<and> a_id (attempt_no (co_attempts (maybe_sweep s1)) i n) = a_id (attempt_no (co_attempts s1) i n) \<and>
      a_output_integrity (attempt_no (co_attempts (maybe_sweep s1)) i n) = a_output_integrity (attempt_no (co_attempts s1) i n)"
    if "ledger_inv (ledger_of s1)" "is_committed (co_attempts (maybe_sweep s1)) i n" for s1
  proof -
    have st: "ledger_steps False (ledger_of s1) (ledger_of (maybe_sweep s1))" using refinesD [OF refines_maybe_sweep that(1)] .
    have "is_committed (snd (ledger_of s1)) i n" using steps_commit_nothing [OF st] that(2) by (simp add: co_attempts_ledger)
    then show ?thesis using committed_kept [OF ledger_steps_keep [OF st that(1)]] by (simp add: co_attempts_ledger)
  qed
  show ?thesis
  proof (cases "co_queue s")
    case Nil
    then show ?thesis using quiet [OF assms(1)] assms(2,3) by (simp add: core_iteration_def)
  next
    case (Cons cmd rest)
    let ?s1 = "s\<lparr>co_queue := rest\<rparr>"
    have inv: "ledger_inv (ledger_of ?s1)" using assms(1) by (simp add: ledger_simps)
    have it: "core_iteration s = maybe_sweep (process cmd ?s1)"
      using assms(2,3) Cons by (auto simp: core_iteration_def Let_def split: if_splits)
    note q = quiet [OF refines_inv [OF refines_process inv], of cmd, folded it, OF assms(2)]
    obtain c rid co where "cmd = CK_AttemptComplete c rid co" "carries (attempt_no (co_attempts (process cmd ?s1)) i n) co"
      using process_carries [OF inv conjunct1 [OF q]] assms(3) by auto
    with q show ?thesis unfolding carries_def Cons by (metis list.set_intros(1))
  qed
qed

section \<open>The other threads\<close>

lemma traffic_push: "traffic_ok P Q s \<Longrightarrow> (has_message cmd \<Longrightarrow> Q cmd) \<Longrightarrow> traffic_ok P Q (push_command cmd s)"
  by (auto simp: traffic_ok_def push_command_def)

lemma traffic_retire [traffic_simps]: "traffic_ok P Q s \<Longrightarrow> traffic_ok P Q (retire h s)"
  unfolding retire_def by (rule traffic_update_conn) simp_all

lemma traffic_reader_exit [traffic_simps]: "traffic_ok P Q s \<Longrightarrow> traffic_ok P Q (snd (reader_exit h t s))"
  by (auto simp: reader_exit_def Let_def traffic_simps intro!: traffic_push traffic_retire split: option.split)

lemma traffic_enqueue:
  "traffic_ok P Q s \<Longrightarrow> (has_message cmd \<Longrightarrow> Q cmd) \<Longrightarrow> traffic_ok P Q (snd (enqueue_or_exit h cmd t s))"
  by (simp add: enqueue_or_exit_def traffic_simps traffic_push)

lemma traffic_reader_step:
  assumes "traffic_ok P Q s" "\<And>f cmd. frame = Inr f \<Longrightarrow> (if rt_node t then node_command h f else client_command h f) = Some cmd \<Longrightarrow> Q cmd"
  shows "traffic_ok P Q (snd (reader_step h frame t s))"
proof (cases "rt_node t")
  case True
  then show ?thesis using assms
    by (auto simp: reader_step_def node_reader_step_def Let_def traffic_simps intro!: traffic_enqueue split: sum.split option.split)
next
  case False
  then show ?thesis using assms
    by (auto simp: reader_step_def client_reader_step_def client_handshake_def Let_def traffic_simps
        intro!: traffic_enqueue traffic_push traffic_retire split: sum.split option.split)
qed

lemma traffic_accept:
  assumes "traffic_ok P Q s"
  shows "traffic_ok P Q (snd (accept_node h s))" "traffic_ok P Q (snd (accept_client h s))"
  using assms by (auto simp: traffic_ok_def accept_node_def accept_client_def new_conn_def draw_def split: if_splits)

lemma traffic_stop: "traffic_ok P Q s \<Longrightarrow> traffic_ok P Q (coordinator_stop s)"
  by (auto simp: traffic_ok_def coordinator_stop_def core_iteration_def Let_def stop_conn_def)

lemma traffic_take:
  assumes "traffic_ok P Q s" "map_of (co_conns s) h = Some c" "writer_take c = Some (frame, c')"
  shows "traffic_ok P Q (s\<lparr>co_conns := omap_put h c' (co_conns s)\<rparr>)"
    "fh_message_type (f_header frame) = kDispatchAttempt \<Longrightarrow> P frame"
  using assms by (auto simp: traffic_ok_def writer_take_def Let_def split: if_splits list.splits)

lemma traffic_sent: "traffic_ok P Q s \<Longrightarrow> traffic_ok P Q (update_conn h (writer_sent ok) s)"
  by (rule traffic_update_conn) (simp_all add: writer_sent_def stop_conn_def Let_def split: if_splits)

end
