(* ===== verification/Coordinator_Tasks.thy ===== *)
theory Coordinator_Tasks
  imports Coordinator_Traffic
begin

text \<open>
  Which operations change the tasks of the coordinator's graph, and what follows for the dispatch messages: every
  descriptor the coordinator holds and every command it queues is within the limits of the wire format, so a
  dispatch message is decoded to the attempt and the descriptor that were recorded.
\<close>

section \<open>The tasks of the graph\<close>

text \<open>Only a submission adds to the graph's tasks, and it adds the submitted descriptor.\<close>

abbreviation tasks_of :: "Coordinator \<Rightarrow> (ComputeTaskId, ComputeTask) omap" where
  "tasks_of s \<equiv> g_tasks (co_graph s)"

named_theorems tasks_simps

lemma tasks_helpers [tasks_simps]:
  "tasks_of (tick s) = tasks_of s" "tasks_of (draw s) = tasks_of s" "tasks_of (persist s) = tasks_of s"
  "tasks_of (set_ready_at i t s) = tasks_of s" "tasks_of (set_retry_at i t s) = tasks_of s"
  "tasks_of (set_task i st s) = tasks_of s" "tasks_of (update_attempt p g s) = tasks_of s"
  "tasks_of (release_task_reservation i s) = tasks_of s" "tasks_of (update_conn h f s) = tasks_of s"
  by (simp_all add: tick_def draw_def persist_def set_ready_at_def set_retry_at_def set_task_def update_attempt_def set_state_simps
      release_task_reservation_def update_conn_def Let_def split: option.split)

lemma tasks_sends [tasks_simps]:
  "tasks_of (stop_connection h s) = tasks_of s" "tasks_of (send_frame_to h f s) = tasks_of s"
  "tasks_of (respond_node c rid ty p s) = tasks_of s" "tasks_of (respond_client c rid ty p s) = tasks_of s"
  "tasks_of (send_to_node n ty p s) = tasks_of s"
  by (simp_all add: stop_connection_def send_frame_to_def respond_node_def respond_client_def send_to_node_def tasks_simps split: option.split)

lemma tasks_attempts [tasks_simps]:
  "tasks_of (unblock i s) = tasks_of s" "tasks_of (cancel_attempt p why s) = tasks_of s"
  "tasks_of (commit_attempt p co s) = tasks_of s" "tasks_of (record_success a co s) = tasks_of s"
  "tasks_of (schedule_retry i t s) = tasks_of s"
  by (simp_all add: unblock_def cancel_attempt_def commit_attempt_def record_success_def schedule_retry_def Let_def tasks_simps split: option.split)

lemma tasks_succeeded: "on_task_succeeded_recursive i s = Some s' \<Longrightarrow> tasks_of s' = tasks_of s"
proof -
  have "succeed_loop fuel deps s = Some s' \<Longrightarrow> tasks_of s' = tasks_of s" for fuel deps s
    by (induction fuel deps s arbitrary: s' rule: succeed_loop.induct) (auto simp: Let_def tasks_simps split: if_splits option.splits)
  then show "on_task_succeeded_recursive i s = Some s' \<Longrightarrow> ?thesis" by (simp add: on_task_succeeded_recursive_def)
qed

lemma tasks_fold: "(\<And>x s. tasks_of (f x s) = tasks_of s) \<Longrightarrow> tasks_of (fold f xs s) = tasks_of s"
  by (induction xs arbitrary: s) auto

lemma tasks_handlers [tasks_simps]:
  "tasks_of (handle_node_register c rid reg s) = tasks_of s" "tasks_of (handle_node_heartbeat c rid hb s) = tasks_of s"
  "tasks_of (handle_node_disconnect n c s) = tasks_of s" "tasks_of (handle_node_shutdown_msg c rid n s) = tasks_of s"
  "tasks_of (handle_reservation_release c rid rel s) = tasks_of s" "tasks_of (handle_task_list c rid li s) = tasks_of s"
  "tasks_of (handle_workload_inspect c rid w s) = tasks_of s" "tasks_of (handle_fabric_status c rid s) = tasks_of s"
  "tasks_of (handle_placement_query c rid q s) = tasks_of s" "tasks_of (handle_node_list c rid s) = tasks_of s"
  "tasks_of (handle_node_drain c rid d s) = tasks_of s" "tasks_of (handle_task_inspect c rid ti s) = tasks_of s"
  by (simp_all add: handle_node_register_def register_session_def handle_node_heartbeat_def handle_node_disconnect_def
      handle_node_shutdown_msg_def handle_reservation_release_def handle_task_list_def handle_workload_inspect_def handle_fabric_status_def
      handle_placement_query_def handle_node_list_def handle_node_drain_def handle_task_inspect_def Let_def tasks_simps split: option.split)

lemma tasks_attempt_handlers [tasks_simps]:
  "tasks_of (handle_dispatch_ack da s) = tasks_of s" "tasks_of (handle_attempt_started st s) = tasks_of s"
  "tasks_of (handle_attempt_failed c rid fa s) = tasks_of s" "tasks_of (handle_attempt_cancelled ca s) = tasks_of s"
  "tasks_of (handle_attempt_complete c rid co s) = tasks_of s"
  by (auto simp: handle_dispatch_ack_def handle_attempt_started_def handle_attempt_failed_def handle_attempt_cancelled_def
      handle_attempt_complete_def Let_def tasks_simps tasks_succeeded split: option.split)

lemma state_tasks: "set_state i st g = (r, g') \<Longrightarrow> g_tasks g' = g_tasks g"
  using set_state_simps(1) [of i st g] by simp

lemma tasks_cancel [tasks_simps]: "tasks_of (handle_task_cancel c rid tc s) = tasks_of s"
  by (auto simp: handle_task_cancel_def Let_def tasks_simps split: option.split prod.split sum.split dest!: state_tasks)

lemma tasks_shutdown [tasks_simps]: "tasks_of (handle_coordinator_shutdown c rid s) = tasks_of s"
proof -
  have "tasks_of (shutdown_node e s) = tasks_of s" for e s by (simp add: shutdown_node_def tasks_simps split: option.split)
  then show ?thesis by (simp add: handle_coordinator_shutdown_def Let_def tasks_simps tasks_fold)
qed

lemma tasks_sweep [tasks_simps]: "tasks_of (sweep s) = tasks_of s"
proof -
  have loss: "tasks_of (handle_node_loss n s) = tasks_of s" for n s
    by (auto simp: handle_node_loss_def lose_task_def Let_def tasks_simps split: option.split intro!: tasks_fold [THEN trans])
  have dispatch: "tasks_of (dispatch_attempt i task n node d e r s) = tasks_of s" for i task n node d e r s
    by (simp add: dispatch_attempt_def Let_def tasks_simps)
  have reserve: "tasks_of (reserve_and_dispatch i task n node d s) = tasks_of s" for i task n node d s
    by (auto simp: reserve_and_dispatch_def tasks_simps dispatch Let_def
        split del: if_split split: option.splits prod.splits sum.splits dest!: state_tasks)
  have one: "tasks_of (schedule_one i s) = tasks_of s" for i s
    by (simp add: schedule_one_def Let_def tasks_simps reserve split: option.split)
  have "tasks_of (schedule_loop rs s) = tasks_of s" for rs s by (induction rs arbitrary: s) (simp_all add: one)
  then show ?thesis
    by (simp add: sweep_def schedule_ready_tasks_def Let_def loss tasks_fold tasks_simps requeue_dispatch_def requeue_retry_def expire_task_def
        split: option.split)
qed

lemma tasks_maybe_sweep [tasks_simps]: "tasks_of (maybe_sweep s) = tasks_of s"
  by (simp add: maybe_sweep_def Let_def tasks_simps)

lemma add_task_tasks:
  assumes "graph_inv g" "find_task (snd (add_task task g)) i = Some t"
  shows "find_task g i = Some t \<or> t = task"
  by (rule add_task_graph [OF assms(1), of task])
    (use assms(2) in \<open>auto simp: find_task_def insert_task_simps [OF assms(1)] split: if_splits\<close>)

lemma tasks_submit:
  assumes "graph_inv (co_graph s)" "find_task (co_graph (handle_task_submit c rid m s)) i = Some t"
  shows "find_task (co_graph s) i = Some t \<or> t = tsu_task m"
proof (rule ccontr)
  assume other: "\<not> ?thesis"
  have "find_task g i \<noteq> Some t" if "add_task (tsu_task m) (co_graph s) = (r, g)" for r g
    using add_task_tasks [OF assms(1), of "tsu_task m" i t] that other by auto
  then show False using assms(2) other unfolding find_task_def
    by (auto simp: handle_task_submit_def accept_task_def Let_def tasks_simps split: if_splits option.splits prod.splits sum.splits)
qed

lemma process_tasks:
  assumes "graph_inv (co_graph s)" "find_task (co_graph (process cmd s)) i = Some t"
  shows "find_task (co_graph s) i = Some t \<or> (\<exists>c rid m. cmd = CK_ClientTaskSubmit c rid m \<and> t = tsu_task m)"
proof (cases "\<exists>c rid m. cmd = CK_ClientTaskSubmit c rid m")
  case True
  then obtain c rid m where cmd: "cmd = CK_ClientTaskSubmit c rid m" by blast
  show ?thesis using tasks_submit [OF assms(1), of c rid m i t] assms(2) by (simp add: process_def cmd)
next
  case False
  then have "tasks_of (process cmd s) = tasks_of s"
    by (cases cmd) (auto simp: process_def Let_def tasks_simps split: option.split)
  then show ?thesis using assms(2) by (simp add: find_task_def)
qed

lemma core_tasks:
  assumes "graph_inv (co_graph s)" "find_task (co_graph (core_iteration s)) i = Some t"
  shows "find_task (co_graph s) i = Some t \<or> (\<exists>c rid m. CK_ClientTaskSubmit c rid m \<in> set (co_queue s) \<and> t = tsu_task m)"
proof (cases "co_queue s")
  case Nil
  then show ?thesis using assms(2) by (simp add: core_iteration_def find_task_def tasks_simps)
next
  case (Cons cmd rest)
  have "find_task (co_graph (maybe_sweep s1)) i = find_task (co_graph s1) i" for s1 by (simp add: find_task_def tasks_simps)
  then show ?thesis using process_tasks [of "s\<lparr>co_queue := rest\<rparr>" cmd i t] assms
    by (auto simp: core_iteration_def Cons Let_def split: if_splits)
qed

section \<open>Limits\<close>

definition descriptors_fit :: "TaskGraph \<Rightarrow> bool" where
  "descriptors_fit g \<longleftrightarrow> (\<forall>i t. find_task g i = Some t \<longrightarrow> task_fits t)"

definition within_limits :: "(CoreCommand \<Rightarrow> bool) \<Rightarrow> Coordinator \<Rightarrow> bool" where
  "within_limits Q s \<longleftrightarrow> traffic_ok (recorded_frame (ledger_of s)) Q s \<and> descriptors_fit (co_graph s)"

lemma descriptors_fit_core:
  assumes "graph_inv (co_graph s)" "descriptors_fit (co_graph s)" "traffic_ok P Q s" "\<And>cmd. Q cmd \<Longrightarrow> command_fits cmd"
  shows "descriptors_fit (co_graph (core_iteration s))"
  unfolding descriptors_fit_def
proof (intro allI impI)
  fix i t
  assume "find_task (co_graph (core_iteration s)) i = Some t"
  then consider "find_task (co_graph s) i = Some t" | c rid m where "CK_ClientTaskSubmit c rid m \<in> set (co_queue s)" "t = tsu_task m"
    using core_tasks [OF assms(1)] by blast
  then show "task_fits t"
  proof cases
    case 1
    then show ?thesis using assms(2) by (simp add: descriptors_fit_def)
  next
    case (2 c rid m)
    then have "command_fits (CK_ClientTaskSubmit c rid m)" using assms(3,4) by (fastforce simp: traffic_ok_def)
    then show ?thesis using 2 by (simp add: task_submit_fits_def)
  qed
qed

lemma recorded_decodes:
  assumes "recorded_frame l f" "descriptors_fit (fst l)"
  shows "\<exists>m. fst (deserialize_dispatch_attempt (reader_of (f_payload f))) = Inr m \<and> recorded l m"
proof -
  obtain m where m: "recorded l m" "f_payload f = serialize_dispatch_attempt m" using assms(1) by (auto simp: recorded_frame_def)
  then have "dispatch_attempt_fits m" using assms(2) by (auto simp: recorded_def descriptors_fit_def dispatch_attempt_fits_def)
  from dispatch_attempt_codec.decode_encoded [OF this, of "[]"] m show ?thesis by auto
qed

lemma limits_step:
  assumes "fabric_step (ts, s) (ts', s')" "ledger_inv (ledger_of s)" "within_limits command_fits s"
  shows "within_limits command_fits s'"
proof -
  let ?l = "ledger_of s"
  have inv: "graph_inv (co_graph s)" using assms(2) by (simp add: ledger_inv_def ledger_of_def)
  have ok: "traffic_ok (recorded_frame ?l) command_fits s" and fit: "descriptors_fit (co_graph s)"
    using assms(3) by (simp_all add: within_limits_def)
  have quiet: "within_limits command_fits s'" if "ledger_of s' = ?l" "traffic_ok (recorded_frame ?l) command_fits s'"
    using that fit by (simp add: within_limits_def ledger_of_def)
  show ?thesis using assms(1)
  proof cases
    case core
    then show ?thesis using sends_recordedD [OF sends_core_iteration assms(2) ok] descriptors_fit_core [OF inv fit ok]
      by (simp add: within_limits_def)
  next
    case (accept_node_conn h t)
    then show ?thesis using traffic_accept(1) [OF ok, of h] by (intro quiet) (auto simp: accept_node_def ledger_simps)
  next
    case (accept_client_conn h t)
    then show ?thesis using traffic_accept(2) [OF ok, of h] by (intro quiet) (auto simp: accept_client_def ledger_simps)
  next
    case (reader h t frame t')
    have "traffic_ok (recorded_frame ?l) command_fits (snd (reader_step h frame t s))"
      by (rule traffic_reader_step [OF ok]) (auto split: if_splits intro: node_command_fits client_command_fits)
    then show ?thesis using reader ledger_of_reader_step [of h frame t s] by (intro quiet) simp_all
  next
    case (writer_takes h c frame c')
    then show ?thesis using traffic_take(1) [OF ok] by (intro quiet) (simp_all add: ledger_simps)
  next
    case (writer_done h ok')
    then show ?thesis using traffic_sent [OF ok] by (intro quiet) (simp_all add: ledger_simps)
  next
    case stop
    then show ?thesis using traffic_stop [OF ok] by (intro quiet) (simp_all add: ledger_of_stop)
  qed
qed

lemma limits_run:
  "fabric_run f f' \<Longrightarrow> ledger_inv (ledger_of (snd f)) \<Longrightarrow> within_limits command_fits (snd f) \<Longrightarrow> within_limits command_fits (snd f')"
proof (induction rule: fabric_run.induct)
  case (fabric_trans f f' f'')
  have inv: "ledger_inv (ledger_of (snd f'))"
    by (rule ledger_steps_inv [OF fabric_run_ledger [OF fabric_trans.hyps(1) fabric_trans.prems(1)] fabric_trans.prems(1)])
  have "fabric_step (fst f', snd f') (fst f'', snd f'')" using fabric_trans.hyps(2) by simp
  then show ?case using inv fabric_trans.IH fabric_trans.prems by (blast intro: limits_step)
qed

text \<open>
  C15: what the coordinator holds and sends is well formed. In every state that any interleaving of the threads reaches, whatever the
  peers send, each descriptor of the graph is within the limits of the wire format, each queued command
  too, and each dispatch message waiting on a connection is decoded by the receiver to an attempt on file under its task
  with that task's descriptor.
\<close>

theorem dispatches_well_formed:
  assumes "fabric_run (ts, s) (ts', s')" "ledger_inv (ledger_of s)" "co_conns s = []" "co_queue s = []" "descriptors_fit (co_graph s)"
  shows "descriptors_fit (co_graph s') \<and> list_all (\<lambda>cmd. has_message cmd \<longrightarrow> command_fits cmd) (co_queue s') \<and>
    (map_of (co_conns s') h = Some c \<longrightarrow> f \<in> set (conn_outbound c) \<longrightarrow> fh_message_type (f_header f) = kDispatchAttempt \<longrightarrow>
       (\<exists>m. fst (deserialize_dispatch_attempt (reader_of (f_payload f))) = Inr m \<and>
          find_task (co_graph s') (t_id (dpa_task m)) = Some (dpa_task m) \<and>
          (\<exists>a \<in> set (attempts_of (co_attempts s') (t_id (dpa_task m))). a_id a = dpa_attempt_id m)))"
proof -
  have "within_limits command_fits s" using assms(3-5) by (simp add: within_limits_def traffic_ok_def)
  then have w: "within_limits command_fits s'" using limits_run [OF assms(1)] assms(2) by simp
  then have fit: "descriptors_fit (co_graph s')" by (simp add: within_limits_def)
  have "\<exists>m. fst (deserialize_dispatch_attempt (reader_of (f_payload f))) = Inr m \<and> recorded (ledger_of s') m"
    if "map_of (co_conns s') h = Some c" "f \<in> set (conn_outbound c)" "fh_message_type (f_header f) = kDispatchAttempt"
    by (rule recorded_decodes) (use w fit that in \<open>auto simp: within_limits_def traffic_ok_def ledger_of_def\<close>)
  then have frames: "\<exists>m. fst (deserialize_dispatch_attempt (reader_of (f_payload f))) = Inr m \<and>
          find_task (co_graph s') (t_id (dpa_task m)) = Some (dpa_task m) \<and>
          (\<exists>a \<in> set (attempts_of (co_attempts s') (t_id (dpa_task m))). a_id a = dpa_attempt_id m)"
    if "map_of (co_conns s') h = Some c" "f \<in> set (conn_outbound c)" "fh_message_type (f_header f) = kDispatchAttempt"
    using that unfolding recorded_def ledger_of_def image_iff fst_conv snd_conv by metis
  show ?thesis using fit frames w by (simp add: within_limits_def traffic_ok_def list_all_iff)
qed

lemma sample_tasks_fit: "descriptors_fit (co_graph sample_coordinator)"
  by (auto simp: descriptors_fit_def find_task_def sample_coordinator_simps sample_graph_eq sample_task_def default_task_def task_fits_def
      str_fits_def list_fits_def map_fits_def kMaxString_def kMaxList_def split: if_splits)

theorem dispatches_well_formed_witness:
  "descriptors_fit (co_graph (core_iteration (sample_coordinator\<lparr>co_core_running := True\<rparr>)))"
proof -
  let ?s = "sample_coordinator\<lparr>co_core_running := True\<rparr>"
  have "fabric_step ([], ?s) ([], core_iteration ?s)" by (rule fabric_step.core) simp
  then have r: "fabric_run ([], ?s) ([], core_iteration ?s)" by (blast intro: fabric_run.intros)
  have "ledger_inv (ledger_of ?s)" "co_conns ?s = []" "co_queue ?s = []" "descriptors_fit (co_graph ?s)"
    using sample_coordinator_inv sample_tasks_fit
    by (simp_all add: ledger_simps) (simp_all add: sample_coordinator_def empty_coordinator_def new_coordinator_def)
  from dispatches_well_formed [OF r this] show ?thesis by blast
qed

end
