(* ===== verification/Workloads.thy ===== *)
theory Workloads
  imports Task Digest Wire
begin

text \<open>
  The built-in CPU kernels (\<open>executor/workloads.cpp\<close>): one loop per kernel over \<open>n\<close> elements that
  accumulates two 64-bit sums, and the 16-byte digest of the sums.

  A \<open>CancellationToken\<close> is set by another thread at any time; a kernel run takes what its poll in
  iteration \<open>i\<close> returns as the function \<open>cancelled\<close> (a null token is \<open>no_token\<close>). A loop that
  a poll ends early is the value \<open>None\<close>. The digest hashes two 64-bit words in memory order, which is
  little-endian on the supported hosts.
\<close>

section \<open>Definitions\<close>

type_synonym polls = "nat \<Rightarrow> bool"

definition no_token :: polls where
  "no_token i = False"

record WorkloadResult =
  wr_success :: bool
  wr_output :: "byte list"
  wr_checksum_hex :: string
  wr_notes :: string
  wr_bytes_processed :: u64

definition default_workload_result :: WorkloadResult where
  "default_workload_result = \<lparr>wr_success = True, wr_output = [], wr_checksum_hex = [], wr_notes = [], wr_bytes_processed = 0\<rparr>"

text \<open>
  \<open>hex_digest\<close> formats at most 32 bytes into a buffer of 65 characters and then terminates it at
  twice the length of the data: for more than 32 bytes that write is outside the buffer (\<open>None\<close>).
\<close>

definition hex_byte :: "byte \<Rightarrow> string" where
  "hex_byte b = [hex_digit (unat b div 16), hex_digit (unat b mod 16)]"

definition hex_digest :: "byte list \<Rightarrow> string option" where
  "hex_digest data =
     (if length data * 2 < 65 then Some (concat (map hex_byte (take 32 data))) else None)"

definition mul_mod :: "u32 \<Rightarrow> u32 \<Rightarrow> u32 \<Rightarrow> u32" where
  "mul_mod a b m = ucast ((ucast a :: u64) * ucast b mod ucast m)"

definition wmix :: "u32 \<Rightarrow> u32" where
  "wmix x =
     (let x = x XOR drop_bit 16 x;
          x = x * 0x7FEB352D;
          x = x XOR drop_bit 15 x;
          x = x * 0x846CA68B
      in x XOR drop_bit 16 x)"

definition hash_integer :: "u32 \<Rightarrow> u16" where
  "hash_integer v = ucast (wmix (v + 0x9E3779B9))"

fun is_supported_cpu_kernel :: "KernelType \<Rightarrow> bool" where
  "is_supported_cpu_kernel KT_HashInteger = True"
| "is_supported_cpu_kernel KT_VectorTransform = True"
| "is_supported_cpu_kernel KT_Checksum = True"
| "is_supported_cpu_kernel KT_SyntheticLoop = True"
| "is_supported_cpu_kernel KT_StateDependent = True"
| "is_supported_cpu_kernel KT_TensorArithmetic = True"
| "is_supported_cpu_kernel _ = False"

text \<open>The accumulators of a kernel: \<open>acc_lo\<close>, \<open>acc_hi\<close>, \<open>processed\<close> and the running value \<open>s\<close>.\<close>

record Acc =
  acc_lo :: u64
  acc_hi :: u64
  processed :: u64
  running :: u32

definition acc_start :: "u32 \<Rightarrow> Acc" where
  "acc_start s = \<lparr>acc_lo = 0, acc_hi = 0, processed = 0, running = s\<rparr>"

fun kernel_loop :: "polls \<Rightarrow> (nat \<Rightarrow> Acc \<Rightarrow> Acc) \<Rightarrow> nat \<Rightarrow> nat \<Rightarrow> Acc \<Rightarrow> Acc option" where
  "kernel_loop cancelled step i 0 a = Some a"
| "kernel_loop cancelled step i (Suc k) a =
     (if cancelled i then None else kernel_loop cancelled step (Suc i) k (step i a))"

definition hash_step :: "u32 \<Rightarrow> nat \<Rightarrow> Acc \<Rightarrow> Acc" where
  "hash_step seed i a =
     (let h = hash_integer (wmix (of_nat i + seed)) in
      a\<lparr>acc_lo := acc_lo a + ucast h, acc_hi := acc_hi a + ucast h * (of_nat i + 1), processed := processed a + 2\<rparr>)"

definition transform_element :: "u32 \<Rightarrow> u32 \<Rightarrow> u32 \<Rightarrow> nat \<Rightarrow> u32" where
  "transform_element a b seed i = (mul_mod (wmix (of_nat i + seed)) a 0xFFFFFFFB + b) mod 0xFFFFFFFB"

definition vector_step :: "u32 \<Rightarrow> u32 \<Rightarrow> u32 \<Rightarrow> nat \<Rightarrow> Acc \<Rightarrow> Acc" where
  "vector_step pa pb seed i a =
     (let y = transform_element pa pb seed i in
      a\<lparr>acc_lo := acc_lo a + ucast y, acc_hi := acc_hi a XOR push_bit 1 (ucast y), processed := processed a + 1\<rparr>)"

definition checksum_step :: "nat \<Rightarrow> Acc \<Rightarrow> Acc" where
  "checksum_step i a =
     (let v = wmix (of_nat i + running a); s = running a * 31 + v in
      a\<lparr>running := s, acc_lo := acc_lo a + ucast s, acc_hi := acc_hi a + ucast s * (of_nat i + 1),
        processed := processed a + 1\<rparr>)"

text \<open>The last two loops mix the running value; the state-dependent kernel shifts it before folding it in.\<close>

definition mixing_step :: "nat \<Rightarrow> nat \<Rightarrow> Acc \<Rightarrow> Acc" where
  "mixing_step shift i a =
     (let s = wmix (running a + of_nat i) in
      a\<lparr>running := s, acc_lo := acc_lo a + ucast s, acc_hi := acc_hi a XOR push_bit shift (ucast s),
        processed := processed a + 1\<rparr>)"

definition state_fingerprint :: "StateDependency list \<Rightarrow> u64" where
  "state_fingerprint deps =
     foldl (\<lambda>fp d. fp XOR (bytes_hash (char_bytes (sd_state_id d)) 0 + bytes_hash (char_bytes (sd_generation d)) 0)) 0 deps"

text \<open>The matrix product: \<open>A\<close> and \<open>B\<close> are filled first, then the rows are computed one after the other.\<close>

definition tensor_dim :: "u64 \<Rightarrow> nat" where
  "tensor_dim n = (let k = unat (ucast n :: u32) in if 256 < k then 256 else if k = 0 then 1 else k)"

definition tensor_entry :: "u32 list \<Rightarrow> u32 list \<Rightarrow> nat \<Rightarrow> nat \<Rightarrow> nat \<Rightarrow> u32" where
  "tensor_entry A B k i j =
     (let s = foldl (\<lambda>s l. s + (ucast (A ! (i * k + l)) :: u64) * ucast (B ! (l * k + j))) 0 [0..<k]
      in ucast (drop_bit 32 s XOR (s AND 0xFFFFFFFF)))"

definition tensor_step :: "u32 list \<Rightarrow> u32 list \<Rightarrow> nat \<Rightarrow> nat \<Rightarrow> Acc \<Rightarrow> Acc" where
  "tensor_step A B k i a =
     foldl (\<lambda>a j. let c = tensor_entry A B k i j in
        a\<lparr>acc_lo := acc_lo a + ucast c, acc_hi := acc_hi a XOR push_bit 5 (ucast c)\<rparr>) a [0..<k]"

definition tensor_kernel :: "polls \<Rightarrow> u32 \<Rightarrow> u64 \<Rightarrow> Acc option" where
  "tensor_kernel cancelled seed n =
     (let k = tensor_dim n;
          A = map (\<lambda>i. wmix (of_nat i + seed)) [0..<k * k];
          B = map (\<lambda>i. wmix (of_nat i + seed + 0x1234)) [0..<k * k]
      in map_option (\<lambda>a. a\<lparr>processed := of_nat k * of_nat k * of_nat k * 2\<rparr>)
           (kernel_loop cancelled (tensor_step A B k) 0 k (acc_start 0)))"

text \<open>The digest of the two sums, most significant byte first.\<close>

definition acc_digest :: "u32 \<Rightarrow> u64 \<Rightarrow> u64 \<Rightarrow> u64 \<Rightarrow> byte list" where
  "acc_digest seed n lo hi =
     (let h0 = bytes_hash (rev (put_u64 lo) @ rev (put_u64 hi)) (ucast seed); h1 = mix64 (h0 XOR n)
      in put_u64 h0 @ put_u64 h1)"

definition kMaxElements :: u64 where
  "kMaxElements = 64000000"

definition kernel_n :: "ComputeTask \<Rightarrow> u64" where
  "kernel_n task = (if 0 < t_kernel_param_n task then t_kernel_param_n task else 1)"

definition low32 :: "u64 \<Rightarrow> u32" where
  "low32 v = ucast (v AND 0xFFFFFFFF)"

definition run_kernel :: "ComputeTask \<Rightarrow> polls \<Rightarrow> Acc option option" where
  "run_kernel task cancelled =
     (let n = kernel_n task; a = low32 (t_kernel_param_a task); b = low32 (t_kernel_param_b task);
          seed = low32 (t_seed task)
      in case t_kernel task of
        KT_HashInteger \<Rightarrow> Some (kernel_loop cancelled (hash_step seed) 0 (unat n) (acc_start 0))
      | KT_VectorTransform \<Rightarrow> Some (kernel_loop cancelled (vector_step a b seed) 0 (unat n) (acc_start 0))
      | KT_Checksum \<Rightarrow> Some (kernel_loop cancelled checksum_step 0 (unat n) (acc_start seed))
      | KT_SyntheticLoop \<Rightarrow> Some (kernel_loop (\<lambda>i. i mod 0x4000 = 0 \<and> cancelled i) (mixing_step 0) 0
          (min (unat n) 50000000) (acc_start seed))
      | KT_StateDependent \<Rightarrow> Some (kernel_loop cancelled (mixing_step 3) 0 (unat n)
          (acc_start (ucast (state_fingerprint (t_state_dependencies task)) XOR seed)))
      | KT_TensorArithmetic \<Rightarrow> Some (tensor_kernel cancelled seed n)
      | _ \<Rightarrow> None)"

definition kernel_refused :: "string \<Rightarrow> WorkloadResult" where
  "kernel_refused why = default_workload_result\<lparr>wr_success := False, wr_notes := why\<rparr>"

definition run_cpu_kernel :: "ComputeTask \<Rightarrow> polls \<Rightarrow> WorkloadResult" where
  "run_cpu_kernel task cancelled =
     (let n = kernel_n task; seed = low32 (t_seed task) in
      if kMaxElements < n then kernel_refused ''kernel size exceeds bound''
      else case run_kernel task cancelled of
        None \<Rightarrow> kernel_refused (''unsupported kernel: '' @ kernel_type_name (t_kernel task))
      | Some None \<Rightarrow> kernel_refused ''cancelled''
      | Some (Some a) \<Rightarrow>
          let out = acc_digest seed n (acc_lo a) (acc_hi a) in
          default_workload_result\<lparr>wr_output := out, wr_checksum_hex := the (hex_digest out),
            wr_bytes_processed := processed a\<rparr>)"

section \<open>Loops\<close>

lemma kernel_loop_eq:
  "kernel_loop cancelled step i k a =
     (if \<exists>j \<in> {i..<i + k}. cancelled j then None else Some (fold step [i..<i + k] a))"
proof (induction k arbitrary: i a)
  case (Suc k)
  have range: "{i..<i + Suc k} = insert i {Suc i..<Suc i + k}" "[i..<i + Suc k] = i # [Suc i..<Suc i + k]"
    by (auto simp: upt_conv_Cons)
  show ?case unfolding kernel_loop.simps Suc.IH range by auto
qed simp

lemma length_put_u64 [simp]: "length (put_u64 v) = 8"
  by (simp add: put_u64_def)

lemma length_acc_digest [simp]: "length (acc_digest seed n lo hi) = 16"
  by (simp add: acc_digest_def Let_def)

lemma length_hex_bytes: "length (concat (map hex_byte bs)) = 2 * length bs"
  by (induction bs) (simp_all add: hex_byte_def)

lemma hex_byte_inject: "hex_byte a = hex_byte b \<longleftrightarrow> a = b"
proof
  assume eq: "hex_byte a = hex_byte b"
  have digit: "m = n" if "hex_digit m = hex_digit n" "m < 16" "n < 16" for m n
    using nib_hex_digit [OF that(2)] nib_hex_digit [OF that(3)] unfolding that(1) by linarith
  have bound: "unat c div 16 < 16" for c :: byte
    using unsigned_less [of c, where 'a = nat] by (simp add: less_mult_imp_div_less)
  have "unat a div 16 = unat b div 16" "unat a mod 16 = unat b mod 16"
    using eq by (auto simp: hex_byte_def intro: digit bound)
  then have "unat a = unat b" by (metis div_mult_mod_eq)
  then show "a = b" using word_eq_iff_unsigned by blast
qed simp

lemma hex_bytes_inject: "concat (map hex_byte xs) = concat (map hex_byte ys) \<Longrightarrow> xs = ys"
proof (induction xs arbitrary: ys)
  case Nil
  then show ?case by (cases ys) (simp_all add: hex_byte_def)
next
  case (Cons x xs)
  then obtain y zs where ys: "ys = y # zs" by (cases ys) (simp_all add: hex_byte_def)
  with Cons.prems have "hex_byte x @ concat (map hex_byte xs) = hex_byte y @ concat (map hex_byte zs)" by simp
  then have "hex_byte x = hex_byte y" "concat (map hex_byte xs) = concat (map hex_byte zs)"
    by (simp_all add: hex_byte_def)
  with Cons.IH ys show ?case by (simp add: hex_byte_inject)
qed

lemma hex_digest_inject: "hex_digest xs = Some h \<Longrightarrow> hex_digest ys = Some h \<Longrightarrow> xs = ys"
  by (rule hex_bytes_inject) (auto simp: hex_digest_def split: if_splits)

section \<open>Properties\<close>

text \<open>The iterations in which a kernel looks at its token.\<close>

definition polled :: "ComputeTask \<Rightarrow> nat set" where
  "polled task =
     (case t_kernel task of
        KT_SyntheticLoop \<Rightarrow> {i. i < min (unat (kernel_n task)) 50000000 \<and> i mod 0x4000 = 0}
      | KT_TensorArithmetic \<Rightarrow> {0..<tensor_dim (kernel_n task)}
      | _ \<Rightarrow> {0..<unat (kernel_n task)})"

lemma run_kernel_polls:
  "run_kernel task cancelled =
     (if \<not> is_supported_cpu_kernel (t_kernel task) then None
      else if \<exists>i \<in> polled task. cancelled i then Some None
      else run_kernel task no_token)"
  by (cases "t_kernel task")
    (auto simp: run_kernel_def Let_def kernel_loop_eq polled_def no_token_def tensor_kernel_def)

lemma run_kernel_uncancelled:
  "is_supported_cpu_kernel (t_kernel task) \<Longrightarrow> \<exists>a. run_kernel task no_token = Some (Some a)"
  by (cases "t_kernel task") (auto simp: run_kernel_def Let_def kernel_loop_eq no_token_def tensor_kernel_def)

text \<open>
  C28: what a kernel run can do. It succeeds exactly when the kernel is one of the six supported ones,
  it has at most 64 million elements and no poll of its token finds a cancellation; the result of a
  successful run is then that of the undisturbed run, whenever and however often others tried to cancel: 16
  bytes whose 32 hexadecimal digits are the reported checksum. Every other run reports a failure
  with no output, and \<open>cancelled\<close> only when a poll asked for it.
\<close>

theorem kernel_run_exact:
  "(wr_success (run_cpu_kernel task cancelled) \<longleftrightarrow>
      is_supported_cpu_kernel (t_kernel task) \<and> kernel_n task \<le> kMaxElements \<and> (\<forall>i. i \<in> polled task \<longrightarrow> \<not> cancelled i)) \<and>
   (wr_success (run_cpu_kernel task cancelled) \<longrightarrow>
      run_cpu_kernel task cancelled = run_cpu_kernel task no_token \<and>
      length (wr_output (run_cpu_kernel task cancelled)) = 16 \<and>
      length (wr_checksum_hex (run_cpu_kernel task cancelled)) = 32 \<and>
      hex_digest (wr_output (run_cpu_kernel task cancelled)) = Some (wr_checksum_hex (run_cpu_kernel task cancelled))) \<and>
   (\<not> wr_success (run_cpu_kernel task cancelled) \<longrightarrow>
      wr_output (run_cpu_kernel task cancelled) = [] \<and>
      (wr_notes (run_cpu_kernel task cancelled) = ''cancelled'' \<longrightarrow> (\<exists>i. i \<in> polled task \<and> cancelled i)))"
proof (cases "kMaxElements < kernel_n task")
  case True
  then show ?thesis by (auto simp: run_cpu_kernel_def kernel_refused_def default_workload_result_def not_le)
next
  case small: False
  show ?thesis
  proof (cases "is_supported_cpu_kernel (t_kernel task)")
    case False
    with small show ?thesis
      by (simp add: run_cpu_kernel_def run_kernel_polls [of task cancelled] kernel_refused_def default_workload_result_def)
  next
    case True
    then obtain a where "run_kernel task no_token = Some (Some a)" using run_kernel_uncancelled by blast
    with small True show ?thesis
      by (auto simp: run_cpu_kernel_def run_kernel_polls [of task cancelled] kernel_refused_def default_workload_result_def
          Let_def hex_digest_def length_hex_bytes)
  qed
qed

definition sample_kernel_task :: ComputeTask where
  "sample_kernel_task = default_task\<lparr>t_kernel := KT_VectorTransform, t_kernel_param_n := 2, t_kernel_param_a := 31,
     t_kernel_param_b := 17, t_seed := 7\<rparr>"

theorem kernel_run_exact_witness:
  "wr_success (run_cpu_kernel sample_kernel_task no_token) \<and>
   length (wr_output (run_cpu_kernel sample_kernel_task no_token)) = 16 \<and>
   \<not> wr_success (run_cpu_kernel sample_kernel_task (\<lambda>i. i = 1))"
  using kernel_run_exact [of sample_kernel_task no_token] kernel_run_exact [of sample_kernel_task "\<lambda>i. i = 1"]
  by (simp add: sample_kernel_task_def kernel_n_def kMaxElements_def polled_def no_token_def)

end
