(* ===== verification/Cuda_Kernel.thy ===== *)
theory Cuda_Kernel
  imports Workloads
begin

text \<open>
  The CUDA path of the vector transform (\<open>executor/cuda_executor.cu\<close>): the two device kernels, the host
  function that launches them and turns the device output into the digest, and its accounting of
  device allocations.

  \<^item> A kernel launch runs every thread of its grid once, in an order the device chooses. A launch is
    the fold of the thread body over a \<open>schedule\<close>; between two barriers of the reduction every thread of the
    block takes its turn once, again in any order. Results that must not depend on the order are
    proved for every schedule.
  \<^item> What the CUDA runtime answers is the record \<open>CudaEnv\<close>: the error of each call, the schedules,
    the clock, and the contents that freshly allocated device memory happens to have.
\<close>

section \<open>Device code\<close>

definition kMod :: u32 where
  "kMod = 0xFFFFFFFB"

definition wmix_u32 :: "u32 \<Rightarrow> u32" where
  "wmix_u32 x =
     (let x = x XOR drop_bit 16 x;
          x = x * 0x7FEB352D;
          x = x XOR drop_bit 15 x;
          x = x * 0x846CA68B
      in x XOR drop_bit 16 x)"

definition device_element :: "u32 \<Rightarrow> u32 \<Rightarrow> u32 \<Rightarrow> nat \<Rightarrow> u32" where
  "device_element a b seed i =
     (let xi = wmix_u32 (of_nat i + seed); prod = (ucast xi :: u64) * ucast a + ucast b
      in ucast (prod mod ucast kMod))"

definition vec_transform_thread :: "nat \<Rightarrow> u32 \<Rightarrow> u32 \<Rightarrow> u32 \<Rightarrow> nat \<Rightarrow> u32 list \<Rightarrow> u32 list" where
  "vec_transform_thread n a b seed i y = (if n \<le> i then y else y[i := device_element a b seed i])"

definition vec_transform_kernel :: "nat list \<Rightarrow> nat \<Rightarrow> u32 \<Rightarrow> u32 \<Rightarrow> u32 \<Rightarrow> u32 list \<Rightarrow> u32 list" where
  "vec_transform_kernel order n a b seed y = fold (vec_transform_thread n a b seed) order y"

text \<open>The reduction of one block: the shared array after the loads, and the halving loop over strides.\<close>

definition block_loads :: "nat \<Rightarrow> nat \<Rightarrow> u32 list \<Rightarrow> nat \<Rightarrow> u64 list" where
  "block_loads dim n y block = map (\<lambda>tid. let i = block * dim + tid in if i < n then ucast (y ! i) else 0) [0..<dim]"

definition reduce_thread :: "nat \<Rightarrow> nat \<Rightarrow> u64 list \<Rightarrow> u64 list" where
  "reduce_thread s tid sh = (if tid < s then sh[tid := sh ! tid + sh ! (tid + s)] else sh)"

fun reduce_loop :: "(nat \<Rightarrow> nat list) \<Rightarrow> nat \<Rightarrow> u64 list \<Rightarrow> u64 list" where
  "reduce_loop order s sh =
     (if s = 0 then sh else reduce_loop order (s div 2) (fold (reduce_thread s) (order s) sh))"

declare reduce_loop.simps [simp del]

definition reduce_checksum_kernel :: "(nat \<Rightarrow> nat \<Rightarrow> nat list) \<Rightarrow> nat \<Rightarrow> nat \<Rightarrow> nat \<Rightarrow> u32 list \<Rightarrow> u64 list" where
  "reduce_checksum_kernel order blocks dim n y =
     map (\<lambda>block. reduce_loop (order block) (dim div 2) (block_loads dim n y block) ! 0) [0..<blocks]"

section \<open>Host code\<close>

record CudaRunResult =
  cr_success :: bool
  cr_output :: "byte list"
  cr_integrity_hex :: string
  cr_device_name :: string
  cr_error_message :: string
  cr_kernel_millis :: double
  cr_bytes_transferred :: u64
  cr_elements :: u64

definition default_cuda_result :: CudaRunResult where
  "default_cuda_result = \<lparr>cr_success = False, cr_output = [], cr_integrity_hex = [], cr_device_name = [],
     cr_error_message = [], cr_kernel_millis = 0, cr_bytes_transferred = 0, cr_elements = 0\<rparr>"

record CudaEnv =
  ce_guard :: "string option"
  ce_alloc_x :: "string option"
  ce_alloc_y :: "string option"
  ce_alloc_partial :: "string option"
  ce_stream_ok :: bool
  ce_copy_in :: "string option"
  ce_launch_transform :: "string option"
  ce_copy_out :: "string option"
  ce_launch_reduce :: "string option"
  ce_sync :: "string option"
  ce_copy_partial :: "string option"
  ce_frees :: bool
  ce_memory :: "nat \<Rightarrow> u32"
  ce_transform_order :: "nat list"
  ce_reduce_order :: "nat \<Rightarrow> nat \<Rightarrow> nat list"
  ce_micros :: int

definition f64_of_int :: "int \<Rightarrow> double" where
  "f64_of_int i = (if i < 0 then f64_neg (f64_of_nat (nat (- i))) else f64_of_nat (nat i))"

text \<open>The counter behind \<open>cuda_outstanding_allocations\<close>: up for every allocation, down for every free that succeeds.\<close>

definition cuda_alloc_checked :: "string option \<Rightarrow> string \<Rightarrow> int \<Rightarrow> string option \<times> int" where
  "cuda_alloc_checked outcome what allocs =
     (case outcome of Some e \<Rightarrow> (Some (what @ '': '' @ e), allocs) | None \<Rightarrow> (None, allocs + 1))"

definition cuda_free_checked :: "bool \<Rightarrow> int \<Rightarrow> int" where
  "cuda_free_checked ok allocs = (if ok then allocs - 1 else allocs)"

definition kThreads :: nat where
  "kThreads = 256"

definition cuda_n :: "ComputeTask \<Rightarrow> u64" where
  "cuda_n task = (if 4000000 < kernel_n task then 4000000 else kernel_n task)"

definition cuda_blocks :: "u64 \<Rightarrow> nat" where
  "cuda_blocks n = (let blocks = (unat n + kThreads - 1) div kThreads in if 4096 < blocks then 4096 else blocks)"

definition first_error :: "string option list \<Rightarrow> string option" where
  "first_error es = (case dropWhile (\<lambda>e. e = None) es of [] \<Rightarrow> None | e # _ \<Rightarrow> e)"

text \<open>The device output as read back, and the digest the host computes from it.\<close>

definition device_output :: "CudaEnv \<Rightarrow> ComputeTask \<Rightarrow> u32 list" where
  "device_output env task =
     (let n = unat (cuda_n task) in
      vec_transform_kernel (ce_transform_order env) n (low32 (t_kernel_param_a task)) (low32 (t_kernel_param_b task))
        (low32 (t_seed task)) (map (ce_memory env) [0..<n]))"

definition host_digest :: "int \<Rightarrow> CudaEnv \<Rightarrow> ComputeTask \<Rightarrow> CudaRunResult \<Rightarrow> CudaRunResult" where
  "host_digest device_ordinal env task r =
     (let n = cuda_n task; h_y = device_output env task;
          h_part = reduce_checksum_kernel (ce_reduce_order env) (cuda_blocks n) kThreads (unat n) h_y;
          dev_sum = foldl (+) 0 h_part;
          acc_lo = foldl (\<lambda>acc y. acc + ucast y) 0 h_y;
          acc_hi = foldl (\<lambda>acc y. acc XOR push_bit 1 (ucast y)) 0 h_y
      in if dev_sum \<noteq> acc_lo then r\<lparr>cr_success := False, cr_error_message := ''device reduction mismatch''\<rparr>
         else let out = acc_digest (low32 (t_seed task)) n acc_lo acc_hi in
           r\<lparr>cr_output := out, cr_integrity_hex := the (hex_digest out), cr_success := True, cr_elements := n,
             cr_device_name := ''cuda:'' @ int_to_string device_ordinal\<rparr>)"

definition cuda_failed :: "string \<Rightarrow> CudaRunResult" where
  "cuda_failed e = default_cuda_result\<lparr>cr_error_message := e\<rparr>"

definition cuda_launches :: "int \<Rightarrow> CudaEnv \<Rightarrow> ComputeTask \<Rightarrow> CudaRunResult" where
  "cuda_launches device_ordinal env task =
     (let r = default_cuda_result\<lparr>cr_bytes_transferred := cuda_n task * 4 * 2\<rparr>;
          r' = (case first_error [ce_copy_in env, ce_launch_transform env, ce_copy_out env, ce_launch_reduce env,
                  ce_sync env, ce_copy_partial env] of
                  Some e \<Rightarrow> r\<lparr>cr_success := False, cr_error_message := ''cuda: '' @ e\<rparr>
                | None \<Rightarrow> host_digest device_ordinal env task r)
      in r'\<lparr>cr_kernel_millis := f64_of_int (ce_micros env) / f64_of_nat 1000\<rparr>)"

definition cuda_run_vector_transform :: "int \<Rightarrow> ComputeTask \<Rightarrow> CudaEnv \<Rightarrow> int \<Rightarrow> CudaRunResult \<times> int" where
  "cuda_run_vector_transform device_ordinal task env allocs =
     (let free = cuda_free_checked (ce_frees env) in
      case ce_guard env of
        Some e \<Rightarrow> (cuda_failed (''cudaSetDevice: '' @ e), allocs)
      | None \<Rightarrow>
        (case cuda_alloc_checked (ce_alloc_x env) ''cudaMalloc x'' allocs of
           (Some e, allocs1) \<Rightarrow> (cuda_failed e, allocs1)
         | (None, allocs1) \<Rightarrow>
           (case cuda_alloc_checked (ce_alloc_y env) ''cudaMalloc y'' allocs1 of
              (Some e, allocs2) \<Rightarrow> (cuda_failed e, free allocs2)
            | (None, allocs2) \<Rightarrow>
              (case cuda_alloc_checked (ce_alloc_partial env) ''cudaMalloc partial'' allocs2 of
                 (Some e, allocs3) \<Rightarrow> (cuda_failed e, free (free allocs3))
               | (None, allocs3) \<Rightarrow>
                 if \<not> ce_stream_ok env then (cuda_failed ''cudaStreamCreate failed'', free (free (free allocs3)))
                 else (cuda_launches device_ordinal env task, free (free (free allocs3)))))))"

section \<open>The device agrees with any schedule\<close>

definition schedule :: "nat \<Rightarrow> nat list \<Rightarrow> bool" where
  "schedule k ts = (distinct ts \<and> set ts = {..<k})"

lemma vec_transform_kernel_nth:
  assumes "length y = n" "i < n"
  shows "vec_transform_kernel ts n a b seed y ! i = (if i \<in> set ts then device_element a b seed i else y ! i)"
  using assms unfolding vec_transform_kernel_def
  by (induction ts arbitrary: y) (auto simp: vec_transform_thread_def nth_list_update)

lemma length_vec_transform_kernel [simp]: "length (vec_transform_kernel ts n a b seed y) = length y"
  unfolding vec_transform_kernel_def by (induction ts arbitrary: y) (auto simp: vec_transform_thread_def)

lemma vec_transform_kernel_eq:
  assumes "schedule k ts" "length y = n"
  shows "vec_transform_kernel ts n a b seed y =
    map (\<lambda>i. if i < k then device_element a b seed i else y ! i) [0..<n]"
  using assms by (intro nth_equalityI) (simp_all add: vec_transform_kernel_nth schedule_def)

lemma reduce_phase_nth:
  assumes "distinct ts" "2 * s \<le> length sh"
  shows "length (fold (reduce_thread s) ts sh) = length sh \<and>
    (\<forall>j < length sh. fold (reduce_thread s) ts sh ! j = (if j < s \<and> j \<in> set ts then sh ! j + sh ! (j + s) else sh ! j))"
  using assms
proof (induction ts arbitrary: sh)
  case (Cons t ts)
  let ?sh = "reduce_thread s t sh"
  have len: "length ?sh = length sh" by (simp add: reduce_thread_def)
  have nth: "?sh ! j = (if j = t \<and> t < s then sh ! t + sh ! (t + s) else sh ! j)" if "j < length sh" for j
    using that by (simp add: reduce_thread_def nth_list_update)
  have IH: "length (fold (reduce_thread s) ts ?sh) = length sh"
    "\<And>j. j < length sh \<Longrightarrow> fold (reduce_thread s) ts ?sh ! j =
       (if j < s \<and> j \<in> set ts then ?sh ! j + ?sh ! (j + s) else ?sh ! j)"
    using Cons.IH [of ?sh] Cons.prems len by simp_all
  have "fold (reduce_thread s) ts ?sh ! j = (if j < s \<and> (j = t \<or> j \<in> set ts) then sh ! j + sh ! (j + s) else sh ! j)"
    if "j < length sh" for j
    using that IH(2) [OF that] Cons.prems nth [OF that] nth [of "j + s"] by auto
  with IH(1) show ?case by simp
qed simp

lemma take_sum: "k \<le> length xs \<Longrightarrow> sum_list (take k xs) = (\<Sum>j<k. xs ! j :: u64)"
  by (simp add: sum_list_sum_nth atLeast0LessThan min_absorb2)

lemma sum_halves: "(\<Sum>j<h. f j + f (j + h)) = (\<Sum>j<2 * h. f (j :: nat) :: u64)"
proof -
  have "(\<Sum>j<2 * h. f j) = sum f {..<h} + sum f {h..<2 * h}"
    by (subst sum.union_disjoint [symmetric]) (auto intro: sum.cong)
  also have "sum f {h..<2 * h} = (\<Sum>j<h. f (j + h))"
    using sum.shift_bounds_nat_ivl [of f 0 h h] by (simp add: atLeast0LessThan mult_2)
  finally show ?thesis by (simp add: sum.distrib)
qed

lemma reduce_loop_sum:
  assumes "\<And>s. distinct (order s)" "\<And>s. {..<dim} \<subseteq> set (order s)" "2 ^ k \<le> length sh" "2 ^ k \<le> dim"
  shows "reduce_loop order (2 ^ k div 2) sh ! 0 = sum_list (take (2 ^ k) sh)"
  using assms(3,4)
proof (induction k arbitrary: sh)
  case 0
  then show ?case by (cases sh) (simp_all add: reduce_loop.simps)
next
  case (Suc k)
  let ?s = "2 ^ k :: nat" and ?sh = "fold (reduce_thread (2 ^ k)) (order (2 ^ k)) sh"
  have phase: "length ?sh = length sh" "\<And>j. j < length sh \<Longrightarrow> ?sh ! j =
      (if j < ?s \<and> j \<in> set (order ?s) then sh ! j + sh ! (j + ?s) else sh ! j)"
    using reduce_phase_nth [OF assms(1), of ?s sh] Suc.prems by simp_all
  have "reduce_loop order (2 ^ Suc k div 2) sh ! 0 = reduce_loop order (?s div 2) ?sh ! 0"
    by (subst reduce_loop.simps) simp
  also have "\<dots> = sum_list (take ?s ?sh)" using Suc.IH [of ?sh] phase(1) Suc.prems by simp
  also have "\<dots> = (\<Sum>j<?s. ?sh ! j)" using phase(1) Suc.prems by (intro take_sum) simp
  also have "\<dots> = (\<Sum>j<?s. sh ! j + sh ! (j + ?s))"
    using phase(2) Suc.prems assms(2) by (intro sum.cong) (auto simp: subset_iff)
  also have "\<dots> = sum_list (take (2 ^ Suc k) sh)" using Suc.prems by (simp add: sum_halves take_sum)
  finally show ?case .
qed

lemma reduce_checksum_kernel_sum:
  assumes "\<And>block s. schedule kThreads (order block s)" "length y = n"
  shows "sum_list (reduce_checksum_kernel order blocks kThreads n y) =
    (\<Sum>i<blocks * kThreads. if i < n then ucast (y ! i) else 0)"
proof -
  let ?g = "\<lambda>i. if i < n then ucast (y ! i) else 0 :: u64"
  have block: "reduce_loop (order b) (kThreads div 2) (block_loads kThreads n y b) ! 0 =
      sum ?g {b * kThreads..<b * kThreads + kThreads}" for b
  proof -
    have "reduce_loop (order b) (kThreads div 2) (block_loads kThreads n y b) ! 0 =
        sum_list (take (2 ^ 8) (block_loads kThreads n y b))"
      using reduce_loop_sum [of "order b" kThreads 8 "block_loads kThreads n y b"] assms(1)
      by (simp add: schedule_def kThreads_def block_loads_def)
    also have "\<dots> = (\<Sum>t<kThreads. ?g (b * kThreads + t))"
      unfolding block_loads_def kThreads_def Let_def
      by (simp add: interv_sum_list_conv_sum_set_nat atLeast0LessThan)
    also have "\<dots> = sum ?g {b * kThreads..<b * kThreads + kThreads}"
      using sum.shift_bounds_nat_ivl [of ?g 0 "b * kThreads" kThreads] by (simp add: atLeast0LessThan add.commute cong: if_cong)
    finally show ?thesis .
  qed
  show ?thesis
    using sum.nat_group [of ?g kThreads blocks]
    by (simp add: reduce_checksum_kernel_def block interv_sum_list_conv_sum_set_nat atLeast0LessThan)
qed

section \<open>Elements\<close>

lemma wmix_u32_wmix [simp]: "wmix_u32 = wmix"
  by (rule ext) (simp add: wmix_u32_def wmix_def)

lemma u32_less: "unat (a :: u32) < 4294967296"
  using unsigned_less [of a, where 'a = nat] by simp

lemma unat_ucast_u64 [simp]: "unat (ucast (a :: u32) :: u64) = unat a"
  using u32_less [of a] by (simp add: unsigned_ucast_eq take_bit_nat_eq_self_iff)

lemma unat_ucast_u32: "unat (v :: u64) < 4294967296 \<Longrightarrow> unat (ucast v :: u32) = unat v"
  by (simp add: unsigned_ucast_eq take_bit_nat_eq_self_iff)

lemma u32_mult_le: "unat (a :: u32) * unat (b :: u32) \<le> 18446744065119617025"
  using mult_le_mono [of "unat a" 4294967295 "unat b" 4294967295] u32_less [of a] u32_less [of b] by simp

lemma unat_mul_mod:
  assumes "0 < unat m"
  shows "unat (mul_mod a b m) = unat a * unat b mod unat m"
proof -
  have prod: "unat ((ucast a :: u64) * ucast b mod ucast m) = unat a * unat b mod unat m"
    using u32_mult_le [of a b] by (simp add: unat_mod_distrib unat_word_ariths)
  moreover have "unat a * unat b mod unat m < 4294967296"
    using mod_less_divisor [OF assms, of "unat a * unat b"] u32_less [of m] by linarith
  ultimately show ?thesis unfolding mul_mod_def by (simp only: unat_ucast_u32)
qed

definition no_wrap :: "u32 \<Rightarrow> u32 \<Rightarrow> u32 \<Rightarrow> nat \<Rightarrow> bool" where
  "no_wrap a b seed i = (unat (mul_mod (wmix (of_nat i + seed)) a kMod) + unat b < 2 ^ 32)"

lemma unat_transform_element:
  "unat (transform_element a b seed i) =
     (unat (mul_mod (wmix (of_nat i + seed)) a kMod) + unat b) mod 2 ^ 32 mod unat kMod"
  by (simp add: transform_element_def kMod_def unat_mod_distrib unat_word_ariths)

lemma unat_device_element:
  "unat (device_element a b seed i) = (unat (mul_mod (wmix (of_nat i + seed)) a kMod) + unat b) mod unat kMod"
proof -
  let ?x = "wmix (of_nat i + seed)"
  have "unat ((ucast ?x :: u64) * ucast a + ucast b) = unat ?x * unat a + unat b"
    using u32_mult_le [of ?x a] u32_less [of b] by (simp add: unat_word_ariths)
  then have prod: "unat (((ucast ?x :: u64) * ucast a + ucast b) mod ucast kMod) = (unat ?x * unat a + unat b) mod unat kMod"
    by (simp add: unat_mod_distrib)
  moreover have "(unat ?x * unat a + unat b) mod unat kMod < 4294967296"
    using mod_less_divisor [of "unat kMod" "unat ?x * unat a + unat b"] by (simp add: kMod_def)
  ultimately have "unat (device_element a b seed i) = (unat ?x * unat a + unat b) mod unat kMod"
    unfolding device_element_def Let_def wmix_u32_wmix by (simp only: unat_ucast_u32)
  then show ?thesis by (simp add: unat_mul_mod kMod_def mod_add_left_eq)
qed

text \<open>
  The two element functions agree exactly where the 32-bit sum of the CPU code does not wrap around:
  a wrapped sum is off by \<open>2 ^ 32 mod kMod = 5\<close>.
\<close>

lemma element_agrees_iff: "transform_element a b seed i = device_element a b seed i \<longleftrightarrow> no_wrap a b seed i"
proof -
  let ?p = "unat (mul_mod (wmix (of_nat i + seed)) a kMod)" and ?M = "4294967291 :: nat"
  have p: "?p < ?M" using mod_less_divisor [of ?M] by (simp add: unat_mul_mod kMod_def)
  have b: "unat b < 4294967296" using unsigned_less [of b, where 'a = nat] by simp
  have "(?p + unat b) mod 4294967296 mod ?M = (?p + unat b) mod ?M \<longleftrightarrow> ?p + unat b < 4294967296"
  proof
    assume eq: "(?p + unat b) mod 4294967296 mod ?M = (?p + unat b) mod ?M"
    show "?p + unat b < 4294967296"
    proof (rule ccontr)
      assume "\<not> ?p + unat b < 4294967296"
      then obtain q where q: "?p + unat b = q + 4294967296" by (metis add.commute le_Suc_ex not_less)
      with p b have "q < 4294967291" by linarith
      then have "q mod 4294967296 mod ?M = q" by simp
      moreover have "(q + 4294967296) mod ?M = (q + 5) mod ?M"
        using mod_add_self2 [of "q + 5" ?M] by (simp add: add.commute)
      ultimately have "(q + 5) mod ?M = q" using eq unfolding q by simp
      with \<open>q < 4294967291\<close> show False by (cases "q + 5 < ?M") (simp_all add: le_mod_geq)
    qed
  qed simp
  moreover have "transform_element a b seed i = device_element a b seed i \<longleftrightarrow>
      unat (transform_element a b seed i) = unat (device_element a b seed i)"
    using word_eq_iff_unsigned by blast
  ultimately show ?thesis by (simp add: unat_transform_element unat_device_element no_wrap_def kMod_def)
qed

section \<open>The host function\<close>

definition cuda_calls_ok :: "CudaEnv \<Rightarrow> bool" where
  "cuda_calls_ok env = (ce_guard env = None \<and> ce_alloc_x env = None \<and> ce_alloc_y env = None \<and>
     ce_alloc_partial env = None \<and> ce_stream_ok env \<and> ce_copy_in env = None \<and> ce_launch_transform env = None \<and>
     ce_copy_out env = None \<and> ce_launch_reduce env = None \<and> ce_sync env = None \<and> ce_copy_partial env = None)"

text \<open>The device runs every thread of the grid once, and every thread of a block once between two barriers.\<close>

definition schedules_ok :: "CudaEnv \<Rightarrow> ComputeTask \<Rightarrow> bool" where
  "schedules_ok env task = (schedule (cuda_blocks (cuda_n task) * kThreads) (ce_transform_order env) \<and>
     (\<forall>block s. schedule kThreads (ce_reduce_order env block s)))"

lemma cuda_run_ok:
  assumes "cuda_calls_ok env"
  shows "fst (cuda_run_vector_transform ord task env allocs) = cuda_launches ord env task"
    "cuda_launches ord env task = (host_digest ord env task (default_cuda_result\<lparr>cr_bytes_transferred := cuda_n task * 4 * 2\<rparr>))
      \<lparr>cr_kernel_millis := f64_of_int (ce_micros env) / f64_of_nat 1000\<rparr>"
  using assms
  by (simp_all add: cuda_calls_ok_def cuda_run_vector_transform_def cuda_launches_def cuda_alloc_checked_def first_error_def Let_def)

lemma foldl_plus: "foldl (+) a xs = a + sum_list (xs :: u64 list)"
  by (induction xs arbitrary: a) (simp_all add: algebra_simps)

lemma foldl_plus_map: "foldl (\<lambda>acc y. acc + f y) a ys = a + sum_list (map f ys :: u64 list)"
  by (induction ys arbitrary: a) (simp_all add: algebra_simps)

definition covered :: "ComputeTask \<Rightarrow> nat" where
  "covered task = cuda_blocks (cuda_n task) * kThreads"

lemma covered_small: "unat (cuda_n task) \<le> 1048576 \<Longrightarrow> unat (cuda_n task) \<le> covered task"
  by (auto simp: covered_def cuda_blocks_def kThreads_def Let_def)

lemma covered_large: "1048576 < unat (cuda_n task) \<Longrightarrow> covered task = 1048576"
  by (auto simp: covered_def cuda_blocks_def kThreads_def Let_def)

lemma device_output_eq:
  assumes "schedules_ok env task"
  shows "device_output env task =
    map (\<lambda>i. if i < covered task
             then device_element (low32 (t_kernel_param_a task)) (low32 (t_kernel_param_b task)) (low32 (t_seed task)) i
             else ce_memory env i) [0..<unat (cuda_n task)]"
  using assms unfolding device_output_def Let_def schedules_ok_def
  by (subst vec_transform_kernel_eq) (auto simp: covered_def)

lemma device_sum:
  assumes "schedules_ok env task"
  shows "sum_list (reduce_checksum_kernel (ce_reduce_order env) (cuda_blocks (cuda_n task)) kThreads (unat (cuda_n task)) (device_output env task)) =
    (\<Sum>i<min (covered task) (unat (cuda_n task)). ucast (device_output env task ! i))"
proof -
  have "{..<covered task} \<inter> {i. i < unat (cuda_n task)} = {..<min (covered task) (unat (cuda_n task))}" by auto
  moreover have "length (device_output env task) = unat (cuda_n task)" using assms by (simp add: device_output_eq)
  ultimately show ?thesis using assms
    by (subst reduce_checksum_kernel_sum)
      (auto simp: schedules_ok_def covered_def sum.If_cases intro!: sum.cong)
qed

lemma host_sum: "sum_list (map ucast ys) = (\<Sum>i<length ys. ucast (ys ! i) :: u64)"
  by (simp add: sum_list_sum_nth atLeast0LessThan)

lemma vector_acc:
  "acc_lo (fold (vector_step a b seed) is acc) = foldl (\<lambda>s y. s + ucast y) (acc_lo acc) (map (transform_element a b seed) is)"
  "acc_hi (fold (vector_step a b seed) is acc) = foldl (\<lambda>s y. s XOR push_bit 1 (ucast y)) (acc_hi acc) (map (transform_element a b seed) is)"
  by (induction "is" arbitrary: acc) (simp_all add: vector_step_def Let_def)

text \<open>
  C11: the CUDA kernel computes what the CPU kernel computes. For at most \<open>2 ^ 20\<close> elements and
  parameters for which no 32-bit sum of the CPU loop wraps around, a run in which every CUDA call succeeds
  reports success with the same 16 bytes and the same checksum as the CPU kernel, for every order in which
  the device runs its threads and whatever fresh device memory contained.
\<close>

theorem cuda_matches_cpu:
  assumes "cuda_calls_ok env" "schedules_ok env task" "t_kernel task = KT_VectorTransform"
    "unat (kernel_n task) \<le> 1048576"
    "\<And>i. i < unat (kernel_n task) \<Longrightarrow> no_wrap (low32 (t_kernel_param_a task)) (low32 (t_kernel_param_b task)) (low32 (t_seed task)) i"
  shows "cr_success (fst (cuda_run_vector_transform ord task env allocs)) \<and>
    cr_output (fst (cuda_run_vector_transform ord task env allocs)) = wr_output (run_cpu_kernel task no_token) \<and>
    cr_integrity_hex (fst (cuda_run_vector_transform ord task env allocs)) = wr_checksum_hex (run_cpu_kernel task no_token)"
proof -
  let ?a = "low32 (t_kernel_param_a task)" and ?b = "low32 (t_kernel_param_b task)" and ?s = "low32 (t_seed task)"
  have n: "cuda_n task = kernel_n task" and small: "\<not> kMaxElements < kernel_n task"
    using assms(4) by (auto simp: cuda_n_def kMaxElements_def word_less_nat_alt)
  have out: "device_output env task = map (transform_element ?a ?b ?s) [0..<unat (kernel_n task)]"
    unfolding device_output_eq [OF assms(2)] n
    using covered_small [of task] assms(4,5) by (auto simp: n intro: element_agrees_iff [THEN iffD2, symmetric])
  have "min (covered task) (unat (kernel_n task)) = unat (kernel_n task)" using covered_small [of task] assms(4) by (simp add: n)
  then have sums: "sum_list (reduce_checksum_kernel (ce_reduce_order env) (cuda_blocks (cuda_n task)) kThreads (unat (cuda_n task))
      (device_output env task)) = sum_list (map ucast (device_output env task))"
    unfolding device_sum [OF assms(2)] host_sum by (simp add: n out)
  have cpu: "run_kernel task no_token = Some (Some (fold (vector_step ?a ?b ?s) [0..<unat (kernel_n task)] (acc_start 0)))"
    using assms(3) by (simp add: run_kernel_def Let_def kernel_loop_eq no_token_def)
  show ?thesis
    unfolding cuda_run_ok [OF assms(1)] run_cpu_kernel_def cpu Let_def
    using small sums
    by (simp add: host_digest_def Let_def foldl_plus foldl_plus_map n out default_workload_result_def vector_acc acc_start_def)
qed

definition sample_cuda_env :: CudaEnv where
  "sample_cuda_env =
     \<lparr>ce_guard = None, ce_alloc_x = None, ce_alloc_y = None, ce_alloc_partial = None, ce_stream_ok = True,
      ce_copy_in = None, ce_launch_transform = None, ce_copy_out = None, ce_launch_reduce = None, ce_sync = None,
      ce_copy_partial = None, ce_frees = True, ce_memory = (\<lambda>i. 0xDEADBEEF), ce_transform_order = rev [0..<256],
      ce_reduce_order = (\<lambda>block s. rev [0..<256]), ce_micros = 1500\<rparr>"

lemma sample_cuda_env_ok:
  "cuda_calls_ok sample_cuda_env" "unat (kernel_n task) = 2 \<Longrightarrow> schedules_ok sample_cuda_env task"
  by (auto simp: cuda_calls_ok_def sample_cuda_env_def schedules_ok_def schedule_def cuda_n_def cuda_blocks_def kThreads_def
      word_less_nat_alt)

lemma sample_kernel_n: "unat (kernel_n sample_kernel_task) = 2"
  by (simp add: kernel_n_def sample_kernel_task_def)

theorem cuda_matches_cpu_witness:
  "cr_success (fst (cuda_run_vector_transform 0 sample_kernel_task sample_cuda_env 0)) \<and>
   cr_output (fst (cuda_run_vector_transform 0 sample_kernel_task sample_cuda_env 0)) =
     wr_output (run_cpu_kernel sample_kernel_task no_token)"
proof -
  have "no_wrap 31 17 7 0" "no_wrap 31 17 7 1"
    by (simp_all add: no_wrap_def unat_mul_mod kMod_def wmix_def Let_def)
  then have "no_wrap 31 17 7 i" if "i < 2" for i
    using that by (cases i) (auto simp: less_Suc_eq numeral_2_eq_2)
  moreover have "low32 (t_kernel_param_a sample_kernel_task) = 31" "low32 (t_kernel_param_b sample_kernel_task) = 17"
    "low32 (t_seed sample_kernel_task) = 7" "t_kernel sample_kernel_task = KT_VectorTransform"
    by (simp_all add: low32_def sample_kernel_task_def)
  ultimately show ?thesis
    using cuda_matches_cpu [OF sample_cuda_env_ok(1) sample_cuda_env_ok(2) [OF sample_kernel_n], of 0 0]
    by (simp add: sample_kernel_n)
qed

text \<open>
  The restriction on the parameters is needed. For one element with \<open>a = 1\<close>, \<open>b = 2 ^ 32 - 1\<close> and
  seed 7 both kernels succeed and report different digests, although the results are meant to be
  byte-exact across CPU and GPU: the CPU code adds \<open>b\<close> in 32 bits, the device code in 64.
\<close>

definition wrapping_task :: ComputeTask where
  "wrapping_task = default_task\<lparr>t_kernel := KT_VectorTransform, t_kernel_param_n := 1, t_kernel_param_a := 1,
     t_kernel_param_b := 0xFFFFFFFF, t_seed := 7\<rparr>"

lemma wrapping_elements:
  "transform_element 1 0xFFFFFFFF 7 0 = 2492178917" "device_element 1 0xFFFFFFFF 7 0 = 2492178922"
proof -
  have "wmix 7 = 2492178918" by (simp add: wmix_def Let_def)
  then show "transform_element 1 0xFFFFFFFF 7 0 = 2492178917" "device_element 1 0xFFFFFFFF 7 0 = 2492178922"
    by (simp_all add: transform_element_def mul_mod_def device_element_def kMod_def)
qed

lemma wrapping_digests:
  "acc_digest 7 1 2492178917 (push_bit 1 2492178917) \<noteq> acc_digest 7 1 2492178922 (push_bit 1 2492178922)"
proof -
  have "bytes_hash (rev (put_u64 2492178917) @ rev (put_u64 (push_bit 1 2492178917))) 7 = 0x397c86b459d05f84"
    "bytes_hash (rev (put_u64 2492178922) @ rev (put_u64 (push_bit 1 2492178922))) 7 = 0x23741834ab9d24fe"
    by (simp_all add: bytes_hash_def mix64_def put_u64_def upt_rec)
  then show ?thesis by (simp add: acc_digest_def put_u64_def upt_rec Let_def)
qed

theorem cuda_differs_from_cpu:
  "wr_success (run_cpu_kernel wrapping_task no_token) \<and>
   cr_success (fst (cuda_run_vector_transform 0 wrapping_task sample_cuda_env 0)) \<and>
   cr_output (fst (cuda_run_vector_transform 0 wrapping_task sample_cuda_env 0)) \<noteq>
     wr_output (run_cpu_kernel wrapping_task no_token)"
proof -
  have params: "low32 (t_kernel_param_a wrapping_task) = 1" "low32 (t_kernel_param_b wrapping_task) = 0xFFFFFFFF"
    "low32 (t_seed wrapping_task) = 7" "kernel_n wrapping_task = 1" "cuda_n wrapping_task = 1" "t_kernel wrapping_task = KT_VectorTransform"
    by (simp_all add: low32_def wrapping_task_def kernel_n_def cuda_n_def)
  have sched: "schedules_ok sample_cuda_env wrapping_task"
    by (auto simp: schedules_ok_def schedule_def params cuda_blocks_def kThreads_def sample_cuda_env_def)
  have cov: "covered wrapping_task = 256" by (simp add: covered_def params cuda_blocks_def kThreads_def)
  have out: "device_output sample_cuda_env wrapping_task = [device_element 1 0xFFFFFFFF 7 0]"
    by (simp add: device_output_eq [OF sched] params cov)
  show ?thesis
    using wrapping_digests device_sum [OF sched]
    by (simp add: wrapping_elements cuda_run_ok [OF sample_cuda_env_ok(1)] host_digest_def Let_def foldl_plus params out cov
        run_cpu_kernel_def run_kernel_def vector_step_def acc_start_def no_token_def kMaxElements_def default_workload_result_def)
qed

text \<open>
  Device allocations do not leak. When frees succeed, the number of outstanding allocations after a run is the
  number before it, on every error path and whatever the launches did.
\<close>

theorem cuda_allocations_balanced:
  assumes "ce_frees env"
  shows "snd (cuda_run_vector_transform ord task env allocs) = allocs"
  using assms by (simp add: cuda_run_vector_transform_def cuda_alloc_checked_def cuda_free_checked_def Let_def split: option.splits)

theorem cuda_allocations_balanced_witness:
  "snd (cuda_run_vector_transform 0 sample_kernel_task (sample_cuda_env\<lparr>ce_alloc_partial := Some ''out of memory''\<rparr>) 3) = 3"
  by (rule cuda_allocations_balanced) (simp add: sample_cuda_env_def)

lemma ucast_sum_zero:
  assumes "card A < 2 ^ 32" "finite A"
  shows "(\<Sum>i\<in>A. ucast (f i :: u32) :: u64) = 0 \<longleftrightarrow> (\<forall>i\<in>A. f i = 0)"
proof -
  have "(\<Sum>i\<in>A. unat (f i)) \<le> card A * 4294967295"
    using sum_bounded_above [of A "\<lambda>i. unat (f i)" 4294967295] u32_less
    by (simp add: less_Suc_eq_le [symmetric])
  also have "\<dots> < 2 ^ 64" using assms(1) by simp
  finally have bound: "(\<Sum>i\<in>A. unat (f i)) < 2 ^ 64" .
  have zero: "(of_nat N :: u64) = 0 \<longleftrightarrow> N = 0" if "N < 2 ^ 64" for N
    using that by (auto simp: word_of_nat_eq_0_iff dest: dvd_imp_le)
  have "(\<Sum>i\<in>A. ucast (f i) :: u64) = of_nat (\<Sum>i\<in>A. unat (f i))"
    by (simp add: unsigned_ucast_eq [symmetric])
  then have "(\<Sum>i\<in>A. ucast (f i) :: u64) = 0 \<longleftrightarrow> (\<Sum>i\<in>A. unat (f i)) = 0"
    using zero [OF bound] by (simp only:)
  also have "\<dots> \<longleftrightarrow> (\<forall>i\<in>A. f i = 0)" using assms(2) by (simp add: unat_eq_zero)
  finally show ?thesis .
qed

text \<open>
  C40: with more than \<open>2 ^ 20\<close> elements the grid of at most 4096 blocks of 256 threads does not reach
  the elements behind that bound, and the digest is taken over device memory nobody wrote. Even when every CUDA call succeeds
  the run is reported as a reduction mismatch, unless that memory happens to be all zero.
\<close>

theorem cuda_large_input_fails:
  assumes "cuda_calls_ok env" "schedules_ok env task" "1048576 < unat (kernel_n task)"
  shows "cr_success (fst (cuda_run_vector_transform ord task env allocs)) \<longleftrightarrow>
    (\<forall>i. 1048576 \<le> i \<and> i < min (unat (kernel_n task)) 4000000 \<longrightarrow> ce_memory env i = 0)"
proof -
  have n: "unat (cuda_n task) = min (unat (kernel_n task)) 4000000"
    by (auto simp: cuda_n_def word_less_nat_alt)
  let ?N = "min (unat (kernel_n task)) 4000000"
  have cov: "covered task = 1048576" using assms(3) by (intro covered_large) (simp add: n)
  have len: "length (device_output env task) = ?N" by (simp add: device_output_eq [OF assms(2)] n)
  have tail: "(\<Sum>i<?N. ucast (device_output env task ! i) :: u64) =
      (\<Sum>i<1048576. ucast (device_output env task ! i)) + (\<Sum>i\<in>{1048576..<?N}. ucast (ce_memory env i))"
  proof -
    have "{..<?N} = {..<1048576} \<union> {1048576..<?N}" using assms(3) by auto
    then show ?thesis
      by (simp add: sum.union_disjoint ivl_disj_int(2) device_output_eq [OF assms(2)] n cov)
  qed
  have "cr_success (fst (cuda_run_vector_transform ord task env allocs)) \<longleftrightarrow>
      (\<Sum>i<1048576. ucast (device_output env task ! i) :: u64) = (\<Sum>i<?N. ucast (device_output env task ! i))"
    using assms(3) device_sum [OF assms(2)]
    by (simp add: cuda_run_ok [OF assms(1)] host_digest_def Let_def foldl_plus foldl_plus_map host_sum len cov n)
  also have "\<dots> \<longleftrightarrow> (\<Sum>i\<in>{1048576..<?N}. ucast (ce_memory env i) :: u64) = 0" unfolding tail by simp
  also have "\<dots> \<longleftrightarrow> (\<forall>i\<in>{1048576..<?N}. ce_memory env i = 0)" by (rule ucast_sum_zero) simp_all
  finally show ?thesis by (simp add: Ball_def)
qed

theorem cuda_large_input_fails_witness:
  "\<not> cr_success (fst (cuda_run_vector_transform 0 (sample_kernel_task\<lparr>t_kernel_param_n := 2000000\<rparr>)
       (sample_cuda_env\<lparr>ce_transform_order := [0..<1048576]\<rparr>) 0))"
proof -
  let ?t = "sample_kernel_task\<lparr>t_kernel_param_n := 2000000\<rparr>" and ?e = "sample_cuda_env\<lparr>ce_transform_order := [0..<1048576]\<rparr>"
  have n: "kernel_n ?t = 2000000" by (simp add: kernel_n_def)
  have "cuda_calls_ok ?e" using sample_cuda_env_ok(1) by (simp add: cuda_calls_ok_def)
  moreover have "schedules_ok ?e ?t"
    by (auto simp: schedules_ok_def schedule_def cuda_n_def n cuda_blocks_def kThreads_def sample_cuda_env_def)
  ultimately show ?thesis
    using cuda_large_input_fails [of ?e ?t 0 0] by (auto simp: n sample_cuda_env_def intro: exI [of _ 1048576])
qed

end
