(* ===== verification/Executor.thy ===== *)
theory Executor
  imports Cuda_Kernel Resource "HOL-Library.Multiset"
begin

text \<open>
  The executor backends (\<open>executor/executor.h\<close>, \<open>executor/cpu_executor.cpp\<close> and the backend class of
  \<open>executor/cuda_executor.cu\<close>): a bounded queue, a fixed number of worker threads and counters. The
  two classes are the same program with different messages, limits and kernels; the operations below take the backend kind
  from the state.

  \<^item> A cancellation token shared by several threads is a handle; the set of handles on which \<open>request\<close>
    was called is explicit. Requests are never taken back.
  \<^item> Every worker thread has a program counter. A step of the pool is one critical section or one
    piece of \<open>run_one\<close> of one worker, or one call from outside, in any interleaving (\<open>pool_step\<close>).
  \<^item> The callbacks \<open>on_start\<close> and \<open>on_complete\<close> are recorded in the order they are made; a ghost list records the accepted work.
\<close>

section \<open>Work and outcomes\<close>

type_synonym token = nat

type_synonym requests = "token set"

record AttemptOutcome =
  ao_success :: bool
  ao_state :: AttemptState
  ao_failure_kind :: FailureKind
  ao_failure_reason :: string
  ao_output_bytes :: "byte list"
  ao_output_integrity :: string
  ao_duration_ms :: double
  ao_bytes_transferred :: u64
  ao_device :: string
  ao_notes :: "string list"

definition default_outcome :: AttemptOutcome where
  "default_outcome = \<lparr>ao_success = False, ao_state = AS_Failed, ao_failure_kind = FK_None, ao_failure_reason = [],
     ao_output_bytes = [], ao_output_integrity = [], ao_duration_ms = 0, ao_bytes_transferred = 0, ao_device = [], ao_notes = []\<rparr>"

record AttemptWork =
  aw_task :: ComputeTask
  aw_attempt_id :: ExecutionAttemptId
  aw_node_id :: NodeId
  aw_reservation_id :: ReservationId
  aw_coordinator_epoch :: CoordinatorEpoch
  aw_token :: token
  aw_enqueued_at_ms :: i64

record ExecutorRuntimeStats =
  xs_total_attempts :: u64
  xs_succeeded :: u64
  xs_failed :: u64
  xs_active :: u32
  xs_queued :: u32
  xs_max_slots :: u32
  xs_allocations_outstanding :: u64

definition default_stats :: ExecutorRuntimeStats where
  "default_stats = \<lparr>xs_total_attempts = 0, xs_succeeded = 0, xs_failed = 0, xs_active = 0, xs_queued = 0, xs_max_slots = 0,
     xs_allocations_outstanding = 0\<rparr>"

section \<open>The backends\<close>

datatype backend = BK_Cpu | BK_Cuda

datatype worker =
    W_Idle
  | W_Taken AttemptWork
  | W_Starting AttemptWork
  | W_Running AttemptWork bool
  | W_Reported AttemptWork
  | W_Exited

datatype callback =
    OnStart AttemptWork
  | OnComplete AttemptWork AttemptOutcome

record Executor =
  x_kind :: backend
  x_slots :: i32
  x_queue_limit :: i32
  x_device_ordinal :: i32
  x_available :: bool
  x_device_name :: string
  x_major :: i32
  x_minor :: i32
  x_device_memory_bytes :: u64
  x_stopping :: bool
  x_active :: i64
  x_total :: i64
  x_succeeded :: i64
  x_failed :: i64
  x_queue :: "AttemptWork list"
  x_active_tokens :: "(ExecutionAttemptId, token) omap"
  x_workers :: "worker list"
  x_calls :: "callback list"
  x_accepted :: "AttemptWork list"

definition cpu_executor :: "i32 \<Rightarrow> Executor" where
  "cpu_executor worker_slots =
     (let motors = (if 0 < sint worker_slots then worker_slots else 1) in
      \<lparr>x_kind = BK_Cpu, x_slots = motors, x_queue_limit = 1024, x_device_ordinal = 0, x_available = 0 < sint motors, x_device_name = [],
       x_major = 0, x_minor = 0, x_device_memory_bytes = 0, x_stopping = False, x_active = 0, x_total = 0,
       x_succeeded = 0, x_failed = 0, x_queue = [], x_active_tokens = [], x_workers = replicate (nat (sint motors)) W_Idle,
       x_calls = [], x_accepted = []\<rparr>)"

text \<open>The constructor of the CUDA backend: the properties of the device, or \<open>None\<close> when it cannot be used.\<close>

definition cuda_executor :: "i32 \<Rightarrow> i32 \<Rightarrow> i32 \<Rightarrow> (string \<times> i32 \<times> i32 \<times> u64) option \<Rightarrow> Executor" where
  "cuda_executor device_ordinal slots queue_limit props =
     (let slots' = (if 0 < sint slots then slots else 1);
          x = \<lparr>x_kind = BK_Cuda, x_slots = slots', x_queue_limit = (if 0 < sint queue_limit then queue_limit else 64),
            x_device_ordinal = device_ordinal, x_available = False, x_device_name = [], x_major = 0, x_minor = 0,
            x_device_memory_bytes = 0, x_stopping = False, x_active = 0, x_total = 0, x_succeeded = 0, x_failed = 0,
            x_queue = [], x_active_tokens = [], x_workers = [], x_calls = [], x_accepted = []\<rparr>
      in case props of None \<Rightarrow> x
         | Some (name, major, minor, memory) \<Rightarrow>
             x\<lparr>x_device_name := name, x_major := major, x_minor := minor, x_device_memory_bytes := memory,
               x_available := True, x_workers := replicate (nat (sint slots')) W_Idle\<rparr>)"

definition cpu_capability :: "Executor \<Rightarrow> ExecutorCapability" where
  "cpu_capability x = default_executor\<lparr>ec_type := ET_Cpu, ec_name := ''cpu'', ec_slots := x_slots x, ec_vendor := ''generic'',
     ec_architecture := ''x64'', ec_device_name := ''cpu'', ec_relative_speed := 1, ec_healthy := True, ec_device_ids := [0]\<rparr>"

definition cuda_capability :: "Executor \<Rightarrow> ExecutorCapability" where
  "cuda_capability x = default_executor\<lparr>ec_type := ET_Cuda, ec_name := ''cuda'', ec_slots := x_slots x, ec_major := x_major x,
     ec_minor := x_minor x, ec_vendor := ''NVIDIA'', ec_architecture := x_device_name x, ec_device_name := x_device_name x,
     ec_device_memory_bytes := x_device_memory_bytes x, ec_device_ids := [x_device_ordinal x],
     ec_relative_speed := f64_of_nat 10, ec_healthy := x_available x\<rparr>"

definition cpu_can_execute :: "Executor \<Rightarrow> ComputeTask \<Rightarrow> bool" where
  "cpu_can_execute x task =
     (if t_required_executor task \<noteq> ET_Cpu \<and> t_required_executor task \<noteq> ET_Any then False
      else if \<not> is_supported_cpu_kernel (t_kernel task) then False
      else if x_slots x < t_required_cpu_slots task then False
      else True)"

definition cuda_can_execute :: "Executor \<Rightarrow> ComputeTask \<Rightarrow> bool" where
  "cuda_can_execute x task =
     (if \<not> x_available x then False
      else if t_required_executor task \<noteq> ET_Cuda then False
      else if t_kernel task \<noteq> KT_VectorTransform then False
      else if 0 < t_min_cc_major task \<and>
        (sint (x_major x) < t_min_cc_major task \<or>
         sint (x_major x) = t_min_cc_major task \<and> sint (x_minor x) < t_min_cc_minor task) then False
      else True)"

fun backend_name :: "backend \<Rightarrow> string" where
  "backend_name BK_Cpu = ''cpu''"
| "backend_name BK_Cuda = ''cuda''"

definition enqueue :: "AttemptWork \<Rightarrow> Executor \<Rightarrow> unit result \<times> Executor" where
  "enqueue work x =
     (if x_stopping x then (fail_with E_ShuttingDown (backend_name (x_kind x) @ '' executor shutting down''), x)
      else if nat (sint (x_queue_limit x)) \<le> length (x_queue x)
      then (fail_with E_NoCapacity (backend_name (x_kind x) @ '' executor queue full''), x)
      else (Inr (), x\<lparr>x_queue := x_queue x @ [work], x_accepted := x_accepted x @ [work]\<rparr>))"

definition exec_cancel_attempt :: "ExecutionAttemptId \<Rightarrow> Executor \<Rightarrow> requests \<Rightarrow> unit result \<times> requests" where
  "exec_cancel_attempt i x rq =
     (case find (\<lambda>w. aw_attempt_id w = i) (x_queue x) of
        Some w \<Rightarrow> (Inr (), insert (aw_token w) rq)
      | None \<Rightarrow>
        (case map_of (x_active_tokens x) i of
           Some tok \<Rightarrow> (Inr (), insert tok rq)
         | None \<Rightarrow> (fail_with E_TaskNotFound (''attempt not found in '' @ backend_name (x_kind x) @ '' executor''), rq)))"

definition has_active :: "ExecutionAttemptId \<Rightarrow> Executor \<Rightarrow> bool" where
  "has_active i x = (list_ex (\<lambda>w. aw_attempt_id w = i) (x_queue x) \<or> omap_has (x_active_tokens x) i)"

definition exec_stats :: "i64 \<Rightarrow> Executor \<Rightarrow> ExecutorRuntimeStats" where
  "exec_stats outstanding x = default_stats\<lparr>xs_total_attempts := x_total x, xs_succeeded := x_succeeded x, xs_failed := x_failed x,
     xs_active := ucast (x_active x), xs_max_slots := x_slots x,
     xs_allocations_outstanding := (case x_kind x of BK_Cpu \<Rightarrow> 0 | BK_Cuda \<Rightarrow> outstanding),
     xs_queued := of_nat (length (x_queue x))\<rparr>"

section \<open>The workers\<close>

text \<open>One iteration of \<open>worker_loop\<close>: taking work under the lock, running it, and clearing up.\<close>

definition worker_take :: "nat \<Rightarrow> Executor \<Rightarrow> Executor" where
  "worker_take i x =
     (case x_queue x of
        [] \<Rightarrow> if x_stopping x then x\<lparr>x_workers := (x_workers x)[i := W_Exited]\<rparr> else x
      | w # q \<Rightarrow> x\<lparr>x_queue := q, x_active_tokens := omap_put (aw_attempt_id w) (aw_token w) (x_active_tokens x),
                  x_workers := (x_workers x)[i := W_Taken w]\<rparr>)"

definition worker_start :: "nat \<Rightarrow> AttemptWork \<Rightarrow> Executor \<Rightarrow> Executor" where
  "worker_start i w x = x\<lparr>x_active := x_active x + 1, x_total := x_total x + 1, x_calls := x_calls x @ [OnStart w],
     x_workers := (x_workers x)[i := W_Starting w]\<rparr>"

definition worker_check :: "nat \<Rightarrow> AttemptWork \<Rightarrow> requests \<Rightarrow> Executor \<Rightarrow> Executor" where
  "worker_check i w rq x = x\<lparr>x_workers := (x_workers x)[i := W_Running w (aw_token w \<in> rq)]\<rparr>"

definition worker_done :: "nat \<Rightarrow> AttemptWork \<Rightarrow> Executor \<Rightarrow> Executor" where
  "worker_done i w x = x\<lparr>x_active := x_active x - 1, x_active_tokens := omap_del (aw_attempt_id w) (x_active_tokens x),
     x_workers := (x_workers x)[i := W_Idle]\<rparr>"

text \<open>
  The outcome \<open>run_one\<close> reports. \<open>cancelled\<close> is what the token says before the kernel starts, \<open>polls\<close> what the kernel's
  own polls find, \<open>micros\<close> the time it took and \<open>env\<close> what the CUDA runtime does.
\<close>

definition cancelled_outcome :: "string \<Rightarrow> AttemptOutcome" where
  "cancelled_outcome device = default_outcome\<lparr>ao_device := device, ao_success := False, ao_state := AS_Cancelled,
     ao_failure_kind := FK_Cancelled, ao_failure_reason := ''cancelled before execution''\<rparr>"

definition cpu_outcome :: "bool \<Rightarrow> polls \<Rightarrow> int \<Rightarrow> ComputeTask \<Rightarrow> AttemptOutcome" where
  "cpu_outcome cancelled polls micros task =
     (let out = (if cancelled then cancelled_outcome ''cpu''
        else let wr = run_cpu_kernel task polls; out = default_outcome\<lparr>ao_device := ''cpu''\<rparr> in
          if wr_success wr then out\<lparr>ao_success := True, ao_state := AS_Succeeded, ao_output_bytes := wr_output wr,
            ao_output_integrity := wr_checksum_hex wr, ao_bytes_transferred := wr_bytes_processed wr, ao_notes := [wr_notes wr]\<rparr>
          else out\<lparr>ao_success := False, ao_state := AS_Failed,
            ao_failure_kind := (if wr_notes wr = ''cancelled'' then FK_Cancelled else FK_ExecutorFailed),
            ao_failure_reason := wr_notes wr\<rparr>)
      in out\<lparr>ao_duration_ms := f64_of_int micros / f64_of_nat 1000\<rparr>)"

definition cuda_outcome :: "bool \<Rightarrow> CudaEnv \<Rightarrow> int \<Rightarrow> i32 \<Rightarrow> ComputeTask \<Rightarrow> AttemptOutcome" where
  "cuda_outcome cancelled env micros device_ordinal task =
     (let device = ''cuda:'' @ int_to_string (sint device_ordinal) in
      if cancelled then cancelled_outcome device
      else let r = fst (cuda_run_vector_transform (sint device_ordinal) task env 0);
               out = default_outcome\<lparr>ao_device := device, ao_duration_ms := f64_of_int micros / f64_of_nat 1000\<rparr> in
        if cr_success r then out\<lparr>ao_success := True, ao_state := AS_Succeeded, ao_output_bytes := cr_output r,
          ao_output_integrity := cr_integrity_hex r, ao_bytes_transferred := cr_bytes_transferred r\<rparr>
        else out\<lparr>ao_success := False, ao_state := AS_Failed, ao_failure_kind := FK_CudaError,
          ao_failure_reason := cr_error_message r\<rparr>)"

definition run_one :: "bool \<Rightarrow> polls \<Rightarrow> CudaEnv \<Rightarrow> int \<Rightarrow> Executor \<Rightarrow> AttemptWork \<Rightarrow> AttemptOutcome" where
  "run_one cancelled polls env micros x w =
     (case x_kind x of
        BK_Cpu \<Rightarrow> cpu_outcome cancelled polls micros (aw_task w)
      | BK_Cuda \<Rightarrow> cuda_outcome cancelled env micros (x_device_ordinal x) (aw_task w))"

definition worker_report :: "nat \<Rightarrow> AttemptWork \<Rightarrow> AttemptOutcome \<Rightarrow> Executor \<Rightarrow> Executor" where
  "worker_report i w out x =
     (let x1 = (if ao_success out then x\<lparr>x_succeeded := x_succeeded x + 1\<rparr>
                else if ao_state out = AS_Cancelled then x
                else x\<lparr>x_failed := x_failed x + 1\<rparr>)
      in x1\<lparr>x_calls := x_calls x @ [OnComplete w out], x_workers := (x_workers x)[i := W_Reported w]\<rparr>)"

text \<open>The first half of \<open>shutdown\<close>; the second half waits until every worker has left its loop.\<close>

definition exec_shutdown :: "bool \<Rightarrow> Executor \<Rightarrow> requests \<Rightarrow> Executor \<times> requests" where
  "exec_shutdown drain x rq =
     (if x_stopping x then (x, rq)
      else (x\<lparr>x_stopping := True\<rparr>, if drain then rq else rq \<union> set (map aw_token (x_queue x))))"

definition workers_joined :: "Executor \<Rightarrow> bool" where
  "workers_joined x = list_all (\<lambda>w. w = W_Exited) (x_workers x)"

inductive worker_step :: "Executor \<times> requests \<Rightarrow> Executor \<times> requests \<Rightarrow> bool" where
  take: "i < length (x_workers x) \<Longrightarrow> x_workers x ! i = W_Idle \<Longrightarrow> x_queue x \<noteq> [] \<or> x_stopping x \<Longrightarrow>
    worker_step (x, rq) (worker_take i x, rq)"
| start: "i < length (x_workers x) \<Longrightarrow> x_workers x ! i = W_Taken w \<Longrightarrow> worker_step (x, rq) (worker_start i w x, rq)"
| check: "i < length (x_workers x) \<Longrightarrow> x_workers x ! i = W_Starting w \<Longrightarrow> worker_step (x, rq) (worker_check i w rq x, rq)"
| report: "i < length (x_workers x) \<Longrightarrow> x_workers x ! i = W_Running w cancelled \<Longrightarrow> \<forall>k. polls k \<longrightarrow> aw_token w \<in> rq \<Longrightarrow>
    worker_step (x, rq) (worker_report i w (run_one cancelled polls env micros x w) x, rq)"
| clear_up: "i < length (x_workers x) \<Longrightarrow> x_workers x ! i = W_Reported w \<Longrightarrow> worker_step (x, rq) (worker_done i w x, rq)"

inductive pool_step :: "Executor \<times> requests \<Rightarrow> Executor \<times> requests \<Rightarrow> bool" where
  worker: "worker_step s s' \<Longrightarrow> pool_step s s'"
| enqueue: "pool_step (x, rq) (snd (enqueue w x), rq)"
| cancel: "pool_step (x, rq) (x, snd (exec_cancel_attempt a x rq))"
| request: "pool_step (x, rq) (x, insert tok rq)"
| shutdown: "pool_step (x, rq) (exec_shutdown drain x rq)"

section \<open>Every accepted work item is reported once\<close>

fun in_hand :: "worker \<Rightarrow> AttemptWork list" where
  "in_hand (W_Taken w) = [w]"
| "in_hand (W_Starting w) = [w]"
| "in_hand (W_Running w c) = [w]"
| "in_hand _ = []"

fun busy :: "worker \<Rightarrow> bool" where
  "busy (W_Starting w) = True"
| "busy (W_Running w c) = True"
| "busy (W_Reported w) = True"
| "busy _ = False"

fun reported :: "callback list \<Rightarrow> AttemptWork list" where
  "reported [] = []"
| "reported (OnComplete w out # cs) = w # reported cs"
| "reported (_ # cs) = reported cs"

definition started :: "callback list \<Rightarrow> nat" where
  "started cs = length (filter (\<lambda>c. case c of OnStart w \<Rightarrow> True | _ \<Rightarrow> False) cs)"

lemma reported_append [simp]: "reported (a @ b) = reported a @ reported b"
  by (induction a rule: reported.induct) simp_all

lemma started_append [simp]: "started (a @ b) = started a + started b"
  by (simp add: started_def)

definition hands :: "worker list \<Rightarrow> AttemptWork multiset" where
  "hands ws = mset (concat (map in_hand ws))"

definition busy_count :: "worker list \<Rightarrow> nat" where
  "busy_count ws = length (filter busy ws)"

lemma hands_update:
  "i < length ws \<Longrightarrow> hands (ws[i := w]) + mset (in_hand (ws ! i)) = hands ws + mset (in_hand w)"
proof (induction ws arbitrary: i)
  case (Cons v ws)
  then show ?case by (cases i) (auto simp: hands_def ac_simps)
qed simp

lemma busy_count_update:
  "i < length ws \<Longrightarrow> busy_count (ws[i := w]) + of_bool (busy (ws ! i)) = busy_count ws + of_bool (busy w)"
proof (induction ws arbitrary: i)
  case (Cons v ws)
  then show ?case by (cases i) (auto simp: busy_count_def)
qed simp

definition pool_inv :: "Executor \<Rightarrow> bool" where
  "pool_inv x \<longleftrightarrow> mset (x_accepted x) = mset (x_queue x) + hands (x_workers x) + mset (reported (x_calls x)) \<and>
     length (x_queue x) \<le> nat (sint (x_queue_limit x)) \<and>
     x_active x = of_nat (busy_count (x_workers x)) \<and> x_total x = of_nat (started (x_calls x)) \<and>
     (W_Exited \<in> set (x_workers x) \<longrightarrow> x_stopping x \<and> x_queue x = [])"

lemma exited_update: "W_Exited \<in> set (ws[i := w]) \<Longrightarrow> W_Exited \<in> set ws \<or> w = W_Exited"
  using set_update_subset_insert [of ws i w] by auto

lemma worker_step_inv:
  assumes "worker_step (x, rq) (x', rq')" "pool_inv x"
  shows "pool_inv x'"
proof -
  note upd = hands_update [of _ "x_workers x"] busy_count_update [of _ "x_workers x"]
  show ?thesis using assms(1)
  proof cases
    case (take i)
    then show ?thesis using assms(2) upd [OF take(3), of W_Exited] upd [OF take(3), of "W_Taken (hd (x_queue x))"]
      by (auto simp: pool_inv_def worker_take_def ac_simps split: list.splits dest: exited_update)
  next
    case (start i w)
    then show ?thesis using assms(2) upd [OF start(3), of "W_Starting w"]
      by (auto simp: pool_inv_def worker_start_def started_def dest: exited_update)
  next
    case (check i w)
    then show ?thesis using assms(2) upd [OF check(3), of "W_Running w (aw_token w \<in> rq)"]
      by (auto simp: pool_inv_def worker_check_def dest: exited_update)
  next
    case (report i w cancelled polls env micros)
    then show ?thesis using assms(2) upd [OF report(3), of "W_Reported w"]
      by (auto simp: pool_inv_def worker_report_def Let_def started_def ac_simps dest: exited_update)
  next
    case (clear_up i w)
    from upd(2) [OF clear_up(3), of W_Idle] clear_up(4)
    have "busy_count (x_workers x) = Suc (busy_count ((x_workers x)[i := W_Idle]))" by simp
    then have "(of_nat (busy_count (x_workers x)) :: i64) - 1 = of_nat (busy_count ((x_workers x)[i := W_Idle]))" by simp
    with clear_up show ?thesis using assms(2) upd(1) [OF clear_up(3), of W_Idle]
      by (auto simp: pool_inv_def worker_done_def dest: exited_update)
  qed
qed

lemma pool_step_inv:
  assumes "pool_step (x, rq) (x', rq')" "pool_inv x"
  shows "pool_inv x'"
  using assms(1)
proof cases
  case worker
  then show ?thesis using worker_step_inv assms(2) by blast
next
  case (enqueue w)
  then show ?thesis using assms(2) by (auto simp: enqueue_def pool_inv_def fail_with_def)
next
  case (shutdown drain)
  then show ?thesis using assms(2) by (auto simp: exec_shutdown_def pool_inv_def split: if_splits)
qed (use assms(2) in simp_all)

lemma pool_reachable_inv:
  assumes "pool_step\<^sup>*\<^sup>* s s'" "pool_inv (fst s)"
  shows "pool_inv (fst s')"
  using assms by (induction rule: rtranclp_induct) (auto intro: pool_step_inv)

text \<open>The workers of a pool: their number never changes, nor do limits and device.\<close>

lemma pool_step_static:
  assumes "pool_step (x, rq) (x', rq')"
  shows "length (x_workers x') = length (x_workers x) \<and> x_queue_limit x' = x_queue_limit x \<and> x_slots x' = x_slots x \<and> rq \<subseteq> rq'"
  using assms
proof cases
  case worker
  then show ?thesis
    by cases (auto simp: worker_take_def worker_start_def worker_check_def worker_report_def worker_done_def Let_def split: list.splits)
qed (auto simp: enqueue_def fail_with_def exec_cancel_attempt_def exec_shutdown_def split: option.splits if_splits)

lemma pool_reachable_static:
  assumes "pool_step\<^sup>*\<^sup>* s s'"
  shows "length (x_workers (fst s')) = length (x_workers (fst s)) \<and> x_queue_limit (fst s') = x_queue_limit (fst s) \<and>
    x_slots (fst s') = x_slots (fst s) \<and> snd s \<subseteq> snd s'"
  using assms by (induction rule: rtranclp_induct) (fastforce dest: pool_step_static)+

lemma busy_count_le: "busy_count ws \<le> length ws"
  by (simp add: busy_count_def)

lemma hands_joined: "list_all (\<lambda>w. w = W_Exited) ws \<Longrightarrow> hands ws = {#}"
  by (induction ws) (simp_all add: hands_def)

lemma cpu_executor_inv: "pool_inv (cpu_executor slots)"
proof -
  have "hands (replicate k W_Idle) = {#}" "busy_count (replicate k W_Idle) = 0" for k
    by (induction k) (simp_all add: hands_def busy_count_def)
  then show ?thesis by (simp add: pool_inv_def cpu_executor_def Let_def started_def)
qed

lemma executor_total:
  assumes "pool_step\<^sup>*\<^sup>* (cpu_executor slots, rq) (x, rq')"
  shows "pool_inv x" "length (x_workers x) = nat (sint (x_slots x))" "x_queue_limit x = 1024"
    "workers_joined x \<Longrightarrow> mset (reported (x_calls x)) = mset (x_accepted x)"
proof -
  show inv: "pool_inv x" using pool_reachable_inv [OF assms] cpu_executor_inv by simp
  show fixed: "length (x_workers x) = nat (sint (x_slots x))" "x_queue_limit x = 1024"
    using pool_reachable_static [OF assms] by (auto simp: cpu_executor_def Let_def)
  have "0 < sint (x_slots x)" using pool_reachable_static [OF assms] by (auto simp: cpu_executor_def Let_def)
  with fixed have "0 < length (x_workers x)" by simp
  then show "mset (reported (x_calls x)) = mset (x_accepted x)" if "workers_joined x"
  proof -
    from that \<open>0 < length (x_workers x)\<close> have "W_Exited \<in> set (x_workers x)" by (cases "x_workers x") (auto simp: workers_joined_def)
    with inv that show ?thesis by (simp add: pool_inv_def workers_joined_def hands_joined)
  qed
qed

text \<open>
  C12: a CPU executor reports every accepted attempt exactly once. In every interleaving of its workers with
  callers, the accepted attempts are the queued ones, the ones in the hands of a worker and the ones
  reported through \<open>on_complete\<close>, each as often as it was accepted; at most 1024 wait in the queue and
  at most as many as there are slots are active, which is what the counter says; and once \<open>shutdown\<close> has joined the workers
  every accepted attempt has been reported.
\<close>

theorem executor_reports_each_once:
  assumes "pool_step\<^sup>*\<^sup>* (cpu_executor slots, rq) (x, rq')"
  shows "mset (x_accepted x) = mset (x_queue x) + hands (x_workers x) + mset (reported (x_calls x)) \<and>
    length (x_queue x) \<le> 1024 \<and>
    x_active x = of_nat (busy_count (x_workers x)) \<and> busy_count (x_workers x) \<le> nat (sint (x_slots x)) \<and>
    (workers_joined x \<longrightarrow> mset (reported (x_calls x)) = mset (x_accepted x))"
  using executor_total [OF assms] busy_count_le [of "x_workers x"] by (auto simp: pool_inv_def)

definition sample_work :: AttemptWork where
  "sample_work = \<lparr>aw_task = sample_kernel_task, aw_attempt_id = Id128 0 5, aw_node_id = Id128 0 9, aw_reservation_id = Id128 0 6,
     aw_coordinator_epoch = 1, aw_token = 0, aw_enqueued_at_ms = 0\<rparr>"

lemma sample_pool_run:
  "pool_step\<^sup>*\<^sup>* (cpu_executor 1, {}) (fst (exec_shutdown False (snd (enqueue sample_work (cpu_executor 1))) {}), {0})"
proof -
  let ?x = "snd (enqueue sample_work (cpu_executor 1))"
  have "pool_step (cpu_executor 1, {}) (?x, {})" by (rule pool_step.enqueue)
  moreover have "pool_step (?x, {}) (exec_shutdown False ?x {})" by (rule pool_step.shutdown)
  ultimately have "pool_step\<^sup>*\<^sup>* (cpu_executor 1, {}) (exec_shutdown False ?x {})" by (metis r_into_rtranclp rtranclp.rtrancl_into_rtrancl)
  moreover have "snd (exec_shutdown False ?x {}) = {0}"
    by (simp add: exec_shutdown_def enqueue_def cpu_executor_def sample_work_def fail_with_def)
  ultimately show ?thesis by (metis prod.collapse)
qed

theorem executor_reports_each_once_witness:
  "mset (x_accepted (fst (exec_shutdown False (snd (enqueue sample_work (cpu_executor 1))) {}))) = {#sample_work#}"
  using executor_reports_each_once [OF sample_pool_run]
  by (simp add: exec_shutdown_def enqueue_def cpu_executor_def fail_with_def hands_def)

section \<open>Shutting down\<close>

fun worker_stage :: "worker \<Rightarrow> nat" where
  "worker_stage W_Exited = 0"
| "worker_stage W_Idle = 1"
| "worker_stage (W_Reported w) = 2"
| "worker_stage (W_Running w c) = 3"
| "worker_stage (W_Starting w) = 4"
| "worker_stage (W_Taken w) = 5"

text \<open>The number of worker steps still possible when no more work arrives.\<close>

definition pool_work :: "Executor \<Rightarrow> nat" where
  "pool_work x = 6 * length (x_queue x) + sum_list (map worker_stage (x_workers x))"

lemma stage_update:
  "i < length ws \<Longrightarrow> sum_list (map worker_stage (ws[i := w])) + worker_stage (ws ! i) = sum_list (map worker_stage ws) + worker_stage w"
proof (induction ws arbitrary: i)
  case (Cons v ws)
  then show ?case by (cases i) auto
qed simp

lemma worker_step_decreases:
  assumes "worker_step (x, rq) (x', rq')"
  shows "pool_work x' < pool_work x \<and> x_stopping x' = x_stopping x \<and> x_accepted x' = x_accepted x"
proof -
  note upd = stage_update [of _ "x_workers x"]
  show ?thesis using assms
  proof cases
    case (take i)
    then show ?thesis using upd [OF take(3), of W_Exited] upd [OF take(3), of "W_Taken (hd (x_queue x))"]
      by (auto simp: pool_work_def worker_take_def split: list.splits)
  next
    case (start i w)
    then show ?thesis using upd [OF start(3), of "W_Starting w"] by (simp add: pool_work_def worker_start_def)
  next
    case (check i w)
    then show ?thesis using upd [OF check(3), of "W_Running w (aw_token w \<in> rq)"] by (simp add: pool_work_def worker_check_def)
  next
    case (report i w cancelled polls env micros)
    then show ?thesis using upd [OF report(3), of "W_Reported w"] by (simp add: pool_work_def worker_report_def Let_def)
  next
    case (clear_up i w)
    then show ?thesis using upd [OF clear_up(3), of W_Idle] by (simp add: pool_work_def worker_done_def)
  qed
qed

lemma worker_steps_decrease:
  "(worker_step ^^ n) (x, rq) (x', rq') \<Longrightarrow> n + pool_work x' \<le> pool_work x \<and> x_stopping x' = x_stopping x \<and> x_accepted x' = x_accepted x"
proof (induction n arbitrary: x' rq')
  case (Suc n)
  then obtain y rq1 where y: "(worker_step ^^ n) (x, rq) (y, rq1)" "worker_step (y, rq1) (x', rq')" by auto
  show ?case using Suc.IH [OF y(1)] worker_step_decreases [OF y(2)] by simp
qed simp

lemma worker_can_step:
  assumes "x_stopping x" "\<not> workers_joined x"
  shows "\<exists>s. worker_step (x, rq) s"
proof -
  from assms(2) obtain i where i: "i < length (x_workers x)" "x_workers x ! i \<noteq> W_Exited"
    by (auto simp: workers_joined_def list_all_length)
  show ?thesis
  proof (cases "x_workers x ! i")
    case (W_Running w c)
    have "\<forall>k. no_token k \<longrightarrow> aw_token w \<in> rq" by (simp add: no_token_def)
    from worker_step.report [OF i(1) W_Running this] show ?thesis by blast
  qed (use i assms(1) in \<open>blast intro: worker_step.intros\<close>)+
qed

text \<open>
  C25: shutting down terminates and loses nothing. Once an executor is stopping, its workers can make only finitely many
  steps, in any order, and when none of them can make another one, all have left their loop, so that \<open>shutdown\<close>
  returns, and every attempt accepted before has been reported.
\<close>

theorem shutdown_drains:
  assumes "pool_step\<^sup>*\<^sup>* (cpu_executor slots, rq0) (x, rq)" "x_stopping x" "(worker_step ^^ n) (x, rq) (x', rq')"
  shows "n \<le> pool_work x \<and>
    ((\<nexists>s. worker_step (x', rq') s) \<longrightarrow> workers_joined x' \<and> mset (reported (x_calls x')) = mset (x_accepted x))"
proof -
  note run = worker_steps_decrease [OF assms(3)]
  have "pool_step\<^sup>*\<^sup>* (x, rq) (x', rq')"
    using relpowp_imp_rtranclp [OF assms(3)] by (rule rtranclp_mono [THEN predicate2D, rotated]) (auto intro: pool_step.worker)
  with assms(1) have "pool_step\<^sup>*\<^sup>* (cpu_executor slots, rq0) (x', rq')" by (rule rtranclp_trans)
  from executor_total [OF this] show ?thesis
    using run worker_can_step [of x' rq'] assms(2) by auto
qed

definition idle_pool :: Executor where
  "idle_pool = fst (exec_shutdown False (cpu_executor 1) {})"

lemma idle_pool_simps:
  "x_workers idle_pool = [W_Idle]" "x_queue idle_pool = []" "x_stopping idle_pool" "x_accepted idle_pool = []"
  "worker_take 0 idle_pool = idle_pool\<lparr>x_workers := [W_Exited]\<rparr>"
  by (simp_all add: idle_pool_def exec_shutdown_def cpu_executor_def worker_take_def)

lemma exited_stuck: "x_workers x = [W_Exited] \<Longrightarrow> \<nexists>s. worker_step (x, rq) s"
  by (auto elim: worker_step.cases)

theorem shutdown_drains_witness:
  "workers_joined (worker_take 0 idle_pool) \<and> 1 \<le> pool_work idle_pool \<and> reported (x_calls (worker_take 0 idle_pool)) = []"
proof -
  have reached: "pool_step\<^sup>*\<^sup>* (cpu_executor 1, {}) (idle_pool, {})"
    using pool_step.shutdown [of "cpu_executor 1" "{}" False]
    by (simp add: idle_pool_def exec_shutdown_def cpu_executor_def r_into_rtranclp)
  have "worker_step (idle_pool, {}) (worker_take 0 idle_pool, {})"
    by (rule worker_step.take) (simp_all add: idle_pool_simps)
  then have step: "(worker_step ^^ 1) (idle_pool, {}) (worker_take 0 idle_pool, {})" by (simp only: relpowp_1)
  have "\<nexists>s. worker_step (worker_take 0 idle_pool, {}) s" by (rule exited_stuck) (simp add: idle_pool_simps)
  with shutdown_drains [OF reached _ step] show ?thesis by (simp add: idle_pool_simps(3,4))
qed

section \<open>Cancelling\<close>

lemma run_one_cancelled: "ao_state (run_one True polls env micros x w) = AS_Cancelled \<and> ao_output_bytes (run_one True polls env micros x w) = []"
  by (simp add: run_one_def cpu_outcome_def cuda_outcome_def cancelled_outcome_def default_outcome_def Let_def split: backend.splits)

text \<open>Nothing with the token is running unaware of the request, and nothing with it was reported other than cancelled.\<close>

definition quiet :: "token \<Rightarrow> Executor \<Rightarrow> bool" where
  "quiet tok x \<longleftrightarrow> (\<forall>w. W_Running w False \<in> set (x_workers x) \<longrightarrow> aw_token w \<noteq> tok) \<and>
     (\<forall>w out. OnComplete w out \<in> set (x_calls x) \<longrightarrow> aw_token w = tok \<longrightarrow> ao_state out = AS_Cancelled \<and> ao_output_bytes out = [])"

lemma in_update: "v \<in> set (ws[i := w]) \<Longrightarrow> v \<in> set ws \<or> v = w"
  using set_update_subset_insert [of ws i w] by auto

lemma pool_step_quiet:
  assumes "pool_step (x, rq) (x', rq')" "quiet tok x" "tok \<in> rq"
  shows "quiet tok x' \<and> tok \<in> rq'"
  using assms(1)
proof cases
  case worker
  then show ?thesis
  proof cases
    case (report i w cancelled polls env micros)
    have "cancelled" if "aw_token w = tok"
      using assms(2) report(3,4) that nth_mem [of i "x_workers x"] by (cases cancelled) (auto simp: quiet_def)
    then show ?thesis using report assms(2,3) run_one_cancelled
      by (auto simp: quiet_def worker_report_def Let_def dest: in_update)
  qed (use assms(2,3) in \<open>auto simp: quiet_def worker_take_def worker_start_def worker_check_def worker_done_def
        split: list.splits dest!: in_update\<close>)
qed (use assms(2,3) in \<open>auto simp: enqueue_def fail_with_def quiet_def exec_cancel_attempt_def exec_shutdown_def split: option.splits if_splits\<close>)

text \<open>
  Cancelling in time prevents execution. If an attempt's token is requested before a worker has looked at it, then, however
  the run goes on, the attempt is only ever reported as cancelled and without output; in particular the
  work still queued when an executor is shut down without draining.
\<close>

theorem early_cancel_prevents_run:
  assumes "pool_step\<^sup>*\<^sup>* (x, rq) (x', rq')" "tok \<in> rq" "quiet tok x" "OnComplete w out \<in> set (x_calls x')" "aw_token w = tok"
  shows "ao_state out = AS_Cancelled \<and> ao_output_bytes out = []"
proof -
  have "quiet tok (fst s) \<and> tok \<in> snd s" if "pool_step\<^sup>*\<^sup>* (x, rq) s" for s
    using that assms(2,3) by (induction rule: rtranclp_induct) (auto dest: pool_step_quiet)
  from this [OF assms(1)] assms(4,5) show ?thesis by (auto simp: quiet_def)
qed

definition stopping_pool :: Executor where
  "stopping_pool = fst (exec_shutdown False (snd (enqueue sample_work (cpu_executor 1))) {})"

definition checked_pool :: Executor where
  "checked_pool = worker_check 0 sample_work {0} (worker_start 0 sample_work (worker_take 0 stopping_pool))"

lemma stopping_pool_simps:
  "x_workers stopping_pool = [W_Idle]" "x_queue stopping_pool = [sample_work]" "x_calls stopping_pool = []"
  by (simp_all add: stopping_pool_def exec_shutdown_def enqueue_def cpu_executor_def fail_with_def)

lemma sample_run_end:
  "pool_step\<^sup>*\<^sup>* (stopping_pool, {0}) (worker_report 0 sample_work (run_one True no_token sample_cuda_env 1 checked_pool sample_work) checked_pool, {0})"
proof -
  let ?x1 = "worker_take 0 stopping_pool" and ?x2 = "worker_start 0 sample_work (worker_take 0 stopping_pool)"
  have ws: "x_workers ?x1 = [W_Taken sample_work]" "x_workers ?x2 = [W_Starting sample_work]" "x_workers checked_pool = [W_Running sample_work True]"
    by (simp_all add: checked_pool_def worker_take_def worker_start_def worker_check_def stopping_pool_simps sample_work_def)
  have "worker_step (stopping_pool, {0}) (?x1, {0})" by (rule worker_step.take) (simp_all add: stopping_pool_simps)
  moreover have "worker_step (?x1, {0}) (?x2, {0})" by (rule worker_step.start) (simp_all add: ws)
  moreover have "worker_step (?x2, {0}) (checked_pool, {0})"
    unfolding checked_pool_def by (rule worker_step.check) (simp_all add: ws)
  moreover have "worker_step (checked_pool, {0}) (worker_report 0 sample_work (run_one True no_token sample_cuda_env 1 checked_pool sample_work) checked_pool, {0})"
    by (rule worker_step.report) (simp_all add: ws no_token_def)
  ultimately show ?thesis by (meson converse_rtranclp_into_rtranclp pool_step.worker rtranclp.rtrancl_refl)
qed

theorem early_cancel_prevents_run_witness:
  "ao_state (run_one True no_token sample_cuda_env 1 checked_pool sample_work) = AS_Cancelled \<and> x_queue stopping_pool = [sample_work]"
proof -
  have "quiet 0 stopping_pool" by (simp add: quiet_def stopping_pool_simps)
  from early_cancel_prevents_run [OF sample_run_end _ this, of sample_work "run_one True no_token sample_cuda_env 1 checked_pool sample_work"]
  show ?thesis by (simp add: worker_report_def Let_def stopping_pool_simps sample_work_def)
qed

end
