(* ===== verification/Node_Runtime.thy ===== *)
theory Node_Runtime
  imports Executor Messages
begin

text \<open>
  The node runtime (\<open>node/node_runtime.h\<close>, \<open>node/node_runtime.cpp\<close>): registration, the reader, heartbeat and completion threads, and the
  callbacks through which the executors report.

  \<^item> Handing a frame to the channel succeeds or fails; the answers are a stream in the state, as is the clock. Frames that were
    handed over are recorded in order.
  \<^item> One step is one iteration of a thread's loop or one step of a worker of an executor together with the callback it
    makes, in any interleaving (\<open>node_step\<close>).
  \<^item> Three ghost lists record the attempts that were dispatched to this node under the current epoch, the attempts for which a terminal report was issued,
    and those whose outcome was dropped because the node is going down.
\<close>

section \<open>State\<close>

record NodeConfig =
  ncf_coordinator_host :: string
  ncf_coordinator_node_port :: u16
  ncf_label :: string
  ncf_address :: string
  ncf_cpu_slots :: i32
  ncf_host_memory_scheduling_bytes :: u64
  ncf_enable_cuda :: bool
  ncf_cuda_device_ordinal :: i32
  ncf_cuda_slots :: i32
  ncf_heartbeat_interval_ms :: i64
  ncf_io_timeout_ms :: i64
  ncf_tags :: "(string, string) omap"

definition default_node_config :: NodeConfig where
  "default_node_config = \<lparr>ncf_coordinator_host = ''127.0.0.1'', ncf_coordinator_node_port = 0, ncf_label = [], ncf_address = [],
     ncf_cpu_slots = 2, ncf_host_memory_scheduling_bytes = push_bit 30 8, ncf_enable_cuda = False, ncf_cuda_device_ordinal = 0,
     ncf_cuda_slots = 2, ncf_heartbeat_interval_ms = 250, ncf_io_timeout_ms = 5000, ncf_tags = []\<rparr>"

record CompletionItem =
  ci_attempt_id :: ExecutionAttemptId
  ci_task_id :: ComputeTaskId
  ci_reservation_id :: ReservationId
  ci_outcome :: AttemptOutcome

record NodeRuntime =
  nd_config :: NodeConfig
  nd_node_id :: NodeId
  nd_session :: NodeSessionId
  nd_epoch :: CoordinatorEpoch
  nd_session_epoch :: SessionEpoch
  nd_stopping :: bool
  nd_connected :: bool
  nd_stop_done :: bool
  nd_cpu :: Executor
  nd_cuda :: "Executor option"
  nd_channel :: bool
  nd_comp_queue :: "CompletionItem list"
  nd_active_tokens :: "(ExecutionAttemptId, token) omap"
  nd_requests :: requests
  nd_next_token :: token
  nd_sent :: "Frame list"
  nd_sends :: "nat \<Rightarrow> Error option"
  nd_send_count :: nat
  nd_clock :: "nat \<Rightarrow> i64"
  nd_ticks :: nat
  nd_dispatched :: "ExecutionAttemptId list"
  nd_reports :: "ExecutionAttemptId list"
  nd_dropped :: "ExecutionAttemptId list"

definition kMaxCompQueue :: nat where "kMaxCompQueue = 4096"

definition nd_now_millis :: "NodeRuntime \<Rightarrow> i64" where
  "nd_now_millis s = nd_clock s (nd_ticks s)"

definition nd_tick :: "NodeRuntime \<Rightarrow> NodeRuntime" where
  "nd_tick s = s\<lparr>nd_ticks := nd_ticks s + 1\<rparr>"

definition new_node_runtime :: "NodeConfig \<Rightarrow> NodeId \<Rightarrow> (string \<times> i32 \<times> i32 \<times> u64) option \<Rightarrow> (nat \<Rightarrow> Error option) \<Rightarrow> (nat \<Rightarrow> i64) \<Rightarrow> NodeRuntime" where
  "new_node_runtime config node_id props sends clock =
     \<lparr>nd_config = config, nd_node_id = node_id, nd_session = id_zero, nd_epoch = 0, nd_session_epoch = 0, nd_stopping = False,
      nd_connected = False, nd_stop_done = False, nd_cpu = cpu_executor (ncf_cpu_slots config),
      nd_cuda = (if ncf_enable_cuda config then Some (cuda_executor (ncf_cuda_device_ordinal config) (ncf_cuda_slots config) 64 props) else None),
      nd_channel = False, nd_comp_queue = [], nd_active_tokens = [], nd_requests = {}, nd_next_token = 0, nd_sent = [],
      nd_sends = sends, nd_send_count = 0, nd_clock = clock, nd_ticks = 0, nd_dispatched = [], nd_reports = [], nd_dropped = []\<rparr>"

section \<open>Sending\<close>

definition nd_send_frame :: "Frame \<Rightarrow> NodeRuntime \<Rightarrow> unit result \<times> NodeRuntime" where
  "nd_send_frame frame s =
     (if \<not> nd_channel s then (fail_with E_NotConnected ''node channel not connected'', s)
      else let s1 = s\<lparr>nd_send_count := nd_send_count s + 1\<rparr> in
        case nd_sends s (nd_send_count s) of
          Some e \<Rightarrow> (Inl e, s1)
        | None \<Rightarrow> (Inr (), s1\<lparr>nd_sent := nd_sent s @ [frame]\<rparr>))"

definition node_frame :: "u16 \<Rightarrow> NodeRuntime \<Rightarrow> u64 \<Rightarrow> byte list \<Rightarrow> Frame" where
  "node_frame message_type s request_id payload = make_frame message_type SK_Node (nd_node_id s) request_id payload"

definition request_runtime_stop :: "NodeRuntime \<Rightarrow> NodeRuntime" where
  "request_runtime_stop s = s\<lparr>nd_connected := False, nd_stopping := True\<rparr>"

definition terminate_transport :: "NodeRuntime \<Rightarrow> NodeRuntime" where
  "terminate_transport s = (request_runtime_stop s)\<lparr>nd_channel := False\<rparr>"

definition forget_attempt :: "ExecutionAttemptId \<Rightarrow> NodeRuntime \<Rightarrow> NodeRuntime" where
  "forget_attempt i s = s\<lparr>nd_active_tokens := omap_del i (nd_active_tokens s)\<rparr>"

definition send_release :: "ReservationId \<Rightarrow> ComputeTaskId \<Rightarrow> NodeRuntime \<Rightarrow> NodeRuntime" where
  "send_release resv task s =
     snd (nd_send_frame (node_frame kReservationRelease s 0 (serialize_reservation_release
       \<lparr>rsr_reservation_id = resv, rsr_task_id = task, rsr_node_id = nd_node_id s, rsr_session_id = nd_session s,
        rsr_coordinator_epoch = nd_epoch s\<rparr>)) s)"

definition send_started :: "ExecutionAttemptId \<Rightarrow> string \<Rightarrow> NodeRuntime \<Rightarrow> NodeRuntime" where
  "send_started i device s =
     (let s1 = nd_tick s in
      snd (nd_send_frame (node_frame kAttemptStarted s 0 (serialize_attempt_started
        \<lparr>ats_attempt_id = i, ats_started_at_ms = nd_now_millis s, ats_device = device\<rparr>)) s1))"

definition report_for :: "ExecutionAttemptId \<Rightarrow> NodeRuntime \<Rightarrow> NodeRuntime" where
  "report_for i s = s\<lparr>nd_reports := nd_reports s @ [i]\<rparr>"

definition complete_message :: "ExecutionAttemptId \<Rightarrow> ComputeTaskId \<Rightarrow> ReservationId \<Rightarrow> AttemptOutcome \<Rightarrow> NodeRuntime \<Rightarrow> AttemptComplete" where
  "complete_message i task resv out s =
     \<lparr>atc_attempt_id = i, atc_task_id = task, atc_reservation_id = resv, atc_coordinator_epoch = nd_epoch s, atc_result_code = 0,
      atc_output_size = of_nat (length (ao_output_bytes out)), atc_output_integrity = ao_output_integrity out,
      atc_duration_ms = ao_duration_ms out, atc_cpu_millis = ao_duration_ms out, atc_bytes_transferred = ao_bytes_transferred out,
      atc_device = ao_device out, atc_notes = ao_notes out\<rparr>"

definition send_complete :: "ExecutionAttemptId \<Rightarrow> ComputeTaskId \<Rightarrow> ReservationId \<Rightarrow> AttemptOutcome \<Rightarrow> NodeRuntime \<Rightarrow> NodeRuntime" where
  "send_complete i task resv out s =
     send_release resv task (report_for i (snd (nd_send_frame
       (node_frame kAttemptComplete s 0 (serialize_attempt_complete (complete_message i task resv out s))) s)))"

definition failed_message :: "ExecutionAttemptId \<Rightarrow> ComputeTaskId \<Rightarrow> ReservationId \<Rightarrow> FailureKind \<Rightarrow> string \<Rightarrow> double \<Rightarrow> NodeRuntime \<Rightarrow> AttemptFailed" where
  "failed_message i task resv kind reason duration s =
     \<lparr>atf_attempt_id = i, atf_task_id = task, atf_reservation_id = resv, atf_coordinator_epoch = nd_epoch s,
      atf_failure_kind = failure_kind_to_u8 kind, atf_failure_reason = reason, atf_duration_ms = duration\<rparr>"

definition send_failed :: "ExecutionAttemptId \<Rightarrow> ComputeTaskId \<Rightarrow> ReservationId \<Rightarrow> FailureKind \<Rightarrow> string \<Rightarrow> double \<Rightarrow> NodeRuntime \<Rightarrow> NodeRuntime" where
  "send_failed i task resv kind reason duration s =
     send_release resv task (report_for i (snd (nd_send_frame
       (node_frame kAttemptFailed s 0 (serialize_attempt_failed (failed_message i task resv kind reason duration s))) s)))"

definition cancelled_message :: "ExecutionAttemptId \<Rightarrow> ComputeTaskId \<Rightarrow> ReservationId \<Rightarrow> string \<Rightarrow> NodeRuntime \<Rightarrow> AttemptCancelled" where
  "cancelled_message i task resv reason s =
     \<lparr>atx_attempt_id = i, atx_task_id = task, atx_reservation_id = resv, atx_coordinator_epoch = nd_epoch s, atx_reason = reason\<rparr>"

definition send_cancelled :: "ExecutionAttemptId \<Rightarrow> ComputeTaskId \<Rightarrow> ReservationId \<Rightarrow> string \<Rightarrow> NodeRuntime \<Rightarrow> NodeRuntime" where
  "send_cancelled i task resv reason s =
     send_release resv task (report_for i (snd (nd_send_frame
       (node_frame kAttemptCancelled s 0 (serialize_attempt_cancelled (cancelled_message i task resv reason s))) s)))"

section \<open>Dispatch and completion\<close>

text \<open>The executor an attempt is given to: \<open>Some BK_Cuda\<close>, \<open>Some BK_Cpu\<close> or none.\<close>

definition choose_executor :: "NodeRuntime \<Rightarrow> ComputeTask \<Rightarrow> backend option" where
  "choose_executor s task =
     (if t_required_executor task = ET_Cuda \<and> (case nd_cuda s of None \<Rightarrow> False | Some x \<Rightarrow> cuda_can_execute x task) then Some BK_Cuda
      else if cpu_can_execute (nd_cpu s) task then Some BK_Cpu
      else None)"

definition attempt_work :: "DispatchAttempt \<Rightarrow> token \<Rightarrow> NodeRuntime \<Rightarrow> AttemptWork" where
  "attempt_work msg tok s =
     \<lparr>aw_task = dpa_task msg, aw_attempt_id = dpa_attempt_id msg, aw_node_id = nd_node_id s, aw_reservation_id = dpa_reservation_id msg,
      aw_coordinator_epoch = dpa_coordinator_epoch msg, aw_token = tok, aw_enqueued_at_ms = nd_now_millis s\<rparr>"

definition nd_enqueue :: "backend \<Rightarrow> AttemptWork \<Rightarrow> NodeRuntime \<Rightarrow> unit result \<times> NodeRuntime" where
  "nd_enqueue kind work s =
     (case kind of
        BK_Cpu \<Rightarrow> (let (r, x) = enqueue work (nd_cpu s) in (r, s\<lparr>nd_cpu := x\<rparr>))
      | BK_Cuda \<Rightarrow> (case nd_cuda s of
            None \<Rightarrow> (fail_with E_ExecutorUnavailable [], s)
          | Some x \<Rightarrow> (let (r, x') = enqueue work x in (r, s\<lparr>nd_cuda := Some x'\<rparr>))))"

definition handle_dispatch :: "DispatchAttempt \<Rightarrow> NodeRuntime \<Rightarrow> NodeRuntime" where
  "handle_dispatch msg s =
     (let fail = (\<lambda>kind reason. send_failed (dpa_attempt_id msg) (t_id (dpa_task msg)) (dpa_reservation_id msg) kind reason 0) in
      if dpa_coordinator_epoch msg \<noteq> nd_epoch s
      then fail FK_Internal ''stale coordinator epoch'' (s\<lparr>nd_dispatched := nd_dispatched s @ [dpa_attempt_id msg]\<rparr>)
      else
        let tok = nd_next_token s;
            s1 = s\<lparr>nd_dispatched := nd_dispatched s @ [dpa_attempt_id msg], nd_next_token := tok + 1,
                   nd_active_tokens := omap_put (dpa_attempt_id msg) tok (nd_active_tokens s)\<rparr>
        in case choose_executor s1 (dpa_task msg) of
             None \<Rightarrow> fail FK_ExecutorFailed ''no executor can run this task'' (forget_attempt (dpa_attempt_id msg) s1)
           | Some kind \<Rightarrow>
               (case nd_enqueue kind (attempt_work msg tok s1) (nd_tick s1) of
                  (Inl e, s2) \<Rightarrow> fail FK_ExecutorFailed (err_message e) (forget_attempt (dpa_attempt_id msg) s2)
                | (Inr _, s2) \<Rightarrow> s2))"

definition on_start :: "AttemptWork \<Rightarrow> NodeRuntime \<Rightarrow> NodeRuntime" where
  "on_start w s =
     (let device = (if nd_cuda s \<noteq> None \<and> t_required_executor (aw_task w) = ET_Cuda
                    then ''cuda:'' @ int_to_string (sint (ncf_cuda_device_ordinal (nd_config s))) else ''cpu'')
      in send_started (aw_attempt_id w) device s)"

text \<open>
  \<open>on_complete\<close>, as it goes on after its bounded wait for room in the queue: it queues the outcome, or gives up because the
  node is stopping, or takes the transport down because the queue is still full.
\<close>

definition on_complete :: "AttemptWork \<Rightarrow> AttemptOutcome \<Rightarrow> NodeRuntime \<Rightarrow> NodeRuntime" where
  "on_complete w out s =
     (let item = \<lparr>ci_attempt_id = aw_attempt_id w, ci_task_id = t_id (aw_task w), ci_reservation_id = aw_reservation_id w, ci_outcome = out\<rparr>
      in if \<not> nd_stopping s \<and> length (nd_comp_queue s) < kMaxCompQueue
         then s\<lparr>nd_comp_queue := nd_comp_queue s @ [item]\<rparr>
         else
           let s1 = (forget_attempt (aw_attempt_id w) s)\<lparr>nd_dropped := nd_dropped s @ [aw_attempt_id w]\<rparr>
           in if \<not> nd_stopping s then terminate_transport s1 else s1)"

definition nd_handle_cancel :: "AttemptCancel \<Rightarrow> NodeRuntime \<Rightarrow> NodeRuntime" where
  "nd_handle_cancel msg s =
     (case map_of (nd_active_tokens s) (atk_attempt_id msg) of
        None \<Rightarrow> s
      | Some tok \<Rightarrow> s\<lparr>nd_requests := insert tok (nd_requests s)\<rparr>)"

definition completion_iteration :: "NodeRuntime \<Rightarrow> NodeRuntime" where
  "completion_iteration s =
     (case nd_comp_queue s of
        [] \<Rightarrow> s
      | item # q \<Rightarrow>
          let s1 = forget_attempt (ci_attempt_id item) (s\<lparr>nd_comp_queue := q\<rparr>); out = ci_outcome item in
          if ao_state out = AS_Succeeded
          then send_complete (ci_attempt_id item) (ci_task_id item) (ci_reservation_id item) out s1
          else if ao_state out = AS_Cancelled
          then send_cancelled (ci_attempt_id item) (ci_task_id item) (ci_reservation_id item) (ao_failure_reason out) s1
          else send_failed (ci_attempt_id item) (ci_task_id item) (ci_reservation_id item) (ao_failure_kind out) (ao_failure_reason out) (ao_duration_ms out) s1)"

section \<open>Threads\<close>

definition nd_cpu_stats :: "NodeRuntime \<Rightarrow> ExecutorRuntimeStats" where
  "nd_cpu_stats s = exec_stats 0 (nd_cpu s)"

text \<open>\<open>outstanding\<close> is the global count of device allocations, which a heartbeat does not contain.\<close>

definition nd_cuda_stats :: "i64 \<Rightarrow> NodeRuntime \<Rightarrow> ExecutorRuntimeStats" where
  "nd_cuda_stats outstanding s = (case nd_cuda s of None \<Rightarrow> default_stats | Some x \<Rightarrow> exec_stats outstanding x)"

definition heartbeat_message :: "i64 \<Rightarrow> NodeRuntime \<Rightarrow> NodeHeartbeat" where
  "heartbeat_message outstanding s =
     \<lparr>nhb_node_id = nd_node_id s, nhb_session_id = nd_session s, nhb_session_epoch = nd_session_epoch s, nhb_coordinator_epoch = nd_epoch s,
      nhb_active_cpu_slots = xs_active (nd_cpu_stats s), nhb_active_gpu_slots = xs_active (nd_cuda_stats outstanding s),
      nhb_executors = \<lparr>ers_name = ''cpu'', ers_active = xs_active (nd_cpu_stats s)\<rparr> #
        (case nd_cuda s of None \<Rightarrow> [] | Some x \<Rightarrow> [\<lparr>ers_name = ''cuda'', ers_active = xs_active (nd_cuda_stats outstanding s)\<rparr>])\<rparr>"

text \<open>One iteration of \<open>heartbeat_loop\<close> after its wait.\<close>

definition heartbeat_iteration :: "i64 \<Rightarrow> NodeRuntime \<Rightarrow> NodeRuntime" where
  "heartbeat_iteration outstanding s =
     (if \<not> nd_connected s then request_runtime_stop s
      else case nd_send_frame (node_frame kNodeHeartbeat s 0 (serialize_node_heartbeat (heartbeat_message outstanding s))) s of
        (Inl e, s1) \<Rightarrow> request_runtime_stop s1
      | (Inr _, s1) \<Rightarrow> s1)"

text \<open>One iteration of \<open>read_loop\<close> with what \<open>recv_frame\<close> returned.\<close>

definition read_iteration :: "Frame result \<Rightarrow> NodeRuntime \<Rightarrow> NodeRuntime" where
  "read_iteration frame s =
     (case frame of
        Inl e \<Rightarrow> if err_code e = E_Timeout then s else request_runtime_stop s
      | Inr f \<Rightarrow>
          let ty = fh_message_type (f_header f); r = reader_of (f_payload f) in
          if ty = kDispatchAttempt then
            (case fst (deserialize_dispatch_attempt r) of Inl _ \<Rightarrow> s | Inr m \<Rightarrow> handle_dispatch m s)
          else if ty = kAttemptCancel then
            (case fst (deserialize_attempt_cancel r) of Inl _ \<Rightarrow> s | Inr m \<Rightarrow> nd_handle_cancel m s)
          else if ty = kNodeHeartbeatAck then
            (case fst (deserialize_node_heartbeat_ack r) of
               Inl _ \<Rightarrow> request_runtime_stop s
             | Inr m \<Rightarrow> if nha_accepted m then s else request_runtime_stop s)
          else if ty = kNodeShutdown then
            let accepted = (case fst (deserialize_node_shutdown r) of
                  Inl _ \<Rightarrow> False
                | Inr m \<Rightarrow> nsd_node_id m = nd_node_id s \<and> nsd_session_id m = nd_session s)
            in (case nd_send_frame (node_frame kNodeShutdownAck s (fh_request_id (f_header f))
                  (serialize_node_shutdown_ack \<lparr>nsa_accepted = accepted\<rparr>)) s of
                  (Inl e, s1) \<Rightarrow> request_runtime_stop s1
                | (Inr _, s1) \<Rightarrow> if accepted then request_runtime_stop s1 else s1)
          else s)"

section \<open>Registration\<close>

definition registration :: "NodeRuntime \<Rightarrow> NodeRegister" where
  "registration s =
     (let c = nd_config s in
      \<lparr>nr_node_id = nd_node_id s, nr_label = ncf_label c, nr_address = ncf_address c,
       nr_capacity = default_capacity\<lparr>nc_cpu_worker_slots := ncf_cpu_slots c,
         nc_host_memory_scheduling_bytes := ncf_host_memory_scheduling_bytes c, nc_tags := ncf_tags c,
         nc_address := ncf_address c, nc_label := ncf_label c,
         nc_executors := cpu_capability (nd_cpu s) # (case nd_cuda s of None \<Rightarrow> [] | Some x \<Rightarrow> [cuda_capability x])\<rparr>\<rparr>)"

text \<open>The loop that waits for the acknowledgement: each iteration has the clock it reads and what \<open>recv_frame\<close> returns.\<close>

fun await_ack :: "NodeId \<Rightarrow> int \<Rightarrow> (int \<times> Frame result) list \<Rightarrow> NodeRegisterAck result option" where
  "await_ack node_id deadline [] = None"
| "await_ack node_id deadline ((now, frame) # env) =
     (if \<not> now < deadline then Some (fail_with E_Timeout ''timed out waiting for registration ack'')
      else case frame of
        Inl e \<Rightarrow> if err_code e = E_Timeout then await_ack node_id deadline env else Some (Inl e)
      | Inr f \<Rightarrow>
          if fh_message_type (f_header f) = kNodeRegisterAck then
            (case fst (deserialize_node_register_ack (reader_of (f_payload f))) of
               Inl _ \<Rightarrow> await_ack node_id deadline env
             | Inr m \<Rightarrow>
                 if nra_node_id m \<noteq> node_id then Some (fail_with E_InvalidState ''registration ack was for a different node'')
                 else Some (Inr m))
          else await_ack node_id deadline env)"

record RegisterEnv =
  re_start :: int
  re_connect :: "unit result"
  re_before_hello :: int
  re_before_register :: int
  re_frames :: "(int \<times> Frame result) list"

definition try_register :: "NodeRegister \<Rightarrow> int \<Rightarrow> RegisterEnv \<Rightarrow> NodeRuntime \<Rightarrow> (unit result \<times> NodeRuntime) option" where
  "try_register reg each_attempt_ms env s =
     (if each_attempt_ms \<le> 0 then Some (fail_with E_Timeout ''registration attempt timed out'', s)
      else
        let deadline = re_start env + each_attempt_ms in
        case re_connect env of
          Inl e \<Rightarrow> Some (Inl e, s)
        | Inr _ \<Rightarrow>
          let s1 = s\<lparr>nd_channel := True\<rparr> in
          if deadline - re_before_hello env \<le> 0 then Some (fail_with E_Timeout ''registration attempt timed out'', s1)
          else case nd_send_frame (node_frame kHello s1 1 (serialize_hello \<lparr>hello_protocol_version = kProtocolVersion, hello_role = ''node''\<rparr>)) s1 of
            (Inl e, s2) \<Rightarrow> Some (Inl e, s2)
          | (Inr _, s2) \<Rightarrow>
            if deadline - re_before_register env \<le> 0 then Some (fail_with E_Timeout ''registration attempt timed out'', s2)
            else case nd_send_frame (node_frame kNodeRegister s2 2 (serialize_node_register reg)) s2 of
              (Inl e, s3) \<Rightarrow> Some (Inl e, s3)
            | (Inr _, s3) \<Rightarrow>
              (case await_ack (nd_node_id s) deadline (re_frames env) of
                 None \<Rightarrow> None
               | Some (Inl e) \<Rightarrow> Some (Inl e, s3)
               | Some (Inr ack) \<Rightarrow>
                   if nra_error ack \<noteq> [] then Some (fail_with E_InvalidState (''registration rejected: '' @ nra_error ack), s3)
                   else Some (Inr (), s3\<lparr>nd_session := nra_session_id ack, nd_epoch := nra_coordinator_epoch ack,
                          nd_session_epoch := nra_session_epoch ack, nd_connected := True\<rparr>)))"

text \<open>The loop of \<open>start\<close>: the clock at its test, the time left at its first statement, and one registration attempt.\<close>

fun start_loop :: "NodeRegister \<Rightarrow> int \<Rightarrow> Error \<Rightarrow> (int \<times> int \<times> RegisterEnv) list \<Rightarrow> NodeRuntime \<Rightarrow> (unit result \<times> NodeRuntime) option" where
  "start_loop reg deadline last_err [] s = None"
| "start_loop reg deadline last_err ((now, now1, env) # envs) s =
     (if \<not> now < deadline then Some (Inl last_err, s)
      else case try_register reg (min 3000 (deadline - now1)) env s of
        None \<Rightarrow> None
      | Some (Inr _, s1) \<Rightarrow> Some (Inr (), s1)
      | Some (Inl e, s1) \<Rightarrow> start_loop reg deadline e envs (s1\<lparr>nd_channel := False\<rparr>))"

definition node_start :: "int \<Rightarrow> int \<Rightarrow> (int \<times> int \<times> RegisterEnv) list \<Rightarrow> NodeRuntime \<Rightarrow> (unit result \<times> NodeRuntime) option" where
  "node_start register_timeout_ms now envs s =
     (if register_timeout_ms \<le> 0 then Some (fail_with E_InvalidArgument ''registration timeout must be positive'', s)
      else start_loop (registration s) (now + register_timeout_ms) (make_error E_Timeout ''registration timed out'') envs s)"

section \<open>Stopping and interleaving\<close>

definition stop_executors :: "NodeRuntime \<Rightarrow> NodeRuntime" where
  "stop_executors s =
     (let (cpu, rq1) = exec_shutdown False (nd_cpu s) (nd_requests s) in
      case nd_cuda s of
        None \<Rightarrow> s\<lparr>nd_cpu := cpu, nd_requests := rq1\<rparr>
      | Some x \<Rightarrow> (let (cuda, rq2) = exec_shutdown False x rq1 in s\<lparr>nd_cpu := cpu, nd_cuda := Some cuda, nd_requests := rq2\<rparr>))"

text \<open>\<open>stop\<close> up to the point where it joins the threads.\<close>

definition node_stop :: "NodeRuntime \<Rightarrow> NodeRuntime" where
  "node_stop s =
     (if nd_stop_done s then s
      else
        let s1 = request_runtime_stop (s\<lparr>nd_stop_done := True\<rparr>);
            s2 = s1\<lparr>nd_requests := nd_requests s1 \<union> set (map snd (nd_active_tokens s1))\<rparr>
        in stop_executors (s2\<lparr>nd_channel := False\<rparr>))"

text \<open>The rest of \<open>stop\<close>, after the threads of the node and the workers of its executors have been joined.\<close>

definition node_joined :: "NodeRuntime \<Rightarrow> bool" where
  "node_joined s = (workers_joined (nd_cpu s) \<and> (case nd_cuda s of None \<Rightarrow> True | Some x \<Rightarrow> workers_joined x))"

definition node_stop_end :: "NodeRuntime \<Rightarrow> NodeRuntime" where
  "node_stop_end s = s\<lparr>nd_active_tokens := [], nd_channel := False\<rparr>"

fun callbacks :: "callback list \<Rightarrow> NodeRuntime \<Rightarrow> NodeRuntime" where
  "callbacks [] s = s"
| "callbacks (OnStart w # cs) s = callbacks cs (on_start w s)"
| "callbacks (OnComplete w out # cs) s = callbacks cs (on_complete w out s)"

definition new_calls :: "Executor \<Rightarrow> Executor \<Rightarrow> callback list" where
  "new_calls x x' = drop (length (x_calls x)) (x_calls x')"

text \<open>
  All threads interleaved. A thread leaves its loop when it finds the node stopping at the top of an iteration; an iteration that began before
  still runs to its end, so the steps are not restricted to nodes that are not stopping. The parameter says what the reader may get from the network.
\<close>

inductive node_step :: "(Frame result \<Rightarrow> bool) \<Rightarrow> NodeRuntime \<Rightarrow> NodeRuntime \<Rightarrow> bool" for net where
  start: "node_start register_timeout_ms now envs s = Some (r, s') \<Longrightarrow> node_step net s s'"
| reader: "net frame \<Longrightarrow> node_step net s (read_iteration frame s)"
| heart: "node_step net s (heartbeat_iteration outstanding s)"
| completer: "node_step net s (completion_iteration s)"
| cpu_worker: "worker_step (nd_cpu s, nd_requests s) (x, rq) \<Longrightarrow>
    node_step net s (callbacks (new_calls (nd_cpu s) x) (s\<lparr>nd_cpu := x\<rparr>))"
| cuda_worker: "nd_cuda s = Some x0 \<Longrightarrow> worker_step (x0, nd_requests s) (x, rq) \<Longrightarrow>
    node_step net s (callbacks (new_calls x0 x) (s\<lparr>nd_cuda := Some x\<rparr>))"
| stop: "node_step net s (node_stop s)"
| stopped: "nd_stop_done s \<Longrightarrow> node_joined s \<Longrightarrow> node_step net s (node_stop_end s)"

section \<open>Every dispatched attempt is reported once\<close>

definition pending :: "Executor \<Rightarrow> ExecutionAttemptId multiset" where
  "pending x = image_mset aw_attempt_id (mset (x_queue x) + hands (x_workers x))"

definition cuda_pending :: "Executor option \<Rightarrow> ExecutionAttemptId multiset" where
  "cuda_pending c = (case c of None \<Rightarrow> {#} | Some x \<Rightarrow> pending x)"

definition accounted :: "NodeRuntime \<Rightarrow> bool" where
  "accounted s \<longleftrightarrow>
     mset (nd_dispatched s) = pending (nd_cpu s) + cuda_pending (nd_cuda s) + mset (map ci_attempt_id (nd_comp_queue s)) +
       mset (nd_reports s) + mset (nd_dropped s) \<and>
     (nd_dropped s \<noteq> [] \<longrightarrow> nd_stopping s) \<and> length (nd_comp_queue s) \<le> kMaxCompQueue"

named_theorems node_simps

lemma nd_send_frame_simps [node_simps]:
  "nd_cpu (snd (nd_send_frame f s)) = nd_cpu s" "nd_cuda (snd (nd_send_frame f s)) = nd_cuda s"
  "nd_comp_queue (snd (nd_send_frame f s)) = nd_comp_queue s" "nd_dispatched (snd (nd_send_frame f s)) = nd_dispatched s"
  "nd_reports (snd (nd_send_frame f s)) = nd_reports s" "nd_dropped (snd (nd_send_frame f s)) = nd_dropped s"
  "nd_stopping (snd (nd_send_frame f s)) = nd_stopping s"
  by (simp_all add: nd_send_frame_def Let_def split: option.split)

lemma send_release_simps [node_simps]:
  "nd_cpu (send_release r t s) = nd_cpu s" "nd_cuda (send_release r t s) = nd_cuda s"
  "nd_comp_queue (send_release r t s) = nd_comp_queue s" "nd_dispatched (send_release r t s) = nd_dispatched s"
  "nd_reports (send_release r t s) = nd_reports s" "nd_dropped (send_release r t s) = nd_dropped s"
  "nd_stopping (send_release r t s) = nd_stopping s"
  by (simp_all add: send_release_def node_simps)

lemma report_for_simps [node_simps]:
  "nd_cpu (report_for i s) = nd_cpu s" "nd_cuda (report_for i s) = nd_cuda s" "nd_comp_queue (report_for i s) = nd_comp_queue s"
  "nd_dispatched (report_for i s) = nd_dispatched s" "nd_reports (report_for i s) = nd_reports s @ [i]"
  "nd_dropped (report_for i s) = nd_dropped s" "nd_stopping (report_for i s) = nd_stopping s"
  by (simp_all add: report_for_def)

lemma forget_attempt_simps [node_simps]:
  "nd_cpu (forget_attempt i s) = nd_cpu s" "nd_cuda (forget_attempt i s) = nd_cuda s" "nd_comp_queue (forget_attempt i s) = nd_comp_queue s"
  "nd_dispatched (forget_attempt i s) = nd_dispatched s" "nd_reports (forget_attempt i s) = nd_reports s"
  "nd_dropped (forget_attempt i s) = nd_dropped s" "nd_stopping (forget_attempt i s) = nd_stopping s"
  by (simp_all add: forget_attempt_def)

lemma accounted_send [node_simps]: "accounted (snd (nd_send_frame f s)) = accounted s"
  by (simp add: accounted_def node_simps)

lemma accounted_stop [node_simps]: "accounted s \<Longrightarrow> accounted (request_runtime_stop s)"
  by (simp add: accounted_def request_runtime_stop_def)

lemma accounted_started [node_simps]: "accounted (send_started i d s) = accounted s"
  by (simp add: send_started_def Let_def node_simps) (simp add: accounted_def nd_tick_def)

text \<open>A terminal report accounts for one attempt that was nowhere else.\<close>

definition missing :: "ExecutionAttemptId \<Rightarrow> NodeRuntime \<Rightarrow> bool" where
  "missing i s \<longleftrightarrow>
     mset (nd_dispatched s) = add_mset i (pending (nd_cpu s) + cuda_pending (nd_cuda s) + mset (map ci_attempt_id (nd_comp_queue s)) +
       mset (nd_reports s) + mset (nd_dropped s)) \<and>
     (nd_dropped s \<noteq> [] \<longrightarrow> nd_stopping s) \<and> length (nd_comp_queue s) \<le> kMaxCompQueue"

lemma terminal_reports:
  assumes "missing i s"
  shows "accounted (send_complete i t r out s)" "accounted (send_failed i t r k why d s)" "accounted (send_cancelled i t r why s)"
  using assms by (simp_all add: missing_def accounted_def send_complete_def send_failed_def send_cancelled_def node_simps)

lemma missing_forget [node_simps]: "missing i (forget_attempt j s) = missing i s"
  by (simp add: missing_def node_simps)

lemma missing_complete: "missing (aw_attempt_id w) s \<Longrightarrow> accounted (on_complete w out s)"
  by (auto simp: missing_def accounted_def on_complete_def Let_def node_simps terminate_transport_def request_runtime_stop_def)

lemma completion_accounted: "accounted s \<Longrightarrow> accounted (completion_iteration s)"
proof (cases "nd_comp_queue s")
  case (Cons item q)
  assume "accounted s"
  with Cons have "missing (ci_attempt_id item) (forget_attempt (ci_attempt_id item) (s\<lparr>nd_comp_queue := q\<rparr>))"
    by (simp add: accounted_def missing_def node_simps)
  with Cons show ?thesis by (simp add: completion_iteration_def Let_def terminal_reports)
qed (simp add: completion_iteration_def)

lemma enqueue_pending:
  "enqueue w x = (r, x') \<Longrightarrow> (case r of Inl e \<Rightarrow> x' = x | Inr _ \<Rightarrow> pending x' = add_mset (aw_attempt_id w) (pending x))"
  by (auto simp: enqueue_def pending_def fail_with_def split: if_splits)

lemma nd_enqueue_accounted:
  assumes "nd_enqueue kind w s = (r, s')" "missing (aw_attempt_id w) s"
  shows "case r of Inl e \<Rightarrow> missing (aw_attempt_id w) s' | Inr _ \<Rightarrow> accounted s'"
proof (cases kind)
  case BK_Cpu
  obtain r1 x where x: "enqueue w (nd_cpu s) = (r1, x)" by fastforce
  with assms(1) BK_Cpu have "r = r1" "s' = s\<lparr>nd_cpu := x\<rparr>" by (simp_all add: nd_enqueue_def)
  with enqueue_pending [OF x] assms(2) show ?thesis by (cases r1) (auto simp: missing_def accounted_def)
next
  case BK_Cuda
  show ?thesis
  proof (cases "nd_cuda s")
    case None
    with assms BK_Cuda show ?thesis by (auto simp: nd_enqueue_def fail_with_def)
  next
    case (Some x0)
    obtain r1 x where x: "enqueue w x0 = (r1, x)" by fastforce
    with assms(1) BK_Cuda Some have "r = r1" "s' = s\<lparr>nd_cuda := Some x\<rparr>" by (simp_all add: nd_enqueue_def)
    with enqueue_pending [OF x] assms(2) Some show ?thesis by (cases r1) (auto simp: missing_def accounted_def cuda_pending_def)
  qed
qed

lemma dispatch_accounted: "accounted s \<Longrightarrow> accounted (handle_dispatch msg s)"
proof -
  assume acc: "accounted s"
  let ?i = "dpa_attempt_id msg"
  have 1: "missing ?i (s\<lparr>nd_dispatched := nd_dispatched s @ [?i]\<rparr>)" using acc by (simp add: accounted_def missing_def)
  define s1 where "s1 = s\<lparr>nd_dispatched := nd_dispatched s @ [?i], nd_next_token := nd_next_token s + 1,
    nd_active_tokens := omap_put ?i (nd_next_token s) (nd_active_tokens s)\<rparr>"
  have 2: "missing ?i s1" "missing ?i (nd_tick s1)" using acc by (simp_all add: accounted_def missing_def s1_def nd_tick_def)
  have id: "aw_attempt_id (attempt_work msg (nd_next_token s) s1) = ?i" by (simp add: attempt_work_def)
  have 3: "missing ?i s2" if "nd_enqueue kind (attempt_work msg (nd_next_token s) s1) (nd_tick s1) = (Inl e, s2)" for kind e s2
    using nd_enqueue_accounted [OF that, unfolded id, OF 2(2)] by simp
  have 4: "accounted s2" if "nd_enqueue kind (attempt_work msg (nd_next_token s) s1) (nd_tick s1) = (Inr u, s2)" for kind u s2
    using nd_enqueue_accounted [OF that, unfolded id, OF 2(2)] by simp
  show ?thesis
    using terminal_reports(2) [OF 1] 2(1)
    unfolding handle_dispatch_def Let_def s1_def [symmetric]
    by (auto simp: node_simps intro!: terminal_reports(2) dest: 3 4 split: option.splits prod.splits sum.splits)
qed

lemma worker_step_pending:
  assumes "worker_step (x, rq) (x', rq')"
  shows "new_calls x x' = [] \<and> pending x' = pending x \<or> (\<exists>w. new_calls x x' = [OnStart w]) \<and> pending x' = pending x \<or>
    (\<exists>w out. new_calls x x' = [OnComplete w out] \<and> pending x = add_mset (aw_attempt_id w) (pending x'))"
proof -
  note upd = hands_update [of _ "x_workers x"]
  show ?thesis using assms
  proof cases
    case (take i)
    then show ?thesis using upd [OF take(3), of W_Exited] upd [OF take(3), of "W_Taken (hd (x_queue x))"]
      by (auto simp: new_calls_def pending_def worker_take_def split: list.splits)
  next
    case (start i w)
    then show ?thesis using upd [OF start(3), of "W_Starting w"] by (simp add: new_calls_def pending_def worker_start_def)
  next
    case (check i w)
    then show ?thesis using upd [OF check(3), of "W_Running w (aw_token w \<in> rq)"] by (simp add: new_calls_def pending_def worker_check_def)
  next
    case (report i w cancelled polls env micros)
    then have "hands (x_workers x) = add_mset w (hands ((x_workers x)[i := W_Reported w]))" using upd [OF report(3), of "W_Reported w"] by simp
    with report show ?thesis by (simp add: new_calls_def pending_def worker_report_def Let_def)
  next
    case (clear_up i w)
    then show ?thesis using upd [OF clear_up(3), of W_Idle] by (simp add: new_calls_def pending_def worker_done_def)
  qed
qed

lemma shutdown_pending: "exec_shutdown drain x rq = (x', rq') \<Longrightarrow> pending x' = pending x"
  by (auto simp: exec_shutdown_def pending_def split: if_splits)

lemma node_stop_accounted: "accounted s \<Longrightarrow> accounted (node_stop s)"
  using shutdown_pending
  by (auto simp: node_stop_def stop_executors_def Let_def accounted_def request_runtime_stop_def cuda_pending_def
      split: option.splits prod.splits)

lemma read_accounted: "accounted s \<Longrightarrow> accounted (read_iteration frame s)"
proof (cases frame)
  case (Inr f)
  assume acc: "accounted s"
  have cancel: "accounted (nd_handle_cancel m s)" for m
    using acc by (simp add: nd_handle_cancel_def accounted_def split: option.splits)
  have "accounted s1" if "nd_send_frame g s = (r, s1)" for g r s1
    using accounted_send [of g s] that acc by simp
  with cancel dispatch_accounted [OF acc] acc show ?thesis
    unfolding Inr read_iteration_def Let_def
    by (auto simp: node_simps split: sum.splits prod.splits if_splits)
qed (simp add: read_iteration_def node_simps)

lemma heartbeat_accounted: "accounted s \<Longrightarrow> accounted (heartbeat_iteration outstanding s)"
proof -
  assume acc: "accounted s"
  then have "accounted s1" if "nd_send_frame g s = (r, s1)" for g r s1 using accounted_send [of g s] that by simp
  with acc show ?thesis by (auto simp: heartbeat_iteration_def node_simps split: sum.splits prod.splits)
qed

lemma worker_accounted:
  assumes "worker_step (x, rq) (x', rq')" "pending x' = pending x \<Longrightarrow> accounted s"
    "\<And>i. pending x = add_mset i (pending x') \<Longrightarrow> missing i s"
  shows "accounted (callbacks (new_calls x x') s)"
  using worker_step_pending [OF assms(1)]
proof (elim disjE conjE exE)
  fix w assume "new_calls x x' = [OnStart w]" "pending x' = pending x"
  then show ?thesis using assms(2) by (simp add: on_start_def Let_def node_simps)
next
  fix w out assume "new_calls x x' = [OnComplete w out]" "pending x = add_mset (aw_attempt_id w) (pending x')"
  then show ?thesis using assms(3) by (simp add: missing_complete)
qed (use assms(2) in simp)

text \<open>What a registration attempt leaves alone, and what it changes when it succeeds.\<close>

lemma nd_send_frame_kept:
  "nd_send_frame f s = (r, s') \<Longrightarrow> \<exists>c fs. s' = s\<lparr>nd_send_count := c, nd_sent := fs\<rparr>"
  by (cases s) (auto simp: nd_send_frame_def Let_def split: if_splits option.splits)

definition acknowledged :: "NodeId \<Rightarrow> RegisterEnv \<Rightarrow> NodeRegisterAck \<Rightarrow> bool" where
  "acknowledged node_id env ack \<longleftrightarrow> nra_node_id ack = node_id \<and> nra_error ack = [] \<and>
     (\<exists>now f. (now, Inr f) \<in> set (re_frames env) \<and> fh_message_type (f_header f) = kNodeRegisterAck \<and>
        fst (deserialize_node_register_ack (reader_of (f_payload f))) = Inr ack)"

lemma await_ack_received:
  assumes "await_ack node_id deadline env = Some (Inr ack)"
  shows "nra_node_id ack = node_id \<and> (\<exists>now f. (now, Inr f) \<in> set env \<and> now < deadline \<and> fh_message_type (f_header f) = kNodeRegisterAck \<and>
    fst (deserialize_node_register_ack (reader_of (f_payload f))) = Inr ack)"
  using assms
proof (induction env)
  case (Cons c env)
  obtain now frame where c: "c = (now, frame)" by force
  from Cons.prems c consider "await_ack node_id deadline env = Some (Inr ack)"
    | f where "frame = Inr f" "now < deadline" "fh_message_type (f_header f) = kNodeRegisterAck" "nra_node_id ack = node_id"
      "fst (deserialize_node_register_ack (reader_of (f_payload f))) = Inr ack"
    by (auto simp: fail_with_def split: if_splits sum.splits)
  then show ?case using Cons.IH c by cases (force, auto)
qed simp

lemma try_register_kept:
  assumes "try_register reg ms env s = Some (Inl e, s')"
  shows "\<exists>ch c fs. s' = s\<lparr>nd_channel := ch, nd_send_count := c, nd_sent := fs\<rparr>"
  using assms
  by (cases s) (auto simp: try_register_def Let_def split: if_splits sum.splits prod.splits option.splits dest!: nd_send_frame_kept)

lemma try_register_done:
  assumes "try_register reg ms env s = Some (Inr u, s')"
  shows "\<exists>ack c fs. acknowledged (nd_node_id s) env ack \<and>
    s' = s\<lparr>nd_channel := True, nd_send_count := c, nd_sent := fs, nd_session := nra_session_id ack,
      nd_epoch := nra_coordinator_epoch ack, nd_session_epoch := nra_session_epoch ack, nd_connected := True\<rparr>"
  using assms
  by (cases s) (fastforce simp: try_register_def fail_with_def acknowledged_def Let_def
      split: if_splits sum.splits prod.splits option.splits dest!: nd_send_frame_kept await_ack_received)

lemma accounted_registered [node_simps]:
  "accounted (s\<lparr>nd_channel := ch, nd_send_count := c, nd_sent := fs, nd_session := sid, nd_epoch := e, nd_session_epoch := se, nd_connected := b\<rparr>) = accounted s"
  "accounted (s\<lparr>nd_channel := ch, nd_send_count := c, nd_sent := fs\<rparr>) = accounted s"
  "accounted (s\<lparr>nd_channel := ch\<rparr>) = accounted s"
  by (simp_all add: accounted_def)

lemma stop_end_accounted [node_simps]: "accounted (node_stop_end s) = accounted s"
  by (simp add: accounted_def node_stop_end_def)

lemma start_loop_accounted:
  "start_loop reg deadline last_err envs s = Some (r, s') \<Longrightarrow> accounted s' = accounted s"
proof (induction envs arbitrary: s last_err)
  case (Cons c envs)
  obtain now now1 env where c: "c = (now, now1, env)" by (cases c)
  from Cons.prems c consider "s' = s"
    | e s1 where "try_register reg (min 3000 (deadline - now1)) env s = Some (Inl e, s1)"
        "start_loop reg deadline e envs (s1\<lparr>nd_channel := False\<rparr>) = Some (r, s')"
    | u where "try_register reg (min 3000 (deadline - now1)) env s = Some (Inr u, s')"
    by (auto split: if_splits option.splits sum.splits)
  then show ?case
    by cases (use Cons.IH in \<open>auto simp: node_simps dest!: try_register_kept try_register_done\<close>)
qed simp

lemma start_accounted: "node_start timeout now envs s = Some (r, s') \<Longrightarrow> accounted s' = accounted s"
  by (auto simp: node_start_def fail_with_def split: if_splits dest: start_loop_accounted)

lemma node_step_accounted:
  assumes "node_step net s s'" "accounted s"
  shows "accounted s'"
  using assms(1)
proof cases
  case (cpu_worker x rq)
  have "accounted (callbacks (new_calls (nd_cpu s) x) (s\<lparr>nd_cpu := x\<rparr>))"
    by (rule worker_accounted [OF cpu_worker(2)]) (use assms(2) in \<open>simp_all add: accounted_def missing_def\<close>)
  with cpu_worker(1) show ?thesis by simp
next
  case (cuda_worker x0 x rq)
  have "accounted (callbacks (new_calls x0 x) (s\<lparr>nd_cuda := Some x\<rparr>))"
    by (rule worker_accounted [OF cuda_worker(3)]) (use assms(2) cuda_worker(2) in \<open>simp_all add: accounted_def missing_def cuda_pending_def\<close>)
  with cuda_worker(1) show ?thesis by simp
qed (use assms(2) in \<open>simp_all add: read_accounted heartbeat_accounted completion_accounted node_stop_accounted stop_end_accounted start_accounted\<close>)

lemma start_loop_outcome:
  assumes "start_loop reg deadline last_err envs s = Some (r, s')" "\<not> nd_channel s"
  shows "(case r of
      Inl e \<Rightarrow> \<exists>c fs. s' = s\<lparr>nd_send_count := c, nd_sent := fs\<rparr>
    | Inr _ \<Rightarrow> \<exists>env ack c fs. env \<in> snd ` snd ` set envs \<and> acknowledged (nd_node_id s) env ack \<and>
        s' = s\<lparr>nd_channel := True, nd_send_count := c, nd_sent := fs, nd_session := nra_session_id ack,
          nd_epoch := nra_coordinator_epoch ack, nd_session_epoch := nra_session_epoch ack, nd_connected := True\<rparr>)"
  using assms
proof (induction envs arbitrary: s last_err)
  case (Cons c envs)
  obtain now now1 env where c: "c = (now, now1, env)" by (cases c)
  from Cons.prems(1) c consider (late) "s' = s" "r = Inl last_err"
    | (again) e s1 where "try_register reg (min 3000 (deadline - now1)) env s = Some (Inl e, s1)"
        "start_loop reg deadline e envs (s1\<lparr>nd_channel := False\<rparr>) = Some (r, s')"
    | (registered) u where "try_register reg (min 3000 (deadline - now1)) env s = Some (Inr u, s')" "r = Inr ()"
    by (auto split: if_splits option.splits sum.splits)
  then show ?case
  proof cases
    case late
    then show ?thesis by (cases s) auto
  next
    case again
    from try_register_kept [OF again(1)] Cons.prems(2) obtain k gs where
      s1: "s1\<lparr>nd_channel := False\<rparr> = s\<lparr>nd_send_count := k, nd_sent := gs\<rparr>" by (cases s) auto
    from Cons.IH [OF again(2)] Cons.prems(2) show ?thesis unfolding s1 c by (auto split: sum.splits)
  next
    case registered
    from try_register_done [OF registered(1)] show ?thesis unfolding registered(2) c by auto
  qed
qed simp

lemma hands_idle: "hands (replicate k W_Idle) = {#}"
  by (induction k) (simp_all add: hands_def)

lemma new_node_accounted: "accounted (new_node_runtime config node_id props sends clock)"
  by (auto simp: accounted_def new_node_runtime_def pending_def cuda_pending_def cpu_executor_def cuda_executor_def Let_def
      hands_idle hands_def [of "[]"] hands_def [of "[W_Idle]"] split: option.splits)


definition sample_node_runtime :: NodeRuntime where
  "sample_node_runtime = new_node_runtime default_node_config (Id128 0 9) None (\<lambda>_. None) (\<lambda>_. 0)"

definition sample_dispatch_frame :: Frame where
  "sample_dispatch_frame = make_frame kDispatchAttempt SK_Coordinator id_zero 0 (serialize_dispatch_attempt sample_dispatch)"

lemma sample_dispatch_read: "read_iteration (Inr sample_dispatch_frame) s = handle_dispatch sample_dispatch s"
proof -
  have "dispatch_attempt_fits sample_dispatch" by (simp add: dispatch_attempt_fits_def sample_dispatch_def default_task_fits)
  from dispatch_attempt_codec.decode_encoded [OF this, of "[]"] show ?thesis
    by (simp add: read_iteration_def sample_dispatch_frame_def make_frame_def Let_def)
qed

text \<open>An attempt dispatched under another epoch than the node's is reported as failed at once.\<close>

lemma sample_dispatch_stale: "dpa_coordinator_epoch sample_dispatch \<noteq> nd_epoch sample_node_runtime"
  by (simp add: sample_dispatch_def sample_node_runtime_def new_node_runtime_def)

lemma sample_runtime_simps:
  "nd_dispatched sample_node_runtime = []" "nd_comp_queue sample_node_runtime = []" "\<not> nd_stopping sample_node_runtime"
  "nd_cuda sample_node_runtime = None" "pending (nd_cpu sample_node_runtime) = {#}"
  by (simp_all add: sample_node_runtime_def default_node_config_def new_node_runtime_def cpu_executor_def pending_def hands_def Let_def numeral_2_eq_2)

lemma sample_dispatch_handled:
  "nd_dispatched (handle_dispatch sample_dispatch sample_node_runtime) = [dpa_attempt_id sample_dispatch]"
  "nd_comp_queue (handle_dispatch sample_dispatch sample_node_runtime) = []" "\<not> nd_stopping (handle_dispatch sample_dispatch sample_node_runtime)"
  "pending (nd_cpu (handle_dispatch sample_dispatch sample_node_runtime)) = {#}" "nd_cuda (handle_dispatch sample_dispatch sample_node_runtime) = None"
  using sample_dispatch_stale by (simp_all add: handle_dispatch_def send_failed_def node_simps sample_runtime_simps)


section \<open>Registration\<close>

text \<open>
  C29: a node takes part in the fabric only as the coordinator acknowledged it. If starting succeeds, one of the attempts received a
  register acknowledgement that names this node and carries no error, and the session, the session epoch and the
  coordinator epoch the node then uses are the acknowledged ones. If it fails, in whatever attempt and at whatever point, the node
  is not connected, keeps no channel, and its identity, session and epochs are untouched.
\<close>

theorem registered_as_acknowledged:
  assumes "node_start timeout now envs s = Some (r, s')" "\<not> nd_channel s"
  shows "(case r of
      Inl e \<Rightarrow> nd_connected s' = nd_connected s \<and> \<not> nd_channel s' \<and> nd_session s' = nd_session s \<and> nd_epoch s' = nd_epoch s \<and>
        nd_session_epoch s' = nd_session_epoch s
    | Inr _ \<Rightarrow> nd_connected s' \<and> nd_channel s' \<and> (\<exists>env ack. env \<in> snd ` snd ` set envs \<and> acknowledged (nd_node_id s) env ack \<and>
        nd_session s' = nra_session_id ack \<and> nd_epoch s' = nra_coordinator_epoch ack \<and> nd_session_epoch s' = nra_session_epoch ack)) \<and>
    nd_node_id s' = nd_node_id s"
proof -
  have start: "(if timeout \<le> 0 then Some (fail_with E_InvalidArgument ''registration timeout must be positive'', s)
      else start_loop (registration s) (now + timeout) (make_error E_Timeout ''registration timed out'') envs s) = Some (r, s')"
    using assms(1) unfolding node_start_def .
  show ?thesis
  proof (cases "timeout \<le> 0")
    case True
    have "r = fail_with E_InvalidArgument ''registration timeout must be positive''" "s' = s"
      using start unfolding if_P [OF True] by blast+
    then show ?thesis using assms(2) by (simp add: fail_with_def)
  next
    case False
    have "start_loop (registration s) (now + timeout) (make_error E_Timeout ''registration timed out'') envs s = Some (r, s')"
      using start unfolding if_not_P [OF False] .
    note outcome = start_loop_outcome [OF this assms(2)]
    show ?thesis
    proof (cases r)
      case (Inl e)
      with outcome obtain c fs where "s' = s\<lparr>nd_send_count := c, nd_sent := fs\<rparr>" by auto
      with Inl assms(2) show ?thesis by simp
    next
      case (Inr u)
      with outcome obtain env ack c fs where ack: "env \<in> snd ` snd ` set envs" "acknowledged (nd_node_id s) env ack"
        and "s' = s\<lparr>nd_channel := True, nd_send_count := c, nd_sent := fs, nd_session := nra_session_id ack,
          nd_epoch := nra_coordinator_epoch ack, nd_session_epoch := nra_session_epoch ack, nd_connected := True\<rparr>"
        unfolding Inr sum.case by (elim exE conjE)
      then have "nd_connected s'" "nd_channel s'" "nd_node_id s' = nd_node_id s" "nd_session s' = nra_session_id ack"
        "nd_epoch s' = nra_coordinator_epoch ack" "nd_session_epoch s' = nra_session_epoch ack" by simp_all
      with ack show ?thesis unfolding Inr sum.case by blast
    qed
  qed
qed

definition sample_ack :: NodeRegisterAck where
  "sample_ack = \<lparr>nra_node_id = Id128 0 9, nra_session_id = Id128 0 4, nra_coordinator_epoch = 3, nra_session_epoch = 2, nra_error = []\<rparr>"

definition sample_registration :: RegisterEnv where
  "sample_registration = \<lparr>re_start = 0, re_connect = Inr (), re_before_hello = 1, re_before_register = 2,
     re_frames = [(3, fail_with E_Timeout ''recv timeout''),
       (4, Inr (make_frame kNodeRegisterAck SK_Coordinator id_zero 2 (serialize_node_register_ack sample_ack)))]\<rparr>"

lemma sample_ack_received:
  "await_ack (Id128 0 9) 3000 (re_frames sample_registration) = Some (Inr sample_ack)"
proof -
  have "node_register_ack_fits sample_ack" by (simp add: node_register_ack_fits_def sample_ack_def str_fits_def)
  from node_register_ack_codec.decode_encoded [OF this, of "[]"] show ?thesis
    by (simp add: sample_registration_def make_frame_def fail_with_def make_error_def) (simp add: sample_ack_def)
qed

lemma sample_register:
  "\<exists>s'. try_register reg 3000 sample_registration sample_node_runtime = Some (Inr (), s')"
  using sample_ack_received
  by (simp add: try_register_def sample_registration_def nd_send_frame_def sample_node_runtime_def new_node_runtime_def Let_def)
    (simp add: sample_ack_def)

theorem registered_as_acknowledged_witness:
  "\<exists>s'. node_start 10000 0 [(0, 0, sample_registration)] sample_node_runtime = Some (Inr (), s') \<and>
     nd_connected s' \<and> nd_channel s' \<and> nd_node_id s' = nd_node_id sample_node_runtime"
proof -
  obtain s' where "try_register (registration sample_node_runtime) 3000 sample_registration sample_node_runtime = Some (Inr (), s')"
    using sample_register by blast
  then have run: "node_start 10000 0 [(0, 0, sample_registration)] sample_node_runtime = Some (Inr (), s')"
    by (simp add: node_start_def)
  have "\<not> nd_channel sample_node_runtime" by (simp add: sample_node_runtime_def new_node_runtime_def)
  from registered_as_acknowledged [OF run this] run show ?thesis unfolding sum.case by blast
qed

end
