(* ===== verification/Node_Results.thy ===== *)
theory Node_Results
  imports Node_Runtime
begin

text \<open>
  What a node reports as the result of an attempt is what its kernel computed. The lemmas follow an attempt from the dispatch
  message through the executor's queue, a worker, the completion queue and the frame that is sent, for a
  node whose reader gets dispatch messages only from a given set.
\<close>

section \<open>Results\<close>

text \<open>The digest of the task's kernel: of the CPU kernel run undisturbed, or of a successful run on a CUDA device.\<close>

definition result_of :: "ComputeTask \<Rightarrow> string \<Rightarrow> bool" where
  "result_of task digest \<longleftrightarrow>
     wr_success (run_cpu_kernel task no_token) \<and> digest = wr_checksum_hex (run_cpu_kernel task no_token) \<or>
     (\<exists>ord env. cr_success (fst (cuda_run_vector_transform ord task env 0)) \<and>
        digest = cr_integrity_hex (fst (cuda_run_vector_transform ord task env 0)))"

definition computed :: "ComputeTask \<Rightarrow> AttemptOutcome \<Rightarrow> bool" where
  "computed task out \<longleftrightarrow> (ao_state out = AS_Succeeded \<longrightarrow>
     result_of task (ao_output_integrity out) \<and> str_fits (ao_output_integrity out) \<and> str_fits (ao_device out) \<and>
     list_fits str_fits (ao_notes out))"

lemma kernel_success:
  assumes "wr_success (run_cpu_kernel task polls)"
  shows "run_cpu_kernel task polls = run_cpu_kernel task no_token" "length (wr_checksum_hex (run_cpu_kernel task polls)) = 32"
    "wr_notes (run_cpu_kernel task polls) = []"
  using assms run_kernel_uncancelled [of task]
  by (auto simp: run_cpu_kernel_def run_kernel_polls [of task polls] kernel_refused_def default_workload_result_def Let_def
      hex_digest_def length_hex_bytes split: if_splits option.splits)

lemma cuda_success:
  assumes "cr_success (fst (cuda_run_vector_transform ord task env k))"
  shows "length (cr_integrity_hex (fst (cuda_run_vector_transform ord task env k))) = 32"
  using assms
  by (auto simp: cuda_run_vector_transform_def cuda_alloc_checked_def cuda_failed_def default_cuda_result_def cuda_launches_def host_digest_def
      hex_digest_def length_hex_bytes Let_def split: if_splits option.splits)

lemma short_fits: "length xs \<le> 1000 \<Longrightarrow> str_fits xs"
  by (simp add: str_fits_def kMaxString_def)

lemma length_nat_to_string: "n < 10 ^ k \<Longrightarrow> 0 < k \<Longrightarrow> length (nat_to_string n) \<le> k"
proof (induction k arbitrary: n)
  case (Suc k)
  show ?case
  proof (cases "n < 10")
    case True
    then show ?thesis by (subst nat_to_string.simps) simp
  next
    case False
    then have "0 < k" using Suc.prems by (cases k) auto
    then have "length (nat_to_string (n div 10)) \<le> k" using Suc.prems by (intro Suc.IH) auto
    then show ?thesis using False by (subst nat_to_string.simps) simp
  qed
qed simp

lemma device_fits: "str_fits (''cuda:'' @ int_to_string (sint (ord :: i32)))"
proof (rule short_fits)
  have "nat (abs (sint ord)) < 10 ^ 10"
    using sint_range_size [of ord] by (auto simp: wsst_TYs)
  then have "length (nat_to_string (nat (abs (sint ord)))) \<le> 10" by (rule length_nat_to_string) simp
  then show "length (''cuda:'' @ int_to_string (sint ord)) \<le> 1000" by (auto simp: int_to_string_def)
qed

lemma run_one_computed: "computed (aw_task w) (run_one cancelled polls env micros x w)"
proof (cases "x_kind x")
  case BK_Cpu
  have "list_fits str_fits [[]]" by (simp add: list_fits_def short_fits kMaxList_def)
  then show ?thesis using BK_Cpu kernel_success [of "aw_task w" polls]
    by (auto simp: computed_def run_one_def cpu_outcome_def cancelled_outcome_def default_outcome_def Let_def result_of_def short_fits)
next
  case BK_Cuda
  have "list_fits str_fits []" by (simp add: list_fits_def)
  then show ?thesis using BK_Cuda cuda_success [of "sint (x_device_ordinal x)" "aw_task w" env 0] device_fits [of "x_device_ordinal x"]
    by (auto simp: computed_def run_one_def cuda_outcome_def cancelled_outcome_def default_outcome_def Let_def result_of_def short_fits)
qed

section \<open>Through the executor\<close>

definition held_works :: "Executor \<Rightarrow> AttemptWork set" where
  "held_works x = set_mset (mset (x_queue x) + hands (x_workers x))"

lemma worker_step_calls:
  assumes "worker_step (x, rq) (x', rq')"
  shows "held_works x' \<subseteq> held_works x \<and> (new_calls x x' = [] \<or> (\<exists>w. new_calls x x' = [OnStart w]) \<or>
    (\<exists>w out. new_calls x x' = [OnComplete w out] \<and> w \<in> held_works x \<and> computed (aw_task w) out))"
proof -
  note upd = hands_update [of _ "x_workers x"]
  have sub: "set_mset (hands ((x_workers x)[i := w])) \<subseteq> set_mset (hands (x_workers x)) \<union> set (in_hand w)"
    if "i < length (x_workers x)" for i w
    using arg_cong [OF upd [OF that, of w], of set_mset] by auto
  have hand: "w \<in># hands (x_workers x)" if "i < length (x_workers x)" "in_hand (x_workers x ! i) = [w]" for i w
  proof -
    have "hands (x_workers x) = add_mset w (hands ((x_workers x)[i := W_Idle]))" using upd [OF that(1), of W_Idle] that(2) by simp
    then show ?thesis by simp
  qed
  show ?thesis using assms
  proof cases
    case (take i)
    then show ?thesis using sub [OF take(3), of W_Exited] sub [OF take(3), of "W_Taken (hd (x_queue x))"]
      by (auto simp: new_calls_def held_works_def worker_take_def split: list.splits)
  next
    case (start i w)
    then show ?thesis using sub [OF start(3), of "W_Starting w"] hand [OF start(3)]
      by (auto simp: new_calls_def held_works_def worker_start_def)
  next
    case (check i w)
    then show ?thesis using sub [OF check(3), of "W_Running w (aw_token w \<in> rq)"] hand [OF check(3)]
      by (auto simp: new_calls_def held_works_def worker_check_def)
  next
    case (report i w cancelled polls env micros)
    then show ?thesis using sub [OF report(3), of "W_Reported w"] hand [OF report(3)] run_one_computed
      by (auto simp: new_calls_def held_works_def worker_report_def Let_def)
  next
    case (clear_up i w)
    then show ?thesis using sub [OF clear_up(3), of W_Idle] by (auto simp: new_calls_def held_works_def worker_done_def)
  qed
qed

lemma enqueue_held: "enqueue w x = (r, x') \<Longrightarrow> held_works x' \<subseteq> insert w (held_works x)"
  by (auto simp: enqueue_def held_works_def split: if_splits)

lemma shutdown_held: "exec_shutdown drain x rq = (x', rq') \<Longrightarrow> held_works x' = held_works x"
  by (auto simp: exec_shutdown_def held_works_def split: if_splits)

section \<open>Through the node\<close>

definition from_dispatch :: "DispatchAttempt set \<Rightarrow> AttemptWork \<Rightarrow> bool" where
  "from_dispatch D w \<longleftrightarrow> (\<exists>d \<in> D. aw_task w = dpa_task d \<and> aw_attempt_id w = dpa_attempt_id d)"

definition outcome_for :: "DispatchAttempt set \<Rightarrow> CompletionItem \<Rightarrow> bool" where
  "outcome_for D item \<longleftrightarrow> (\<exists>d \<in> D. ci_attempt_id item = dpa_attempt_id d \<and> computed (dpa_task d) (ci_outcome item))"

definition genuine :: "DispatchAttempt set \<Rightarrow> AttemptComplete \<Rightarrow> bool" where
  "genuine D m \<longleftrightarrow> attempt_complete_fits m \<and>
     (\<exists>d \<in> D. atc_attempt_id m = dpa_attempt_id d \<and> result_of (dpa_task d) (atc_output_integrity m))"

definition genuine_frame :: "DispatchAttempt set \<Rightarrow> Frame \<Rightarrow> bool" where
  "genuine_frame D f \<longleftrightarrow> (fh_message_type (f_header f) = kAttemptComplete \<longrightarrow>
     (\<exists>m. f_payload f = serialize_attempt_complete m \<and> genuine D m))"

definition truthful :: "DispatchAttempt set \<Rightarrow> NodeRuntime \<Rightarrow> bool" where
  "truthful D s \<longleftrightarrow> (\<forall>w \<in> held_works (nd_cpu s). from_dispatch D w) \<and>
     (\<forall>x. nd_cuda s = Some x \<longrightarrow> (\<forall>w \<in> held_works x. from_dispatch D w)) \<and>
     (\<forall>item \<in> set (nd_comp_queue s). outcome_for D item) \<and> (\<forall>f \<in> set (nd_sent s). genuine_frame D f)"

text \<open>What the reader may be given: dispatch messages come from the set.\<close>

definition dispatches_in :: "DispatchAttempt set \<Rightarrow> Frame result \<Rightarrow> bool" where
  "dispatches_in D frame \<longleftrightarrow> (\<forall>f d. frame = Inr f \<longrightarrow> fh_message_type (f_header f) = kDispatchAttempt \<longrightarrow>
     fst (deserialize_dispatch_attempt (reader_of (f_payload f))) = Inr d \<longrightarrow> d \<in> D)"

lemma truthful_mono: "D \<subseteq> E \<Longrightarrow> truthful D s \<Longrightarrow> truthful E s"
  unfolding truthful_def from_dispatch_def outcome_for_def genuine_frame_def genuine_def by (meson subsetD)

named_theorems truth_simps

lemma node_frame_type [simp]: "fh_message_type (f_header (node_frame ty s rid p)) = ty" "f_payload (node_frame ty s rid p) = p"
  by (simp_all add: node_frame_def make_frame_def)

lemma other_frame: "fh_message_type (f_header f) \<noteq> kAttemptComplete \<Longrightarrow> genuine_frame D f"
  by (simp add: genuine_frame_def)

lemmas other_types = kAttemptStarted_def kAttemptComplete_def kAttemptFailed_def kAttemptCancelled_def kReservationRelease_def kNodeHeartbeat_def
  kNodeShutdownAck_def kHello_def kNodeRegister_def

lemma truthful_sent: "truthful D s \<Longrightarrow> genuine_frame D f \<Longrightarrow> nd_send_frame f s = (r, s') \<Longrightarrow> truthful D s'"
  by (auto simp: truthful_def nd_send_frame_def Let_def split: if_splits option.splits)

lemma truthful_send: "truthful D s \<Longrightarrow> genuine_frame D f \<Longrightarrow> truthful D (snd (nd_send_frame f s))"
  by (metis prod.collapse truthful_sent)

lemma truthful_quiet [truth_simps]:
  "truthful D (forget_attempt i s) = truthful D s" "truthful D (request_runtime_stop s) = truthful D s"
  "truthful D (terminate_transport s) = truthful D s" "truthful D (report_for i s) = truthful D s" "truthful D (nd_tick s) = truthful D s"
  "truthful D (node_stop_end s) = truthful D s" "truthful D (nd_handle_cancel c s) = truthful D s"
  "truthful D (s\<lparr>nd_channel := b\<rparr>) = truthful D s" "truthful D (s\<lparr>nd_requests := q\<rparr>) = truthful D s"
  "truthful D (s\<lparr>nd_dispatched := ds\<rparr>) = truthful D s" "truthful D (s\<lparr>nd_dropped := ds\<rparr>) = truthful D s"
  "truthful D (s\<lparr>nd_dispatched := ds, nd_next_token := k, nd_active_tokens := m\<rparr>) = truthful D s"
  "truthful D (s\<lparr>nd_stop_done := b\<rparr>) = truthful D s"
  "truthful D (s\<lparr>nd_session := sid, nd_epoch := e, nd_session_epoch := se, nd_connected := b\<rparr>) = truthful D s"
  by (simp_all add: truthful_def forget_attempt_def request_runtime_stop_def terminate_transport_def report_for_def nd_tick_def
      node_stop_end_def nd_handle_cancel_def split: option.split)

lemma truthful_release [truth_simps]: "truthful D s \<Longrightarrow> truthful D (send_release r t s)"
  unfolding send_release_def by (rule truthful_send) (simp_all add: other_frame other_types)

lemma truthful_started [truth_simps]: "truthful D s \<Longrightarrow> truthful D (send_started i d s)"
  unfolding send_started_def Let_def by (rule truthful_send) (simp_all add: truth_simps other_frame other_types)

lemma truthful_failed [truth_simps]: "truthful D s \<Longrightarrow> truthful D (send_failed i t r k why d s)"
  unfolding send_failed_def
  by (intro truthful_release) (simp add: truth_simps truthful_send other_frame other_types)

lemma truthful_cancelled [truth_simps]: "truthful D s \<Longrightarrow> truthful D (send_cancelled i t r why s)"
  unfolding send_cancelled_def
  by (intro truthful_release) (simp add: truth_simps truthful_send other_frame other_types)

lemma truthful_complete:
  assumes "truthful D s" "outcome_for D item" "ao_state (ci_outcome item) = AS_Succeeded"
  shows "truthful D (send_complete (ci_attempt_id item) t r (ci_outcome item) s)"
proof -
  have "genuine D (complete_message (ci_attempt_id item) t r (ci_outcome item) s)"
    using assms(2,3) by (auto simp: genuine_def outcome_for_def computed_def complete_message_def attempt_complete_fits_def)
  then have "genuine_frame D (node_frame kAttemptComplete s 0 (serialize_attempt_complete (complete_message (ci_attempt_id item) t r (ci_outcome item) s)))"
    by (auto simp: genuine_frame_def)
  then show ?thesis using assms(1) unfolding send_complete_def by (intro truthful_release) (simp add: truth_simps truthful_send)
qed

lemma completion_truthful: "truthful D s \<Longrightarrow> truthful D (completion_iteration s)"
proof (cases "nd_comp_queue s")
  case (Cons item q)
  assume t: "truthful D s"
  then have "truthful D (s\<lparr>nd_comp_queue := q\<rparr>)" "outcome_for D item" by (simp_all add: truthful_def Cons)
  with Cons show ?thesis by (simp add: completion_iteration_def Let_def truth_simps truthful_complete)
qed (simp add: completion_iteration_def)

lemma nd_enqueue_truthful:
  assumes "nd_enqueue kind w s = (r, s')" "truthful D s" "from_dispatch D w"
  shows "truthful D s'"
proof (cases kind)
  case BK_Cpu
  then show ?thesis using assms enqueue_held [of w "nd_cpu s"]
    by (fastforce simp: nd_enqueue_def truthful_def split: prod.splits)
next
  case BK_Cuda
  then show ?thesis using assms enqueue_held [of w "the (nd_cuda s)"]
    by (fastforce simp: nd_enqueue_def truthful_def fail_with_def split: prod.splits option.splits)
qed

lemma dispatch_truthful:
  assumes "truthful D s" "msg \<in> D"
  shows "truthful D (handle_dispatch msg s)"
proof -
  have "from_dispatch D (attempt_work msg tok s1)" for tok s1
    using assms(2) by (auto simp: from_dispatch_def attempt_work_def)
  then show ?thesis using assms(1) unfolding handle_dispatch_def Let_def
    by (auto simp: truth_simps split: option.splits prod.splits sum.splits dest!: nd_enqueue_truthful)
qed

lemma read_truthful:
  assumes "truthful D s" "dispatches_in D frame"
  shows "truthful D (read_iteration frame s)"
proof (cases frame)
  case (Inr f)
  have sent: "truthful D s1" if "nd_send_frame (node_frame kNodeShutdownAck s rid p) s = (r, s1)" for rid p r s1
    using truthful_sent [OF assms(1) other_frame that] by (simp add: other_types)
  have "truthful D (handle_dispatch m s)"
    if "fh_message_type (f_header f) = kDispatchAttempt" "fst (deserialize_dispatch_attempt (reader_of (f_payload f))) = Inr m" for m
    using assms(2) that Inr dispatch_truthful [OF assms(1)] by (auto simp: dispatches_in_def)
  with sent assms(1) show ?thesis unfolding Inr read_iteration_def Let_def
    by (auto simp: truth_simps split: sum.splits prod.splits if_splits)
qed (use assms(1) in \<open>simp add: read_iteration_def truth_simps\<close>)

lemma heartbeat_truthful: "truthful D s \<Longrightarrow> truthful D (heartbeat_iteration outstanding s)"
proof -
  assume t: "truthful D s"
  have "truthful D s1" if "nd_send_frame (node_frame kNodeHeartbeat s 0 p) s = (r, s1)" for p r s1
    using truthful_sent [OF t other_frame that] by (simp add: other_types)
  with t show ?thesis by (auto simp: heartbeat_iteration_def truth_simps split: sum.splits prod.splits)
qed

lemma on_complete_truthful: "truthful D s \<Longrightarrow> from_dispatch D w \<Longrightarrow> computed (aw_task w) out \<Longrightarrow> truthful D (on_complete w out s)"
  by (auto simp: on_complete_def Let_def truth_simps) (auto simp: truthful_def outcome_for_def from_dispatch_def)

lemma worker_truthful:
  assumes "worker_step (x, rq) (x', rq')" "truthful D s" "\<forall>w \<in> held_works x. from_dispatch D w"
  shows "truthful D (callbacks (new_calls x x') s)"
  using worker_step_calls [OF assms(1)] assms(2,3)
  by (elim conjE disjE exE) (simp_all add: on_start_def Let_def truth_simps on_complete_truthful)

lemma stop_truthful: "truthful D s \<Longrightarrow> truthful D (node_stop s)"
  using shutdown_held
  by (auto simp: node_stop_def stop_executors_def Let_def truthful_def request_runtime_stop_def split: option.splits prod.splits)

lemma try_register_truthful:
  assumes "try_register reg ms env s = Some (r, s')" "truthful D s"
  shows "truthful D s'"
proof -
  have sent: "truthful D s1" if "nd_send_frame (node_frame ty s2 rid p) s3 = (q, s1)" "truthful D s3" "ty = kHello \<or> ty = kNodeRegister" for ty s2 rid p s3 q s1
    using truthful_sent [OF that(2) other_frame that(1)] that(3) by (auto simp: other_types)
  have c: "truthful D (s\<lparr>nd_channel := True\<rparr>)" using assms(2) by (simp add: truth_simps)
  from assms sent show ?thesis unfolding try_register_def Let_def
    by (auto simp: truth_simps split: if_splits sum.splits prod.splits option.splits intro: c)
qed

lemma start_truthful: "node_start timeout now envs s = Some (r, s') \<Longrightarrow> truthful D s \<Longrightarrow> truthful D s'"
proof -
  have "truthful D s'" if "start_loop reg deadline e envs s = Some (r, s')" "truthful D s" for reg deadline e s
    using that
  proof (induction envs arbitrary: s e)
    case (Cons c envs)
    obtain a b env where c: "c = (a, b, env)" by (cases c)
    from Cons.prems(1) c consider "s' = s" | q s1 where "try_register reg (min 3000 (deadline - b)) env s = Some (q, s1)"
        "s' = s1 \<or> (\<exists>e. start_loop reg deadline e envs (s1\<lparr>nd_channel := False\<rparr>) = Some (r, s'))"
      by (auto split: if_splits option.splits sum.splits; blast)
    then show ?case
      by cases (use Cons in \<open>auto simp: truth_simps dest: try_register_truthful\<close>)
  qed simp
  then show "node_start timeout now envs s = Some (r, s') \<Longrightarrow> truthful D s \<Longrightarrow> truthful D s'"
    unfolding node_start_def by (metis Pair_inject option.inject)
qed

lemma node_step_truthful:
  assumes "node_step (dispatches_in D) s s'" "truthful D s"
  shows "truthful D s'"
  using assms(1)
proof cases
  case (cpu_worker x rq)
  have "truthful D (s\<lparr>nd_cpu := x\<rparr>)" using worker_step_calls [OF cpu_worker(2)] assms(2) by (auto simp: truthful_def)
  then show ?thesis unfolding cpu_worker(1) by (rule worker_truthful [OF cpu_worker(2)]) (use assms(2) in \<open>simp add: truthful_def\<close>)
next
  case (cuda_worker x0 x rq)
  have "truthful D (s\<lparr>nd_cuda := Some x\<rparr>)" using worker_step_calls [OF cuda_worker(3)] assms(2) cuda_worker(2) by (auto simp: truthful_def)
  then show ?thesis unfolding cuda_worker(1) by (rule worker_truthful [OF cuda_worker(3)]) (use assms(2) cuda_worker(2) in \<open>simp add: truthful_def\<close>)
qed (use assms(2) in \<open>auto simp: truth_simps read_truthful heartbeat_truthful completion_truthful stop_truthful intro: start_truthful\<close>)

lemma new_node_truthful: "truthful D (new_node_runtime config node_id props sends clock)"
  by (auto simp: truthful_def new_node_runtime_def held_works_def cpu_executor_def cuda_executor_def Let_def
      hands_idle hands_def [of "[]"] hands_def [of "[W_Idle]"] split: option.splits if_splits)

end
