(* ===== verification/Fabric_System.thy ===== *)
theory Fabric_System
  imports Coordinator_Tasks Node_Results
begin

text \<open>
  The coordinator and its nodes together. A system step is a step of one thread of the coordinator or of one node, or a new
  node; the readers get either an error or a frame that the other side has written, in any order and any number of times,
  which is what the framing and checksums of \<open>channel.cpp\<close> give them over any network. Clients may send anything.
\<close>

section \<open>The composed system\<close>

record System =
  sys_threads :: "(handle, ReaderThread) omap"
  sys_coordinator :: Coordinator
  sys_nodes :: "NodeRuntime list"
  sys_written :: "Frame list"

definition from_nodes :: "System \<Rightarrow> Frame result \<Rightarrow> bool" where
  "from_nodes S frame = (case frame of Inl _ \<Rightarrow> True | Inr f \<Rightarrow> list_ex (\<lambda>n. f \<in> set (nd_sent n)) (sys_nodes S))"

definition from_coordinator :: "System \<Rightarrow> Frame result \<Rightarrow> bool" where
  "from_coordinator S frame = (case frame of Inl _ \<Rightarrow> True | Inr f \<Rightarrow> f \<in> set (sys_written S))"

inductive system_step :: "System \<Rightarrow> System \<Rightarrow> bool" where
  core: "co_core_running (sys_coordinator S) \<Longrightarrow> system_step S (S\<lparr>sys_coordinator := core_iteration (sys_coordinator S)\<rparr>)"
| accept_node_conn: "\<not> co_stopping (sys_coordinator S) \<Longrightarrow> map_of (co_conns (sys_coordinator S)) h = None \<Longrightarrow>
    accept_node h (sys_coordinator S) = (t, s') \<Longrightarrow> system_step S (S\<lparr>sys_threads := omap_put h t (sys_threads S), sys_coordinator := s'\<rparr>)"
| accept_client_conn: "\<not> co_stopping (sys_coordinator S) \<Longrightarrow> map_of (co_conns (sys_coordinator S)) h = None \<Longrightarrow>
    accept_client h (sys_coordinator S) = (t, s') \<Longrightarrow> system_step S (S\<lparr>sys_threads := omap_put h t (sys_threads S), sys_coordinator := s'\<rparr>)"
| reader: "map_of (sys_threads S) h = Some t \<Longrightarrow> rt_node t \<longrightarrow> from_nodes S frame \<Longrightarrow>
    reader_step h frame t (sys_coordinator S) = (t', s') \<Longrightarrow>
    system_step S (S\<lparr>sys_threads := omap_put h t' (sys_threads S), sys_coordinator := s'\<rparr>)"
| writer_takes: "map_of (co_conns (sys_coordinator S)) h = Some c \<Longrightarrow> writer_take c = Some (frame, c') \<Longrightarrow>
    system_step S (S\<lparr>sys_coordinator := (sys_coordinator S)\<lparr>co_conns := omap_put h c' (co_conns (sys_coordinator S))\<rparr>,
      sys_written := sys_written S @ [frame]\<rparr>)"
| writer_done: "system_step S (S\<lparr>sys_coordinator := update_conn h (writer_sent ok) (sys_coordinator S)\<rparr>)"
| stop: "system_step S (S\<lparr>sys_coordinator := coordinator_stop (sys_coordinator S)\<rparr>)"
| join: "system_step S (S\<lparr>sys_nodes := sys_nodes S @ [new_node_runtime config node_id props sends clock]\<rparr>)"
| node: "k < length (sys_nodes S) \<Longrightarrow> node_step (from_coordinator S) (sys_nodes S ! k) n' \<Longrightarrow>
    system_step S (S\<lparr>sys_nodes := (sys_nodes S)[k := n']\<rparr>)"

abbreviation system_run :: "System \<Rightarrow> System \<Rightarrow> bool" where
  "system_run \<equiv> system_step\<^sup>*\<^sup>*"

text \<open>A coordinator that has started and has neither connections nor nodes yet; its ledger may hold what a restart recovered.\<close>

definition system_start :: "System \<Rightarrow> bool" where
  "system_start S \<longleftrightarrow> ledger_inv (ledger_of (sys_coordinator S)) \<and> co_conns (sys_coordinator S) = [] \<and>
     co_queue (sys_coordinator S) = [] \<and> sys_nodes S = [] \<and> sys_written S = []"

section \<open>The coordinator's part of a step\<close>

lemma system_step_fabric:
  "system_step S S' \<Longrightarrow> fabric_step (sys_threads S, sys_coordinator S) (sys_threads S', sys_coordinator S') \<or>
     sys_threads S' = sys_threads S \<and> sys_coordinator S' = sys_coordinator S"
  by (induction rule: system_step.induct) (auto intro: fabric_step.intros)

lemma system_step_ledger:
  "system_step S S' \<Longrightarrow> ledger_inv (ledger_of (sys_coordinator S)) \<Longrightarrow>
   ledger_steps True (ledger_of (sys_coordinator S)) (ledger_of (sys_coordinator S'))"
  using system_step_fabric fabric_step_ledger by fastforce

section \<open>Invariant\<close>

abbreviation dispatched :: "ledger \<Rightarrow> DispatchAttempt set" where
  "dispatched l \<equiv> {m. recorded l m}"

definition backed :: "DispatchAttempt set \<Rightarrow> ExecutionAttempt \<Rightarrow> bool" where
  "backed D a \<longleftrightarrow> (\<exists>d \<in> D. a_id a = dpa_attempt_id d \<and> result_of (dpa_task d) (a_output_integrity a))"

definition results_backed :: "attempts \<Rightarrow> ledger \<Rightarrow> bool" where
  "results_backed m0 l \<longleftrightarrow> (\<forall>i n. is_committed (snd l) i n \<longrightarrow> is_committed m0 i n \<or> backed (dispatched l) (attempt_no (snd l) i n))"

definition genuine_command :: "DispatchAttempt set \<Rightarrow> CoreCommand \<Rightarrow> bool" where
  "genuine_command D cmd \<longleftrightarrow> command_fits cmd \<and> (\<forall>c rid m. cmd = CK_AttemptComplete c rid m \<longrightarrow> genuine D m)"

text \<open>
  Nothing in the system claims what did not happen: dispatches on their way are for attempts on file, the nodes hold only
  work that was dispatched, and the completions on their way carry the results of the kernels.
\<close>

definition in_order :: "System \<Rightarrow> bool" where
  "in_order S \<longleftrightarrow>
     (let s = sys_coordinator S; l = ledger_of s in
      ledger_inv l \<and> within_limits (genuine_command (dispatched l)) s \<and>
      (\<forall>f \<in> set (sys_written S). fh_message_type (f_header f) = kDispatchAttempt \<longrightarrow> recorded_frame l f) \<and>
      (\<forall>n \<in> set (sys_nodes S). truthful (dispatched l) n))"

definition sound :: "attempts \<Rightarrow> System \<Rightarrow> bool" where
  "sound m0 S \<longleftrightarrow> in_order S \<and> results_backed m0 (ledger_of (sys_coordinator S))"

lemma genuine_mono: "D \<subseteq> E \<Longrightarrow> genuine D m \<Longrightarrow> genuine E m"
  unfolding genuine_def by blast

lemma genuine_command_mono: "D \<subseteq> E \<Longrightarrow> genuine_command D cmd \<Longrightarrow> genuine_command E cmd"
  unfolding genuine_command_def using genuine_mono by blast

lemma backed_mono: "D \<subseteq> E \<Longrightarrow> backed D a \<Longrightarrow> backed E a"
  unfolding backed_def by blast

lemma dispatched_keeps: "ledger_keeps l l' \<Longrightarrow> dispatched l \<subseteq> dispatched l'"
  using recorded_keeps by blast

text \<open>Frames decode to what was encoded.\<close>

lemma written_dispatches:
  assumes "from_coordinator S frame" "\<forall>f \<in> set (sys_written S). fh_message_type (f_header f) = kDispatchAttempt \<longrightarrow> recorded_frame l f"
    "descriptors_fit (fst l)"
  shows "dispatches_in (dispatched l) frame"
  unfolding dispatches_in_def
  using assms recorded_decodes [OF _ assms(3)] by (fastforce simp: from_coordinator_def)

lemma sent_completions:
  assumes "from_nodes S (Inr f)" "\<forall>n \<in> set (sys_nodes S). truthful D n" "node_command h f = Some (CK_AttemptComplete c rid m)"
  shows "genuine D m"
proof -
  have ty: "fh_message_type (f_header f) = kAttemptComplete" "fst (deserialize_attempt_complete (reader_of (f_payload f))) = Inr m"
    using assms(3) by (auto simp: node_command_def decoded_def Let_def split: if_splits sum.splits)
  obtain n where "n \<in> set (sys_nodes S)" "f \<in> set (nd_sent n)"
    using assms(1) by (auto simp: from_nodes_def list_ex_iff)
  then have "genuine_frame D f" using assms(2) unfolding truthful_def by blast
  then obtain m' where m': "f_payload f = serialize_attempt_complete m'" "genuine D m'"
    using ty(1) unfolding genuine_frame_def by blast
  then have "attempt_complete_fits m'" by (simp add: genuine_def)
  from attempt_complete_codec.decode_encoded [OF this, of "[]"] ty(2) m' show ?thesis by simp
qed

section \<open>Every step keeps the invariant\<close>

lemma node_step_mono: "node_step net s s' \<Longrightarrow> (\<And>f. net f \<Longrightarrow> net' f) \<Longrightarrow> node_step net' s s'"
  by (induction rule: node_step.induct) (auto intro: node_step.intros)

lemma sound_coordinator:
  assumes "sound m0 S" "ledger_steps C (ledger_of (sys_coordinator S)) (ledger_of s')"
    "within_limits (genuine_command (dispatched (ledger_of (sys_coordinator S)))) s'"
    "\<And>i n. is_committed (co_attempts s') i n \<Longrightarrow> \<not> is_committed (co_attempts (sys_coordinator S)) i n \<Longrightarrow>
       \<exists>co. genuine (dispatched (ledger_of (sys_coordinator S))) co \<and> carries (attempt_no (co_attempts s') i n) co"
    "\<And>f. f \<in> set w \<Longrightarrow> f \<in> set (sys_written S) \<or> (fh_message_type (f_header f) = kDispatchAttempt \<longrightarrow> recorded_frame (ledger_of s') f)"
  shows "sound m0 (S\<lparr>sys_threads := ts', sys_coordinator := s', sys_written := w\<rparr>)"
proof -
  let ?l = "ledger_of (sys_coordinator S)" and ?l' = "ledger_of s'"
  note parts = assms(1) [unfolded sound_def in_order_def Let_def]
  have inv: "ledger_inv ?l" using parts by (elim conjE)
  have k: "ledger_keeps ?l ?l'" by (rule ledger_steps_keep [OF assms(2) inv])
  note D = dispatched_keeps [OF k]
  have "traffic_ok (recorded_frame ?l') (genuine_command (dispatched ?l')) s'"
    using conjunct1 [OF assms(3) [unfolded within_limits_def]]
    by (rule traffic_mono) (assumption, erule genuine_command_mono [OF D])
  then have "within_limits (genuine_command (dispatched ?l')) s'" using assms(3) unfolding within_limits_def by blast
  moreover have "recorded_frame ?l' f" if "f \<in> set w" "fh_message_type (f_header f) = kDispatchAttempt" for f
    using assms(5) [OF that(1)] that(2) parts recorded_frame_keeps [OF k] by blast
  moreover have "\<forall>n \<in> set (sys_nodes S). truthful (dispatched ?l') n" using parts truthful_mono [OF D] by blast
  moreover have "is_committed m0 i n \<or> backed (dispatched ?l') (attempt_no (snd ?l') i n)" if c: "is_committed (snd ?l') i n" for i n
  proof (cases "is_committed (snd ?l) i n")
    case True
    then show ?thesis using parts committed_kept [OF k True] backed_mono [OF D]
      unfolding results_backed_def backed_def by fastforce
  next
    case False
    then obtain co where "genuine (dispatched ?l) co" "carries (attempt_no (snd ?l') i n) co"
      using assms(4) [unfolded co_attempts_ledger, OF c] by blast
    then have "backed (dispatched ?l) (attempt_no (snd ?l') i n)" unfolding backed_def genuine_def carries_def by auto
    then show ?thesis using backed_mono [OF D] by blast
  qed
  ultimately show ?thesis using ledger_steps_inv [OF assms(2) inv] unfolding sound_def in_order_def Let_def results_backed_def by simp
qed

lemma sound_quiet:
  assumes "sound m0 S" "ledger_of s' = ledger_of (sys_coordinator S)"
    "traffic_ok (recorded_frame (ledger_of (sys_coordinator S))) (genuine_command (dispatched (ledger_of (sys_coordinator S)))) s'"
    "\<And>f. f \<in> set w \<Longrightarrow> f \<in> set (sys_written S) \<or> (fh_message_type (f_header f) = kDispatchAttempt \<longrightarrow> recorded_frame (ledger_of s') f)"
  shows "sound m0 (S\<lparr>sys_threads := ts', sys_coordinator := s', sys_written := w\<rparr>)"
proof -
  have "descriptors_fit (co_graph s')" using assms(1,2) by (simp add: sound_def in_order_def within_limits_def ledger_of_def Let_def)
  then show ?thesis
    by (intro sound_coordinator [OF assms(1)]) (use assms in \<open>simp_all add: within_limits_def co_attempts_ledger\<close>)
qed

lemma sound_core:
  assumes "sound m0 S"
  shows "sound m0 (S\<lparr>sys_threads := sys_threads S, sys_coordinator := core_iteration (sys_coordinator S), sys_written := sys_written S\<rparr>)"
proof (rule sound_coordinator [OF assms])
  let ?s = "sys_coordinator S"
  have inv: "ledger_inv (ledger_of ?s)" and w: "within_limits (genuine_command (dispatched (ledger_of ?s))) ?s"
    using assms unfolding sound_def in_order_def Let_def by blast+
  then have ok: "traffic_ok (recorded_frame (ledger_of ?s)) (genuine_command (dispatched (ledger_of ?s))) ?s" by (simp add: within_limits_def)
  show "ledger_steps True (ledger_of ?s) (ledger_of (core_iteration ?s))" by (rule refinesD [OF refines_core_iteration inv])
  have "descriptors_fit (co_graph (core_iteration ?s))"
    by (rule descriptors_fit_core [OF _ _ ok]) (use inv w in \<open>auto simp: ledger_inv_def ledger_of_def within_limits_def genuine_command_def\<close>)
  then show "within_limits (genuine_command (dispatched (ledger_of ?s))) (core_iteration ?s)"
    using sends_recordedD [OF sends_core_iteration inv ok] by (simp add: within_limits_def)
  show "\<exists>co. genuine (dispatched (ledger_of ?s)) co \<and> carries (attempt_no (co_attempts (core_iteration ?s)) i n) co"
    if new: "is_committed (co_attempts (core_iteration ?s)) i n" "\<not> is_committed (co_attempts ?s) i n" for i n
  proof -
    obtain c rid co where co: "CK_AttemptComplete c rid co \<in> set (co_queue ?s)" "carries (attempt_no (co_attempts (core_iteration ?s)) i n) co"
      using core_carries [OF inv new] by blast
    then have "genuine_command (dispatched (ledger_of ?s)) (CK_AttemptComplete c rid co)" using ok unfolding traffic_ok_def by auto
    then show ?thesis using co(2) unfolding genuine_command_def by blast
  qed
qed simp

lemma sound_step:
  assumes "system_step S S'" "sound m0 S"
  shows "sound m0 S'"
proof -
  let ?s = "sys_coordinator S" and ?l = "ledger_of (sys_coordinator S)"
  note parts = assms(2) [unfolded sound_def in_order_def Let_def]
  have ok: "traffic_ok (recorded_frame ?l) (genuine_command (dispatched ?l)) ?s" and fit: "descriptors_fit (fst ?l)"
    using parts by (simp_all add: within_limits_def ledger_of_def)
  note quiet = sound_quiet [OF assms(2)]
  show ?thesis using assms(1)
  proof cases
    case core
    then show ?thesis using sound_core [OF assms(2)] by simp
  next
    case (accept_node_conn h t s')
    then show ?thesis using quiet [of s' "sys_written S" "omap_put h t (sys_threads S)"] traffic_accept(1) [OF ok, of h]
      by (auto simp: accept_node_def ledger_simps)
  next
    case (accept_client_conn h t s')
    then show ?thesis using quiet [of s' "sys_written S" "omap_put h t (sys_threads S)"] traffic_accept(2) [OF ok, of h]
      by (auto simp: accept_client_def ledger_simps)
  next
    case (reader h t frame t' s')
    have "genuine (dispatched ?l) m" if "rt_node t" "frame = Inr f" "node_command h f = Some (CK_AttemptComplete c rid m)" for f c rid m
      using sent_completions [of S f] reader(3) that parts by blast
    moreover have "client_command h f \<noteq> Some (CK_AttemptComplete c rid m)" for f c rid m
      by (auto simp: client_command_def decoded_def Let_def split: sum.split)
    ultimately have "genuine_command (dispatched ?l) cmd"
      if "frame = Inr f" "(if rt_node t then node_command h f else client_command h f) = Some cmd" for f cmd
      using that by (auto simp: genuine_command_def split: if_splits intro: node_command_fits client_command_fits)
    then have "traffic_ok (recorded_frame ?l) (genuine_command (dispatched ?l)) (snd (reader_step h frame t ?s))"
      by (rule traffic_reader_step [OF ok])
    then show ?thesis using reader quiet [of s' "sys_written S" "omap_put h t' (sys_threads S)"] ledger_of_reader_step [of h frame t ?s] by simp
  next
    case (writer_takes h c frame c')
    let ?s' = "?s\<lparr>co_conns := omap_put h c' (co_conns ?s)\<rparr>"
    have "sound m0 (S\<lparr>sys_threads := sys_threads S, sys_coordinator := ?s', sys_written := sys_written S @ [frame]\<rparr>)"
      by (rule quiet) (use traffic_take [OF ok writer_takes(2,3)] in \<open>auto simp: ledger_simps\<close>)
    then show ?thesis using writer_takes by simp
  next
    case (writer_done h ok')
    then show ?thesis using quiet [of "update_conn h (writer_sent ok') ?s" "sys_written S" "sys_threads S"] traffic_sent [OF ok] by (simp add: ledger_simps)
  next
    case stop
    then show ?thesis using quiet [of "coordinator_stop ?s" "sys_written S" "sys_threads S"] traffic_stop [OF ok] by (simp add: ledger_of_stop)
  next
    case (join config node_id props sends clock)
    then show ?thesis using parts new_node_truthful by (auto simp: sound_def in_order_def Let_def)
  next
    case (node k n')
    have "dispatches_in (dispatched ?l) f" if "from_coordinator S f" for f
      using written_dispatches [OF that _ fit] parts by blast
    then have "truthful (dispatched ?l) n'"
      using node_step_truthful [OF node_step_mono [OF node(3)]] parts node(2) by (meson nth_mem)
    then show ?thesis using parts set_update_subset_insert [of "sys_nodes S" k n'] unfolding node(1) sound_def in_order_def Let_def by auto
  qed
qed

lemma sound_run: "system_run S S' \<Longrightarrow> sound m0 S \<Longrightarrow> sound m0 S'"
  by (induction rule: rtranclp_induct) (auto intro: sound_step)

lemma start_in_order: "system_start S \<Longrightarrow> descriptors_fit (co_graph (sys_coordinator S)) \<Longrightarrow> in_order S"
  by (simp add: in_order_def system_start_def within_limits_def traffic_ok_def Let_def)

section \<open>Committed results\<close>

text \<open>No attempt of another task has the id of this one: ids are 128-bit random numbers.\<close>

definition id_of_one_task :: "attempts \<Rightarrow> ComputeTaskId \<Rightarrow> ExecutionAttemptId \<Rightarrow> bool" where
  "id_of_one_task m i x = list_all (\<lambda>e. fst e = i \<or> x \<notin> a_id ` set (snd e)) m"

lemma one_taskD: "id_of_one_task m i x \<Longrightarrow> b \<in> set (attempts_of m j) \<Longrightarrow> a_id b = x \<Longrightarrow> j = i"
  by (cases "map_of m j") (force simp: id_of_one_task_def list_all_iff attempts_of_def omap_get_or_def dest: map_of_SomeD)+


text \<open>A coordinator whose only task runs, with the completion of its attempt in the queue.\<close>

definition working_task :: ComputeTask where
  "working_task = sample_kernel_task\<lparr>t_id := Id128 0 1\<rparr>"

definition working_completion :: AttemptComplete where
  "working_completion = sample_completion\<lparr>atc_output_integrity := wr_checksum_hex (run_cpu_kernel working_task no_token)\<rparr>"

definition working_coordinator :: Coordinator where
  "working_coordinator = empty_coordinator\<lparr>co_graph := restore_state (Id128 0 1) TS_Running (snd (add_task working_task graph_empty)),
     co_attempts := [(Id128 0 1, [running_attempt])], co_core_running := True,
     co_queue := [CK_AttemptComplete None 3 working_completion]\<rparr>"

definition working_system :: System where
  "working_system = \<lparr>sys_threads = [], sys_coordinator = working_coordinator, sys_nodes = [], sys_written = []\<rparr>"

lemma working_kernel:
  "wr_success (run_cpu_kernel working_task no_token)" "length (wr_checksum_hex (run_cpu_kernel working_task no_token)) = 32"
proof -
  obtain a where "run_kernel working_task no_token = Some (Some a)"
    using run_kernel_uncancelled [of working_task] by (auto simp: working_task_def sample_kernel_task_def)
  then show "wr_success (run_cpu_kernel working_task no_token)"
    by (simp add: run_cpu_kernel_def working_task_def sample_kernel_task_def kernel_n_def kMaxElements_def default_workload_result_def Let_def)
  then show "length (wr_checksum_hex (run_cpu_kernel working_task no_token)) = 32" by (rule kernel_success(2))
qed

lemma working_graph:
  "co_graph working_coordinator = \<lparr>g_tasks = [(Id128 0 1, working_task)], g_states = [(Id128 0 1, TS_Running)],
     g_deps = [(Id128 0 1, [])], g_dependents = []\<rparr>"
proof -
  have "t_id working_task = Id128 0 1" "t_dependencies working_task = []"
    by (simp_all add: working_task_def sample_kernel_task_def default_task_def)
  then show ?thesis
    by (simp add: working_coordinator_def restore_state_def add_task_def insert_task_def graph_empty_def omap_has_def omap_get_or_def
        validate_dependencies_def dfs_def Let_def)
qed

lemma working_attempts:
  "attempts_of (co_attempts working_coordinator) i = (if i = Id128 0 1 then [running_attempt] else [])"
  "co_queue working_coordinator = [CK_AttemptComplete None 3 working_completion]" "co_conns working_coordinator = []"
  "co_cancel_requested working_coordinator = []" "epoch working_coordinator = 1" "co_core_running working_coordinator"
  by (simp_all add: working_coordinator_def attempts_of_def omap_get_or_def empty_coordinator_def new_coordinator_def epoch_def default_durable_def)

lemma working_inv: "ledger_inv (ledger_of working_coordinator)"
proof -
  have "graph_inv (co_graph working_coordinator)"
    by (simp add: working_coordinator_def restore_state_inv add_task_inv graph_inv_empty)
  moreover have "omap_ok (co_attempts working_coordinator)" by (simp add: working_coordinator_def omap_ok_def)
  ultimately show ?thesis
    by (simp add: ledger_inv_def ledger_of_def filed_def attempted_def ordered_def results_kept_def satisfied_iff working_attempts
        working_graph has_task_def omap_has_def task_state_def dependencies_def past_waiting_def running_attempt_def split: option.split)
qed

lemma working_in_order: "in_order working_system"
proof -
  have t: "find_task (co_graph working_coordinator) i = (if i = Id128 0 1 then Some working_task else None)" for i
    by (simp add: find_task_def working_graph)
  have id: "t_id working_task = Id128 0 1" by (simp add: working_task_def)
  have "task_fits working_task"
    by (simp add: working_task_def sample_kernel_task_def default_task_def task_fits_def str_fits_def list_fits_def map_fits_def)
  then have fit: "descriptors_fit (co_graph working_coordinator)" by (simp add: descriptors_fit_def t)
  have "result_of working_task (atc_output_integrity working_completion)"
    using working_kernel(1) by (simp add: result_of_def working_completion_def)
  moreover have "attempt_complete_fits working_completion"
    using working_kernel(2) by (simp add: attempt_complete_fits_def working_completion_def sample_completion_def short_fits list_fits_def)
  moreover have "recorded (ledger_of working_coordinator) \<lparr>dpa_task = working_task, dpa_attempt_id = Id128 0 9,
      dpa_reservation_id = Id128 0 5, dpa_coordinator_epoch = 1, dpa_attempt_number = 0\<rparr>"
    by (simp add: recorded_def ledger_of_def id t working_attempts running_attempt_def)
  ultimately have "genuine (dispatched (ledger_of working_coordinator)) working_completion"
    unfolding genuine_def by (intro conjI bexI) (auto simp: working_completion_def sample_completion_def)
  with working_inv fit show ?thesis
    by (simp add: in_order_def working_system_def within_limits_def traffic_ok_def working_attempts genuine_command_def genuine_def Let_def)
qed

lemma working_commits:
  "is_committed (co_attempts (core_iteration working_coordinator)) (Id128 0 1) 0"
  "\<not> is_committed (co_attempts working_coordinator) (Id128 0 1) 0"
proof -
  let ?s = "working_coordinator\<lparr>co_queue := []\<rparr>" and ?cmd = "CK_AttemptComplete None 3 working_completion"
  have inv: "ledger_inv (ledger_of ?s)" using working_inv by (simp add: ledger_simps)
  have a: "attempt_at (co_attempts working_coordinator) (Id128 0 1, 0) = running_attempt" by (simp add: attempt_at_nth working_attempts)
  have f: "find_active_attempt (atc_attempt_id working_completion) (co_attempts ?s) = Some (Id128 0 1, 0)"
    using a by (simp add: find_active_attempt_def attempt_refs_def working_coordinator_def running_attempt_def
        working_completion_def sample_completion_def)
  have e: "epoch ?s = 1" using working_attempts(5) by (simp add: epoch_def)
  have "task_state (co_graph ?s) (Id128 0 1) = TS_Running" by (simp add: working_graph task_state_def)
  then have "\<not> a_committed running_attempt" "completion_refused working_completion running_attempt ?s = None"
    by (simp_all add: completion_refused_def e running_attempt_def default_attempt_def working_completion_def sample_completion_def)
  then have "snd (ledger_of (process ?cmd ?s)) = snd (ledger_of (commit_attempt (Id128 0 1, 0) working_completion ?s))"
    using attempts_after_completion [OF f, of None 3] by (simp add: process_def a working_attempts)
  then have "is_committed (snd (ledger_of (process ?cmd ?s))) (Id128 0 1) 0"
    by (simp add: commit_attempt_def ledger_simps ledger_of_update_attempt is_committed_def)
      (simp add: co_attempts_ledger [symmetric] working_attempts)
  then have "is_committed (snd (ledger_of (maybe_sweep (process ?cmd ?s)))) (Id128 0 1) 0"
    using committed_kept [OF ledger_steps_keep [OF refinesD [OF refines_maybe_sweep]]] refines_inv [OF refines_process inv] by blast
  then show "is_committed (co_attempts (core_iteration working_coordinator)) (Id128 0 1) 0"
    by (simp add: core_iteration_def working_attempts Let_def co_attempts_ledger)
  show "\<not> is_committed (co_attempts working_coordinator) (Id128 0 1) 0"
    by (simp add: is_committed_def working_attempts running_attempt_def default_attempt_def)
qed


end
