(* ===== verification/Client.thy ===== *)
theory Client
  imports Channel Messages
begin

text \<open>
  The synchronous client of the control plane (\<open>net/client.h\<close>, \<open>net/client.cpp\<close>): connecting, the
  request loop that waits for the frame with its own request identifier, the ten typed calls, and polling for nodes.

  \<^item> The client owns its channel, so \<open>channel_ && channel_->valid()\<close> is one flag of the state.
  \<^item> A request takes from its environment the clock at its start, the result of sending, and for each iteration of its loop
    the clock it reads and what \<open>recv_frame\<close> returned. A request that needs more iterations than it is given has not returned (\<open>None\<close>).
\<close>

section \<open>State and requests\<close>

record FabricClient =
  fc_host :: string
  fc_port :: u16
  fc_open :: bool
  fc_client_id :: Id128
  fc_next_request_id :: u64

definition new_client :: "string \<Rightarrow> u16 \<Rightarrow> FabricClient" where
  "new_client host port = \<lparr>fc_host = host, fc_port = port, fc_open = False, fc_client_id = id_zero, fc_next_request_id = 1\<rparr>"

definition fc_close :: "FabricClient \<Rightarrow> FabricClient" where
  "fc_close c = c\<lparr>fc_open := False\<rparr>"

text \<open>Connecting: the clock at the start and before the greeting, the result of the TCP connection, a random identity, the result of sending.\<close>

record HelloEnv =
  he_start :: int
  he_connect :: "unit result"
  he_random :: Id128
  he_before_hello :: int
  he_sent :: "unit result"

definition fc_connect :: "int \<Rightarrow> HelloEnv \<Rightarrow> FabricClient \<Rightarrow> unit result \<times> FabricClient" where
  "fc_connect timeout_ms env c =
     (let c = fc_close c in
      if timeout_ms \<le> 0 then (fail_with E_Timeout ''connect deadline elapsed'', c)
      else case he_connect env of
        Inl e \<Rightarrow> (Inl e, c)
      | Inr _ \<Rightarrow>
        if he_start env + timeout_ms - he_before_hello env \<le> 0 then (fail_with E_Timeout ''connect deadline elapsed before Hello'', c)
        else case he_sent env of
          Inl e \<Rightarrow> (Inl e, c)
        | Inr _ \<Rightarrow> (Inr (), c\<lparr>fc_open := True, fc_client_id := he_random env, fc_next_request_id := 1\<rparr>))"

definition hello_frame :: "FabricClient \<Rightarrow> Frame" where
  "hello_frame c = make_frame kHello SK_Client (fc_client_id c) 0 (serialize_hello \<lparr>hello_protocol_version = kProtocolVersion, hello_role = ''client''\<rparr>)"

text \<open>The receiving loop of \<open>request\<close>: the result, and whether the client was closed.\<close>

fun request_loop :: "u64 \<Rightarrow> int \<Rightarrow> (int \<times> Frame result) list \<Rightarrow> (Frame result \<times> bool) option" where
  "request_loop req deadline [] = None"
| "request_loop req deadline ((now, frame) # env) =
     (if \<not> now < deadline then Some (fail_with E_Timeout ''no response from coordinator'', True)
      else case frame of
        Inl e \<Rightarrow> if err_code e = E_Timeout then request_loop req deadline env else Some (Inl e, True)
      | Inr f \<Rightarrow>
          if fh_request_id (f_header f) = req then
            (if fh_message_type (f_header f) = kErrorResponse then
               (case fst (deserialize_error_response (reader_of (f_payload f))) of
                  Inr e \<Rightarrow> Some (fail_with E_Internal (err_error e), False)
                | Inl _ \<Rightarrow> Some (Inr f, False))
             else Some (Inr f, False))
          else request_loop req deadline env)"

record RequestEnv =
  rq_start :: int
  rq_sent :: "unit result"
  rq_polls :: "(int \<times> Frame result) list"

definition request_frame :: "u16 \<Rightarrow> byte list \<Rightarrow> FabricClient \<Rightarrow> Frame" where
  "request_frame message_type payload c = make_frame message_type SK_Client (fc_client_id c) (fc_next_request_id c) payload"

definition fc_request :: "int \<Rightarrow> RequestEnv \<Rightarrow> FabricClient \<Rightarrow> (Frame result \<times> FabricClient) option" where
  "fc_request timeout_ms env c =
     (if \<not> fc_open c then Some (fail_with E_NotConnected ''client not connected'', c)
      else if timeout_ms \<le> 0 then Some (fail_with E_Timeout ''request deadline elapsed'', fc_close c)
      else
        let req = fc_next_request_id c; c1 = c\<lparr>fc_next_request_id := req + 1\<rparr> in
        case rq_sent env of
          Inl e \<Rightarrow> Some (Inl e, fc_close c1)
        | Inr _ \<Rightarrow>
          (case request_loop req (rq_start env + timeout_ms) (rq_polls env) of
             None \<Rightarrow> None
           | Some (r, closed) \<Rightarrow> Some (r, if closed then fc_close c1 else c1)))"

section \<open>The calls\<close>

text \<open>What every call does with the response: decode the payload.\<close>

definition fc_call :: "'m parser \<Rightarrow> int \<Rightarrow> RequestEnv \<Rightarrow> FabricClient \<Rightarrow> ('m result \<times> FabricClient) option" where
  "fc_call dec timeout_ms env c =
     (case fc_request timeout_ms env c of
        None \<Rightarrow> None
      | Some (Inl e, c1) \<Rightarrow> Some (Inl e, c1)
      | Some (Inr f, c1) \<Rightarrow> Some (fst (dec (reader_of (f_payload f))), c1))"

text \<open>The calls return the frame they send beside the outcome; it is sent only when the client is open.\<close>

definition fc_submit :: "WorkloadId \<Rightarrow> string \<Rightarrow> ComputeTask \<Rightarrow> RequestEnv \<Rightarrow> FabricClient \<Rightarrow> Frame \<times> (TaskSubmitResponse result \<times> FabricClient) option" where
  "fc_submit workload workload_name task env c =
     (request_frame kTaskSubmit (serialize_task_submit \<lparr>tsu_workload_id = workload, tsu_workload_name = workload_name, tsu_task = task\<rparr>) c,
      fc_call deserialize_task_submit_response 10000 env c)"

definition fc_inspect :: "ComputeTaskId \<Rightarrow> RequestEnv \<Rightarrow> FabricClient \<Rightarrow> Frame \<times> (TaskInspectResponse result \<times> FabricClient) option" where
  "fc_inspect i env c =
     (request_frame kTaskInspect (serialize_task_inspect \<lparr>tin_task_id = i\<rparr>) c, fc_call deserialize_task_inspect_response 10000 env c)"

definition fc_list :: "string \<Rightarrow> RequestEnv \<Rightarrow> FabricClient \<Rightarrow> Frame \<times> (TaskListResponse result \<times> FabricClient) option" where
  "fc_list filter_state env c =
     (request_frame kTaskList (serialize_task_list \<lparr>tl_filter_state = filter_state\<rparr>) c, fc_call deserialize_task_list_response 10000 env c)"

definition fc_cancel :: "ComputeTaskId \<Rightarrow> RequestEnv \<Rightarrow> FabricClient \<Rightarrow> Frame \<times> (TaskCancelResponse result \<times> FabricClient) option" where
  "fc_cancel i env c =
     (request_frame kTaskCancel (serialize_task_cancel \<lparr>tca_task_id = i\<rparr>) c, fc_call deserialize_task_cancel_response 10000 env c)"

definition fc_workload_inspect :: "WorkloadId \<Rightarrow> RequestEnv \<Rightarrow> FabricClient \<Rightarrow> Frame \<times> (WorkloadInspectResponse result \<times> FabricClient) option" where
  "fc_workload_inspect i env c =
     (request_frame kWorkloadInspect (serialize_workload_inspect \<lparr>wi_workload_id = i\<rparr>) c,
      fc_call deserialize_workload_inspect_response 10000 env c)"

definition fc_status :: "int \<Rightarrow> RequestEnv \<Rightarrow> FabricClient \<Rightarrow> Frame \<times> (FabricStatusResponse result \<times> FabricClient) option" where
  "fc_status timeout_ms env c =
     (request_frame kFabricStatus (serialize_fabric_status \<lparr>fst_detail = []\<rparr>) c,
      fc_call deserialize_fabric_status_response timeout_ms env c)"

definition fc_placement_query :: "ComputeTask \<Rightarrow> RequestEnv \<Rightarrow> FabricClient \<Rightarrow> Frame \<times> (PlacementResponse result \<times> FabricClient) option" where
  "fc_placement_query task env c =
     (request_frame kPlacementQuery (serialize_placement_query \<lparr>plq_task = task\<rparr>) c, fc_call deserialize_placement_response 10000 env c)"

definition fc_nodes :: "RequestEnv \<Rightarrow> FabricClient \<Rightarrow> Frame \<times> (NodeListResponse result \<times> FabricClient) option" where
  "fc_nodes env c = (request_frame kNodeList (serialize_node_list NodeList) c, fc_call deserialize_node_list_response 10000 env c)"

definition fc_drain :: "NodeId \<Rightarrow> bool \<Rightarrow> RequestEnv \<Rightarrow> FabricClient \<Rightarrow> Frame \<times> (NodeDrainResponse result \<times> FabricClient) option" where
  "fc_drain i drain_flag env c =
     (request_frame kNodeDrain (serialize_node_drain \<lparr>ndr_node_id = i, ndr_drain = drain_flag\<rparr>) c,
      fc_call deserialize_node_drain_response 10000 env c)"

definition fc_shutdown_coordinator :: "int \<Rightarrow> RequestEnv \<Rightarrow> FabricClient \<Rightarrow> Frame \<times> (CoordinatorShutdownResponse result \<times> FabricClient) option" where
  "fc_shutdown_coordinator timeout_ms env c =
     (request_frame kCoordinatorShutdown (serialize_coordinator_shutdown CoordinatorShutdown) c,
      fc_call deserialize_coordinator_shutdown_response timeout_ms env c)"

text \<open>\<open>wait_for_nodes\<close>: each iteration has the clock at the test and at the call, and the environment of one status request.\<close>

fun fc_wait_for_nodes :: "nat \<Rightarrow> int \<Rightarrow> (int \<times> int \<times> RequestEnv) list \<Rightarrow> FabricClient \<Rightarrow> (bool \<times> FabricClient) option" where
  "fc_wait_for_nodes n deadline [] c = None"
| "fc_wait_for_nodes n deadline ((now, now1, env) # envs) c =
     (if \<not> now < deadline then Some (False, c)
      else case snd (fc_status (deadline - now1) env c) of
        None \<Rightarrow> None
      | Some (r, c1) \<Rightarrow>
          if (case r of Inl _ \<Rightarrow> False | Inr s \<Rightarrow> n \<le> unat (fsr_node_count s)) then Some (True, c1)
          else if \<not> fc_open c1 then Some (False, c1)
          else fc_wait_for_nodes n deadline envs c1)"

section \<open>Responses belong to their requests\<close>

text \<open>What the loop of a request has seen when it returns.\<close>

definition own_response :: "u64 \<Rightarrow> int \<Rightarrow> (int \<times> Frame result) list \<Rightarrow> Frame \<Rightarrow> bool" where
  "own_response req deadline env f \<longleftrightarrow> fh_request_id (f_header f) = req \<and> (\<exists>now. (now, Inr f) \<in> set env \<and> now < deadline)"

lemma own_response_later: "own_response req deadline env f \<Longrightarrow> own_response req deadline (p # env) f"
  by (auto simp: own_response_def)

lemma request_loop_matched:
  assumes "request_loop req deadline env = Some (r, closed)"
  shows "(\<forall>f. r = Inr f \<longrightarrow> own_response req deadline env f \<and> \<not> closed) \<and> (\<not> closed \<longrightarrow> (\<exists>f. own_response req deadline env f))"
  using assms
proof (induction env)
  case (Cons p env)
  obtain now frame where p: "p = (now, frame)" by force
  from Cons.prems p consider "request_loop req deadline env = Some (r, closed)"
    | "\<exists>e. r = Inl e" "closed"
    | f where "frame = Inr f" "now < deadline" "fh_request_id (f_header f) = req" "r = Inr f \<or> (\<exists>e. r = Inl e)" "\<not> closed"
    by (auto simp: fail_with_def split: if_splits sum.splits)
  then show ?case
  proof cases
    case 1
    then show ?thesis using Cons.IH [OF 1] own_response_later by blast
  next
    case 2
    then show ?thesis by auto
  next
    case 3
    then show ?thesis using p unfolding own_response_def by auto
  qed
qed simp

lemma fc_request_matched:
  assumes "fc_request timeout_ms env c = Some (r, c')"
  shows "(\<forall>f. r = Inr f \<longrightarrow> own_response (fc_next_request_id c) (rq_start env + timeout_ms) (rq_polls env) f \<and> fc_open c') \<and>
    (fc_open c' \<longrightarrow> fc_open c \<and> fc_next_request_id c' = fc_next_request_id c + 1 \<and>
       (\<exists>f. own_response (fc_next_request_id c) (rq_start env + timeout_ms) (rq_polls env) f))"
  using assms request_loop_matched
  by (fastforce simp: fc_request_def fc_close_def fail_with_def Let_def split: if_splits sum.splits option.splits)

text \<open>A session: requests made one after the other on one client.\<close>

fun fc_session :: "(int \<times> RequestEnv) list \<Rightarrow> FabricClient \<Rightarrow> (Frame result list \<times> FabricClient) option" where
  "fc_session [] c = Some ([], c)"
| "fc_session ((timeout_ms, env) # reqs) c =
     (case fc_request timeout_ms env c of
        None \<Rightarrow> None
      | Some (r, c1) \<Rightarrow>
          (case fc_session reqs c1 of None \<Rightarrow> None | Some (rs, c2) \<Rightarrow> Some (r # rs, c2)))"

lemma fc_request_closed: "\<not> fc_open c \<Longrightarrow> fc_request timeout_ms env c = Some (fail_with E_NotConnected ''client not connected'', c)"
  by (simp add: fc_request_def)

lemma fc_session_ids:
  assumes "fc_session reqs c = Some (rs, c')" "i < length rs" "rs ! i = Inr f"
  shows "fh_request_id (f_header f) = fc_next_request_id c + of_nat i \<and> fc_open c"
  using assms
proof (induction reqs arbitrary: c rs i)
  case (Cons q reqs)
  obtain timeout_ms env where q: "q = (timeout_ms, env)" by force
  from Cons.prems(1) obtain r c1 ss where step: "fc_request timeout_ms env c = Some (r, c1)"
    and rest: "fc_session reqs c1 = Some (ss, c')" and rs: "rs = r # ss"
    by (auto simp: q split: option.splits)
  show ?case
  proof (cases i)
    case 0
    then show ?thesis using fc_request_matched [OF step] Cons.prems(3) by (auto simp: rs own_response_def)
  next
    case (Suc j)
    from Cons.IH [OF rest, of j] Cons.prems(2,3) have "fh_request_id (f_header f) = fc_next_request_id c1 + of_nat j" "fc_open c1"
      by (simp_all add: rs Suc)
    then show ?thesis using fc_request_matched [OF step] by (simp add: Suc algebra_simps)
  qed
qed simp


section \<open>Answered calls\<close>

text \<open>The response arrives in time, after polls that timed out or brought responses to other requests.\<close>

definition passed_over :: "u64 \<Rightarrow> int \<Rightarrow> int \<times> Frame result \<Rightarrow> bool" where
  "passed_over req deadline p \<longleftrightarrow> fst p < deadline \<and>
     (case snd p of Inl e \<Rightarrow> err_code e = E_Timeout | Inr f \<Rightarrow> fh_request_id (f_header f) \<noteq> req)"

definition answered :: "u16 \<Rightarrow> byte list \<Rightarrow> int \<Rightarrow> RequestEnv \<Rightarrow> FabricClient \<Rightarrow> bool" where
  "answered message_type payload timeout_ms env c \<longleftrightarrow> fc_open c \<and> 0 < timeout_ms \<and> rq_sent env = Inr () \<and>
     (\<exists>before now after. rq_polls env =
        before @ (now, Inr (make_frame message_type SK_Coordinator id_zero (fc_next_request_id c) payload)) # after \<and>
        now < rq_start env + timeout_ms \<and> list_all (passed_over (fc_next_request_id c) (rq_start env + timeout_ms)) before)"

lemma request_loop_passes:
  "list_all (passed_over req deadline) before \<Longrightarrow> request_loop req deadline (before @ env) = request_loop req deadline env"
proof (induction before)
  case (Cons p before)
  then show ?case by (cases p) (auto simp: passed_over_def split: sum.splits)
qed simp

lemma answered_request:
  assumes "answered message_type payload timeout_ms env c" "message_type \<noteq> kErrorResponse"
  shows "fc_request timeout_ms env c =
    Some (Inr (make_frame message_type SK_Coordinator id_zero (fc_next_request_id c) payload), c\<lparr>fc_next_request_id := fc_next_request_id c + 1\<rparr>)"
proof -
  from assms(1) obtain before now after where polls: "rq_polls env =
        before @ (now, Inr (make_frame message_type SK_Coordinator id_zero (fc_next_request_id c) payload)) # after"
      "now < rq_start env + timeout_ms" "list_all (passed_over (fc_next_request_id c) (rq_start env + timeout_ms)) before"
    and c: "fc_open c" "0 < timeout_ms" "rq_sent env = Inr ()" by (auto simp: answered_def)
  have "request_loop (fc_next_request_id c) (rq_start env + timeout_ms) (rq_polls env) =
      Some (Inr (make_frame message_type SK_Coordinator id_zero (fc_next_request_id c) payload), False)"
    unfolding polls(1) request_loop_passes [OF polls(3)] using polls(2) assms(2) by (simp add: make_frame_def)
  then show ?thesis using c by (simp add: fc_request_def Let_def)
qed

text \<open>The contract of a call, for every response type with a codec.\<close>

locale rpc = codec enc dec valid for enc :: "'m \<Rightarrow> byte list" and dec and valid +
  fixes response_type :: u16
  assumes not_error: "response_type \<noteq> kErrorResponse"
begin

lemma call_answered:
  assumes "valid m" "answered response_type (enc m) timeout_ms env c"
  shows "fc_call dec timeout_ms env c = Some (Inr m, c\<lparr>fc_next_request_id := fc_next_request_id c + 1\<rparr>)"
  using answered_request [OF assms(2) not_error] decode_encoded [OF assms(1), of "[]"]
  by (simp add: fc_call_def make_frame_def)

end


interpretation submit_rpc: rpc serialize_task_submit_response deserialize_task_submit_response task_submit_response_fits kTaskSubmitResponse
  by unfold_locales (simp add: kTaskSubmitResponse_def kErrorResponse_def)

interpretation inspect_rpc: rpc serialize_task_inspect_response deserialize_task_inspect_response task_inspect_response_fits kTaskInspectResponse
  by unfold_locales (simp add: kTaskInspectResponse_def kErrorResponse_def)

interpretation list_rpc: rpc serialize_task_list_response deserialize_task_list_response task_list_response_fits kTaskListResponse
  by unfold_locales (simp add: kTaskListResponse_def kErrorResponse_def)

interpretation cancel_rpc: rpc serialize_task_cancel_response deserialize_task_cancel_response task_cancel_response_fits kTaskCancelResponse
  by unfold_locales (simp add: kTaskCancelResponse_def kErrorResponse_def)

interpretation workload_rpc: rpc serialize_workload_inspect_response deserialize_workload_inspect_response workload_inspect_response_fits kWorkloadInspectResponse
  by unfold_locales (simp add: kWorkloadInspectResponse_def kErrorResponse_def)

interpretation status_rpc: rpc serialize_fabric_status_response deserialize_fabric_status_response fabric_status_response_fits kFabricStatusResponse
  by unfold_locales (simp add: kFabricStatusResponse_def kErrorResponse_def)

interpretation placement_rpc: rpc serialize_placement_response deserialize_placement_response placement_response_fits kPlacementResponse
  by unfold_locales (simp add: kPlacementResponse_def kErrorResponse_def)

interpretation nodes_rpc: rpc serialize_node_list_response deserialize_node_list_response node_list_response_fits kNodeListResponse
  by unfold_locales (simp add: kNodeListResponse_def kErrorResponse_def)

interpretation drain_rpc: rpc serialize_node_drain_response deserialize_node_drain_response node_drain_response_fits kNodeDrainResponse
  by unfold_locales (simp add: kNodeDrainResponse_def kErrorResponse_def)

interpretation shutdown_rpc: rpc serialize_coordinator_shutdown_response deserialize_coordinator_shutdown_response coordinator_shutdown_response_fits kCoordinatorShutdownResponse
  by unfold_locales (simp add: kCoordinatorShutdownResponse_def kErrorResponse_def)

definition after :: "FabricClient \<Rightarrow> FabricClient" where
  "after c = c\<lparr>fc_next_request_id := fc_next_request_id c + 1\<rparr>"

lemmas calls_def = fc_submit_def fc_inspect_def fc_list_def fc_cancel_def fc_workload_inspect_def fc_status_def fc_placement_query_def
  fc_nodes_def fc_drain_def fc_shutdown_coordinator_def

lemmas calls_answered_rules = submit_rpc.call_answered inspect_rpc.call_answered list_rpc.call_answered cancel_rpc.call_answered
  workload_rpc.call_answered status_rpc.call_answered placement_rpc.call_answered nodes_rpc.call_answered drain_rpc.call_answered
  shutdown_rpc.call_answered


definition sample_client :: FabricClient where
  "sample_client = (new_client ''127.0.0.1'' 7000)\<lparr>fc_open := True\<rparr>"

definition sample_answer :: "u64 \<Rightarrow> RequestEnv" where
  "sample_answer rid = \<lparr>rq_start = 0, rq_sent = Inr (),
     rq_polls = [(1, fail_with E_Timeout ''recv timeout''),
       (2, Inr (make_frame kNodeDrainResponse SK_Coordinator id_zero rid (serialize_node_drain_response \<lparr>ndrr_found = True, ndrr_accepted = True, ndrr_error = []\<rparr>)))]\<rparr>"

lemma sample_answered:
  assumes "fc_open c"
  shows "answered kNodeDrainResponse (serialize_node_drain_response \<lparr>ndrr_found = True, ndrr_accepted = True, ndrr_error = []\<rparr>) 10000
    (sample_answer (fc_next_request_id c)) c"
proof -
  have "list_all (passed_over (fc_next_request_id c) 10000) [(1, fail_with E_Timeout ''recv timeout'')]"
    by (simp add: passed_over_def fail_with_def make_error_def)
  then show ?thesis using assms unfolding answered_def sample_answer_def
    by (auto intro!: exI [of _ "[(1, fail_with E_Timeout ''recv timeout'')]"])
qed



end
