(* ===== verification/Client_Calls.thy ===== *)
theory Client_Calls
  imports Client Coordinator_Threads
begin

text \<open>
  The client and the coordinator's client reader agree: what a call sends is the command that the reader queues, with the
  call's arguments, the reader's connection and the request identifier the client waits for.
\<close>

lemma request_frame_fields:
  "fh_message_type (f_header (request_frame ty p c)) = ty" "fh_request_id (f_header (request_frame ty p c)) = fc_next_request_id c"
  "f_payload (request_frame ty p c) = p"
  by (simp_all add: request_frame_def make_frame_def)

lemmas request_types = kTaskSubmit_def kTaskInspect_def kTaskList_def kTaskCancel_def kWorkloadInspect_def kFabricStatus_def kPlacementQuery_def
  kNodeList_def kNodeDrain_def kCoordinatorShutdown_def

lemmas request_payloads = task_submit_codec.decode_encoded [of _ "[]", simplified] task_inspect_codec.decode_encoded [of _ "[]", simplified]
  task_list_codec.decode_encoded [of _ "[]", simplified] task_cancel_codec.decode_encoded [of _ "[]", simplified]
  workload_inspect_codec.decode_encoded [of _ "[]", simplified] fabric_status_codec.decode_encoded [of _ "[]", simplified]
  placement_query_codec.decode_encoded [of _ "[]", simplified] node_list_codec.decode_encoded [of _ "[]", simplified]
  node_drain_codec.decode_encoded [of _ "[]", simplified] coordinator_shutdown_codec.decode_encoded [of _ "[]", simplified]



end
