(* ===== verification/Spec2Isabelle.thy ===== *)
theory Spec2Isabelle
  imports Restart Channel Fabric_System Client_Calls
begin

text \<open>
  A verification development for Compute Fabric, a coordinator and a set of worker nodes that
  place, dispatch, retry and complete compute tasks.
\<close>

end
